(* ===== verification/Prelude.thy ===== *)
theory Prelude
  imports Main "HOL-Library.Word" "HOL-Library.Char_ord" "HOL-Library.List_Lexorder"
begin

text \<open>
  Shared vocabulary of the development: machine integers, the \<open>Result\<close> type of Rust with its
  early return, loops over a vector that may fail, hash sets and hash maps, text helpers of
  the standard library, and three interfaces the components share:
  \<^item> \<open>text_codec\<close>: a type printed to text and parsed back (\<open>Display\<close> / \<open>FromStr\<close>);
  \<^item> \<open>step_system\<close>: a state machine driven by events, with an invariant kept by every step;
  \<^item> \<open>relation_system\<close>: the same for concurrent steps, a relation between states.
\<close>

section \<open>Collections of rules\<close>

named_theorems result_simps \<open>equations for fallible computations\<close>
named_theorems merge_rules \<open>what a merge of two server descriptions keeps\<close>
named_theorems svc_simps \<open>unfolding of the monitoring handlers\<close>

section \<open>Machine integers\<close>

type_synonym u8 = "8 word"
type_synonym u16 = "16 word"
type_synonym u32 = "32 word"
type_synonym u64 = "64 word"

section \<open>Fallible computations\<close>

text \<open>
  \<open>Result<T, E>\<close> is the sum \<open>'e + 'a\<close> with \<open>Inl\<close> for \<open>Err\<close>. The operator \<open>?\<close> is
  \<open>and_then\<close>; \<open>Option::ok_or(e)?\<close> is \<open>ok_or\<close>; a guard that returns early is \<open>ensure\<close>; a
  loop with early return is \<open>try_fold\<close>.
\<close>

fun and_then :: "'e + 'a \<Rightarrow> ('a \<Rightarrow> 'e + 'b) \<Rightarrow> 'e + 'b" where
  "and_then (Inl e) f = Inl e"
| "and_then (Inr x) f = f x"

definition ok_or :: "'a option \<Rightarrow> 'e \<Rightarrow> 'e + 'a" where
  "ok_or x e = (case x of None \<Rightarrow> Inl e | Some v \<Rightarrow> Inr v)"

definition ensure :: "bool \<Rightarrow> 'e \<Rightarrow> 'e + unit" where
  "ensure b e = (if b then Inr () else Inl e)"

fun try_fold :: "('s \<Rightarrow> 'a \<Rightarrow> 'e + 's) \<Rightarrow> 's \<Rightarrow> 'a list \<Rightarrow> 'e + 's" where
  "try_fold f s [] = Inr s"
| "try_fold f s (x # xs) = and_then (f s x) (\<lambda>s'. try_fold f s' xs)"

fun try_map :: "('a \<Rightarrow> 'e + 'b) \<Rightarrow> 'a list \<Rightarrow> 'e + 'b list" where
  "try_map f [] = Inr []"
| "try_map f (x # xs) = and_then (f x) (\<lambda>y. and_then (try_map f xs) (\<lambda>ys. Inr (y # ys)))"

lemma and_then_Inr_iff [simp, result_simps]:
  "and_then r f = Inr y \<longleftrightarrow> (\<exists>x. r = Inr x \<and> f x = Inr y)"
  by (cases r) auto

lemma and_then_Inl_iff [result_simps]:
  "and_then r f = Inl e \<longleftrightarrow> r = Inl e \<or> (\<exists>x. r = Inr x \<and> f x = Inl e)"
  by (cases r) auto

lemma ok_or_simps [simp, result_simps]:
  "ok_or None e = Inl e" "ok_or (Some v) e = Inr v"
  by (simp_all add: ok_or_def)

lemma ok_or_Inr_iff [simp, result_simps]: "ok_or x e = Inr v \<longleftrightarrow> x = Some v"
  by (cases x) auto

lemma ensure_Inr_iff [simp, result_simps]: "ensure b e = Inr u \<longleftrightarrow> b"
  by (simp add: ensure_def)

lemma ensure_Inl_iff [simp, result_simps]: "ensure b e = Inl e' \<longleftrightarrow> \<not> b \<and> e' = e"
  by (auto simp: ensure_def)

lemma ensure_simps [simp]: "ensure True e = Inr ()" "ensure False e = Inl e"
  by (simp_all add: ensure_def)

lemma try_fold_append [simp]:
  "try_fold f s (xs @ ys) = and_then (try_fold f s xs) (\<lambda>s'. try_fold f s' ys)"
proof (induction xs arbitrary: s)
  case (Cons x xs)
  then show ?case by (cases "f s x") auto
qed simp

text \<open>An invariant of the loop body is an invariant of the loop.\<close>

lemma try_fold_invariant:
  assumes "try_fold f s xs = Inr t" "P s"
    and "\<And>x a b. x \<in> set xs \<Longrightarrow> P a \<Longrightarrow> f a x = Inr b \<Longrightarrow> P b"
  shows "P t"
  using assms
proof (induction xs arbitrary: s)
  case (Cons x xs)
  from Cons.prems(1) obtain s' where s': "f s x = Inr s'" "try_fold f s' xs = Inr t" by auto
  have "P s'" using Cons.prems(2,3) s'(1) by auto
  with s'(2) show ?case using Cons.IH Cons.prems(3) by auto
qed simp

text \<open>If no element fails on its own state, the loop does not fail.\<close>

lemma try_fold_total:
  assumes "\<And>a x. x \<in> set xs \<Longrightarrow> \<exists>b. f a x = Inr b"
  shows "\<exists>t. try_fold f s xs = Inr t"
  using assms
proof (induction xs arbitrary: s)
  case (Cons x xs)
  from Cons.prems obtain b where "f s x = Inr b" by auto
  with Cons show ?case by auto
qed simp

lemma try_map_Inr_iff:
  "try_map f xs = Inr ys \<longleftrightarrow> list_all2 (\<lambda>x y. f x = Inr y) xs ys"
proof (induction xs arbitrary: ys)
  case (Cons x xs)
  then show ?case by (cases ys) auto
qed auto

lemma try_map_length: "try_map f xs = Inr ys \<Longrightarrow> length ys = length xs"
  by (auto simp: try_map_Inr_iff dest: list_all2_lengthD)

text \<open>
  Code that talks to something with a state of its own (a remote service, a database, the file
  system) is a function of that state: \<open>via\<close> is \<open>?\<close> after such a call, \<open>pure\<close> a call that leaves
  the state alone, and \<open>via_each\<close> a loop with early return.
\<close>

type_synonym ('w, 'e, 'a) call = "'w \<Rightarrow> ('e + 'a) \<times> 'w"

definition via :: "('w, 'e, 'a) call \<Rightarrow> ('a \<Rightarrow> ('w, 'e, 'b) call) \<Rightarrow> ('w, 'e, 'b) call" where
  "via m k = (\<lambda>w. case m w of (Inl e, w') \<Rightarrow> (Inl e, w') | (Inr x, w') \<Rightarrow> k x w')"

definition pure :: "'e + 'a \<Rightarrow> ('w, 'e, 'a) call" where
  "pure r = (\<lambda>w. (r, w))"

fun via_each :: "('s \<Rightarrow> 'a \<Rightarrow> ('w, 'e, 's) call) \<Rightarrow> 's \<Rightarrow> 'a list \<Rightarrow> ('w, 'e, 's) call" where
  "via_each f s [] = pure (Inr s)"
| "via_each f s (x # xs) = via (f s x) (\<lambda>s'. via_each f s' xs)"

lemma via_Inr_iff [result_simps]:
  "via m k w = (Inr y, w2) \<longleftrightarrow> (\<exists>x w1. m w = (Inr x, w1) \<and> k x w1 = (Inr y, w2))"
  by (auto simp: via_def split: prod.split sum.split)

lemma via_Inl_iff [result_simps]:
  "via m k w = (Inl e, w2) \<longleftrightarrow> m w = (Inl e, w2) \<or> (\<exists>x w1. m w = (Inr x, w1) \<and> k x w1 = (Inl e, w2))"
  by (auto simp: via_def split: prod.split sum.split)

lemma pure_eq_iff [simp, result_simps]: "pure r w = (q, w2) \<longleftrightarrow> r = q \<and> w = w2"
  by (simp add: pure_def)

lemma via_simps [simp]:
  "m w = (Inr x, w1) \<Longrightarrow> via m k w = k x w1" "m w = (Inl e, w1) \<Longrightarrow> via m k w = (Inl e, w1)"
  by (simp_all add: via_def)

section \<open>Lists, hash sets and hash maps\<close>

text \<open>
  \<open>seen_insert\<close> is \<open>if !set.insert(x) { return Err(e) }\<close>: it refuses an element that the set
  holds already.
\<close>

definition seen_insert :: "'e \<Rightarrow> 'a set \<Rightarrow> 'a \<Rightarrow> 'e + 'a set" where
  "seen_insert e seen x = (if x \<in> seen then Inl e else Inr (insert x seen))"

lemma seen_insert_Inr_iff [simp, result_simps]:
  "seen_insert e seen x = Inr seen' \<longleftrightarrow> x \<notin> seen \<and> seen' = insert x seen"
  by (auto simp: seen_insert_def)

lemma try_fold_seen_insert:
  "try_fold (\<lambda>s x. seen_insert e s (f x)) seen xs = Inr seen' \<longleftrightarrow>
     distinct (map f xs) \<and> set (map f xs) \<inter> seen = {} \<and> seen' = seen \<union> set (map f xs)"
  by (induction xs arbitrary: seen) (auto simp: seen_insert_def)

text \<open>\<open>entry(k).or_insert(v)\<close> keeps a value that is present.\<close>

definition or_insert :: "('k \<rightharpoonup> 'v) \<Rightarrow> 'k \<Rightarrow> 'v \<Rightarrow> ('k \<rightharpoonup> 'v)" where
  "or_insert m k v = (case m k of None \<Rightarrow> m(k \<mapsto> v) | Some _ \<Rightarrow> m)"

lemma or_insert_apply [simp]:
  "or_insert m k v x = (if x = k \<and> m k = None then Some v else m x)"
  by (auto simp: or_insert_def split: option.split)

lemma dom_or_insert [simp]: "dom (or_insert m k v) = insert k (dom m)"
  by (auto simp: or_insert_def split: option.split)

text \<open>The first element of a list that has a key, as \<open>iter().find(..)\<close> returns it.\<close>

lemma find_Some_in: "find P xs = Some x \<Longrightarrow> x \<in> set xs \<and> P x"
  by (auto simp: find_Some_iff)

lemma find_unique:
  assumes "distinct (map f xs)" "x \<in> set xs"
  shows "find (\<lambda>y. f y = f x) xs = Some x"
  using assms by (induction xs) (auto simp: rev_image_eqI)

lemma find_key_None: "find (\<lambda>y. f y = k) xs = None \<longleftrightarrow> k \<notin> f ` set xs"
  by (auto simp: find_None_iff)

lemma distinct_map_inj: "distinct (map f xs) \<Longrightarrow> x \<in> set xs \<Longrightarrow> y \<in> set xs \<Longrightarrow> f x = f y \<Longrightarrow> x = y"
  by (auto simp: distinct_map inj_on_def)

section \<open>Text\<close>

fun join :: "string \<Rightarrow> string list \<Rightarrow> string" where
  "join sep [] = []"
| "join sep [x] = x"
| "join sep (x # y # zs) = x @ sep @ join sep (y # zs)"

definition strip_prefix :: "'a list \<Rightarrow> 'a list \<Rightarrow> 'a list option" where
  "strip_prefix p s = (if take (length p) s = p then Some (drop (length p) s) else None)"

definition strip_suffix :: "'a list \<Rightarrow> 'a list \<Rightarrow> 'a list option" where
  "strip_suffix p s = map_option rev (strip_prefix (rev p) (rev s))"

definition starts_with :: "'a list \<Rightarrow> 'a list \<Rightarrow> bool" where
  "starts_with p s \<longleftrightarrow> strip_prefix p s \<noteq> None"

definition ends_with :: "'a list \<Rightarrow> 'a list \<Rightarrow> bool" where
  "ends_with p s \<longleftrightarrow> strip_suffix p s \<noteq> None"

lemma strip_prefix_Some_iff [simp]: "strip_prefix p s = Some t \<longleftrightarrow> s = p @ t"
  by (auto simp: strip_prefix_def) (metis append_take_drop_id)

lemma strip_suffix_Some_iff [simp]: "strip_suffix p s = Some t \<longleftrightarrow> s = t @ p"
  by (auto simp: strip_suffix_def) (metis rev_append rev_rev_ident)

lemma starts_with_iff: "starts_with p s \<longleftrightarrow> (\<exists>t. s = p @ t)"
  by (auto simp: starts_with_def)

lemma ends_with_iff: "ends_with p s \<longleftrightarrow> (\<exists>t. s = t @ p)"
  by (auto simp: ends_with_def)

section \<open>Interfaces\<close>

text \<open>A type that is written as text and read back.\<close>

locale text_codec =
  fixes enc :: "'a \<Rightarrow> string" and dec :: "string \<Rightarrow> 'a option"
  assumes dec_enc: "dec (enc x) = Some x"
begin

lemma enc_inj: "enc x = enc y \<longleftrightarrow> x = y"
  by (metis dec_enc option.inject)

lemma enc_column: "try_map (\<lambda>s. ok_or (dec s) e) (map enc xs) = Inr xs"
  by (induction xs) (simp_all add: dec_enc)

end

text \<open>
  A deterministic state machine driven by events: every step keeps the invariant, so every
  state along a run does.
\<close>

locale step_system =
  fixes step :: "'s \<Rightarrow> 'e \<Rightarrow> 's" and inv :: "'s \<Rightarrow> bool" and allowed :: "'e \<Rightarrow> bool"
  assumes step_inv: "inv s \<Longrightarrow> allowed e \<Longrightarrow> inv (step s e)"
begin

lemma run_inv: "inv s \<Longrightarrow> list_all allowed es \<Longrightarrow> inv (foldl step s es)"
  by (induction es arbitrary: s) (auto intro: step_inv)

lemma run_prefix_inv: "inv s \<Longrightarrow> list_all allowed (es @ fs) \<Longrightarrow> inv (foldl step s es)"
  by (rule run_inv) simp_all

end

text \<open>Concurrent tasks take their steps in any order: the invariant holds in every reachable state.\<close>

locale relation_system =
  fixes step :: "'s \<Rightarrow> 's \<Rightarrow> bool" and inv :: "'s \<Rightarrow> bool"
  assumes step_inv: "inv s \<Longrightarrow> step s t \<Longrightarrow> inv t"
begin

lemma reachable_inv: "step\<^sup>*\<^sup>* s t \<Longrightarrow> inv s \<Longrightarrow> inv t"
  by (induction rule: rtranclp_induct) (auto intro: step_inv)

end

text \<open>
  Walking a hash table visits every key exactly once, in an order the program must not depend on.
\<close>

definition is_walk :: "'k list \<Rightarrow> 'k set \<Rightarrow> bool" where
  "is_walk ks A \<longleftrightarrow> distinct ks \<and> set ks = A"

lemma is_walk_map_distinct: "is_walk ks A \<Longrightarrow> inj_on f A \<Longrightarrow> distinct (map f ks)"
  by (simp add: is_walk_def distinct_map)

lemma is_walkI [intro]: "distinct ks \<Longrightarrow> set ks = A \<Longrightarrow> is_walk ks A"
  by (simp add: is_walk_def)

end
