(* ===== verification/Naming.thy ===== *)
theory Naming
  imports Prelude
begin

text \<open>
  Names and enumerations of \<^verbatim>\<open>src/types.rs\<close>: the checks \<open>is_proper\<close> and \<open>is_proper_subdomain\<close>
  with the suggestion \<open>slug\<close>, the service kinds, the server state kept in an atomic byte, and
  the text forms of the enumerations that go to the database and come back.

  A Rust string is its UTF-8 bytes (\<open>string\<close>). The checks look at ASCII characters only, so
  they are the same on bytes and on characters; \<open>slug\<close> walks characters with their byte
  positions, so it decodes the bytes first.
\<close>

section \<open>Characters\<close>

definition ascii_lowercase :: "nat \<Rightarrow> bool" where
  "ascii_lowercase c \<longleftrightarrow> 97 \<le> c \<and> c \<le> 122"

definition ascii_uppercase :: "nat \<Rightarrow> bool" where
  "ascii_uppercase c \<longleftrightarrow> 65 \<le> c \<and> c \<le> 90"

definition ascii_digit :: "nat \<Rightarrow> bool" where
  "ascii_digit c \<longleftrightarrow> 48 \<le> c \<and> c \<le> 57"

definition ascii_alphanumeric :: "nat \<Rightarrow> bool" where
  "ascii_alphanumeric c \<longleftrightarrow> ascii_lowercase c \<or> ascii_uppercase c \<or> ascii_digit c"

lemmas ascii_defs = ascii_lowercase_def ascii_uppercase_def ascii_digit_def ascii_alphanumeric_def

definition alnum :: "char \<Rightarrow> bool" where
  "alnum c \<longleftrightarrow> ascii_alphanumeric (of_char c)"

definition to_lower :: "nat \<Rightarrow> nat" where
  "to_lower c = (if ascii_uppercase c then c + 32 else c)"

text \<open>The Unicode property \<open>White_Space\<close>, which \<open>str::trim\<close> uses.\<close>

definition white_space :: "nat \<Rightarrow> bool" where
  "white_space c \<longleftrightarrow> 9 \<le> c \<and> c \<le> 13 \<or> c = 32 \<or> c = 133 \<or> c = 160 \<or> c = 5760
     \<or> 8192 \<le> c \<and> c \<le> 8202 \<or> c = 8232 \<or> c = 8233 \<or> c = 8239 \<or> c = 8287 \<or> c = 12288"

definition trim_ws :: "nat list \<Rightarrow> nat list" where
  "trim_ws cs = rev (dropWhile white_space (rev (dropWhile white_space cs)))"

definition len_utf8 :: "nat \<Rightarrow> nat" where
  "len_utf8 c = (if c < 128 then 1 else if c < 2048 then 2 else if c < 65536 then 3 else 4)"

text \<open>\<open>str::chars\<close>: the scalar values of well-formed UTF-8.\<close>

function utf8_chars :: "nat list \<Rightarrow> nat list" where
  "utf8_chars [] = []"
| "utf8_chars (b # bs) =
     (if b < 128 then b # utf8_chars bs
      else let k = (if b < 224 then 1 else if b < 240 then 2 else 3);
               lead = (if b < 224 then b - 192 else if b < 240 then b - 224 else b - 240)
           in foldl (\<lambda>a c. a * 64 + (c - 128)) lead (take k bs) # utf8_chars (drop k bs))"
  by pat_completeness auto
termination
  by (relation "measure length") auto

definition str_chars :: "string \<Rightarrow> nat list" where
  "str_chars s = utf8_chars (map of_char s)"

section \<open>Proper names\<close>

definition is_proper_subdomain :: "string \<Rightarrow> bool" where
  "is_proper_subdomain nm \<longleftrightarrow>
     nm \<noteq> [] \<and> length nm \<le> 63
     \<and> (let c = of_char (hd nm) in ascii_lowercase c \<or> ascii_digit c)
     \<and> (let c = of_char (last nm) in ascii_lowercase c \<or> ascii_digit c)
     \<and> list_all (\<lambda>c. ascii_lowercase (of_char c) \<or> ascii_digit (of_char c) \<or> c = CHR ''-'') nm"

definition is_proper :: "string \<Rightarrow> bool" where
  "is_proper nm \<longleftrightarrow>
     nm \<noteq> [] \<and> alnum (hd nm) \<and> alnum (last nm) \<and> list_all (\<lambda>c. alnum c \<or> c = CHR ''_'') nm"

text \<open>
  The closure of \<open>slug\<close>: position \<open>p\<close> is the byte offset of the character, \<open>sl\<close> the length of
  the trimmed string in bytes.
\<close>

definition slug_char :: "nat \<Rightarrow> nat \<Rightarrow> nat \<Rightarrow> char" where
  "slug_char sl p c =
     (case (p = 0, p + len_utf8 c = sl, ascii_alphanumeric c) of
        (_, _, True) \<Rightarrow> char_of c
      | (True, _, False) \<Rightarrow> CHR ''a''
      | (_, True, False) \<Rightarrow> CHR ''a''
      | _ \<Rightarrow> CHR ''_'')"

fun slug_from :: "nat \<Rightarrow> nat \<Rightarrow> nat list \<Rightarrow> string" where
  "slug_from sl p [] = []"
| "slug_from sl p (c # cs) = slug_char sl p c # slug_from sl (p + len_utf8 c) cs"

definition slug :: "string \<Rightarrow> string" where
  "slug str =
     (let s = trim_ws (str_chars str)
      in if s = [] then ''good_nickname1'' else slug_from (sum_list (map len_utf8 s)) 0 s)"

lemma len_utf8_pos [simp]: "0 < len_utf8 c"
  by (simp add: len_utf8_def)

lemma alnum_char_of: "ascii_alphanumeric c \<Longrightarrow> alnum (char_of c)"
  by (auto simp: alnum_def ascii_defs)

lemma alnum_a: "alnum (CHR ''a'')"
  by (simp add: alnum_def ascii_defs)

lemma slug_char_cases: "alnum (slug_char sl p c) \<or> slug_char sl p c = CHR ''_''"
  by (auto simp: slug_char_def alnum_char_of alnum_a split: bool.split)

lemma slug_char_first: "alnum (slug_char sl 0 c)"
  by (auto simp: slug_char_def alnum_char_of alnum_a split: bool.split)

lemma slug_char_last: "alnum (slug_char (p + len_utf8 c) p c)"
  by (auto simp: slug_char_def alnum_char_of alnum_a split: bool.split)

lemma slug_from_all: "list_all (\<lambda>c. alnum c \<or> c = CHR ''_'') (slug_from sl p cs)"
  by (induction cs arbitrary: p) (auto simp: slug_char_cases)

lemma slug_from_Nil_iff [simp]: "slug_from sl p cs = [] \<longleftrightarrow> cs = []"
  by (cases cs) auto

lemma slug_from_last:
  "cs \<noteq> [] \<Longrightarrow> alnum (last (slug_from (p + sum_list (map len_utf8 cs)) p cs))"
proof (induction cs arbitrary: p)
  case (Cons c cs)
  show ?case
  proof (cases "cs = []")
    case True
    then show ?thesis by (simp add: slug_char_last)
  next
    case False
    with Cons.IH [of "p + len_utf8 c"] show ?thesis by (simp add: add.assoc)
  qed
qed simp

text \<open>
  The nickname that \<open>slug\<close> suggests when a name of the configuration is refused is always
  accepted by the check \<open>is_proper\<close>, whatever the refused text was.
\<close>

lemma slug_is_proper: "is_proper (slug str)"
proof (cases "trim_ws (str_chars str) = []")
  case True
  then show ?thesis
    by (simp add: slug_def is_proper_def alnum_def ascii_defs)
next
  case False
  then obtain c cs where s: "trim_ws (str_chars str) = c # cs" by (cases "trim_ws (str_chars str)") auto
  let ?sl = "sum_list (map len_utf8 (c # cs))"
  have "slug str = slug_from ?sl 0 (c # cs)" by (simp add: slug_def s)
  moreover have "is_proper (slug_from ?sl 0 (c # cs))"
    unfolding is_proper_def
    using slug_from_last [of "c # cs" 0] slug_from_all [of ?sl 0 "c # cs"]
    by (simp add: slug_char_first)
  ultimately show ?thesis by simp
qed

text \<open>A proper name is its own slug.\<close>

lemma of_char_less_256: "(of_char c :: nat) < 256"
  by (metis of_char_mod_256 mod_less_divisor zero_less_numeral)

lemma alnum_ascii: "alnum c \<or> c = CHR ''_'' \<Longrightarrow> (of_char c :: nat) < 128"
  by (auto simp: alnum_def ascii_defs)

lemma utf8_chars_ascii: "list_all (\<lambda>b. b < 128) bs \<Longrightarrow> utf8_chars bs = bs"
  by (induction bs) auto

lemma slug_from_proper:
  assumes "list_all (\<lambda>c. alnum c \<or> c = CHR ''_'') nm"
    and "p = 0 \<Longrightarrow> nm \<noteq> [] \<Longrightarrow> alnum (hd nm)" and "nm \<noteq> [] \<Longrightarrow> alnum (last nm)"
  shows "slug_from (p + length nm) p (map of_char nm) = nm"
  using assms
proof (induction nm arbitrary: p)
  case (Cons c cs)
  have one: "len_utf8 (of_char c) = 1"
    using Cons.prems(1) alnum_ascii [of c] by (simp add: len_utf8_def)
  have tail: "slug_from (Suc p + length cs) (Suc p) (map of_char cs) = cs"
    using Cons.prems by (intro Cons.IH) auto
  have head: "slug_char (Suc (p + length cs)) p (of_char c) = c"
  proof (cases "alnum c")
    case True
    then show ?thesis by (simp add: slug_char_def alnum_def split: bool.split)
  next
    case False
    with Cons.prems have "c = CHR ''_''" "p \<noteq> 0" "cs \<noteq> []" by (auto split: if_splits)
    then show ?thesis by (simp add: slug_char_def one ascii_defs len_utf8_def split: bool.split)
  qed
  from one head tail show ?case by simp
qed simp

lemma alnum_not_white: "alnum c \<Longrightarrow> \<not> white_space (of_char c)"
  by (auto simp: alnum_def ascii_defs white_space_def)

lemma trim_ws_ends:
  assumes "cs \<noteq> []" "\<not> white_space (hd cs)" "\<not> white_space (last cs)"
  shows "trim_ws cs = cs"
proof -
  have front: "dropWhile white_space cs = cs"
    using assms by (simp add: dropWhile_eq_self_iff)
  have rear: "dropWhile white_space (rev cs) = rev cs"
    using assms by (simp add: dropWhile_eq_self_iff hd_rev)
  show ?thesis by (simp add: trim_ws_def front rear)
qed

theorem slug_proper_fixed:
  assumes "is_proper nm"
  shows "slug nm = nm"
proof -
  have nm: "nm \<noteq> []" "alnum (hd nm)" "alnum (last nm)" "list_all (\<lambda>c. alnum c \<or> c = CHR ''_'') nm"
    using assms by (auto simp: is_proper_def)
  have ascii: "list_all (\<lambda>b. b < 128) (map of_char nm :: nat list)"
    using nm(4) alnum_ascii by (auto simp: list_all_iff)
  have chars: "str_chars nm = map of_char nm"
    by (simp add: str_chars_def utf8_chars_ascii [OF ascii])
  have trim: "trim_ws (str_chars nm) = map of_char nm"
    using nm by (simp add: chars trim_ws_ends alnum_not_white hd_map last_map)
  have len: "sum_list (map len_utf8 (map of_char nm)) = length nm"
    using ascii by (induction nm) (auto simp: len_utf8_def)
  show ?thesis
    using nm slug_from_proper [of nm 0] by (simp add: slug_def trim len [simplified])
qed

section \<open>Service kinds\<close>

datatype SvcKind = Ssh | Nginx | Xray string

fun svc_to_string :: "SvcKind \<Rightarrow> string" where
  "svc_to_string Ssh = ''ssh''"
| "svc_to_string Nginx = ''nginx''"
| "svc_to_string (Xray inb) = ''xray_'' @ inb"

definition super_name :: string where
  "super_name = ''super''"

definition super_xray :: SvcKind where
  "super_xray = Xray super_name"

fun svc_display :: "SvcKind \<Rightarrow> string" where
  "svc_display Ssh = ''SSH''"
| "svc_display Nginx = ''Nginx''"
| "svc_display (Xray _) = ''Xray''"

fun svc_nice_display :: "SvcKind \<Rightarrow> string" where
  "svc_nice_display Ssh = ''SSH''"
| "svc_nice_display Nginx = ''Nginx''"
| "svc_nice_display (Xray inb) = ''Xray('' @ inb @ '')''"

definition svc_from_str :: "string \<Rightarrow> SvcKind option" where
  "svc_from_str s =
     (if s = ''ssh'' then Some Ssh
      else if s = ''nginx'' then Some Nginx
      else case strip_prefix ''xray_'' s of Some nm \<Rightarrow> Some (Xray nm) | None \<Rightarrow> None)"

lemma svc_roundtrip: "svc_from_str (svc_to_string k) = Some k"
  by (cases k) (simp_all add: svc_from_str_def strip_prefix_def)

lemma svc_from_str_Some: "svc_from_str s = Some k \<Longrightarrow> svc_to_string k = s"
  by (auto simp: svc_from_str_def split: if_splits option.splits)

interpretation svc_text: text_codec svc_to_string svc_from_str
  by unfold_locales (rule svc_roundtrip)

lemma svc_nice_display_inj: "svc_nice_display a = svc_nice_display b \<longleftrightarrow> a = b"
  by (cases a; cases b) auto

section \<open>Server state\<close>

datatype ServerState = Offgrid | Production

definition state_as_u8 :: "ServerState \<Rightarrow> u8" where
  "state_as_u8 st = (case st of Offgrid \<Rightarrow> 0 | Production \<Rightarrow> 1)"

text \<open>\<open>AtomicServerState\<close>: \<open>None\<close> is the \<open>unreachable!\<close> panic of \<open>load\<close>.\<close>

definition atomic_load :: "u8 \<Rightarrow> ServerState option" where
  "atomic_load b = (if b = 0 then Some Offgrid else if b = 1 then Some Production else None)"

definition atomic_store :: "u8 \<Rightarrow> ServerState \<Rightarrow> u8" where
  "atomic_store b st = state_as_u8 st"

fun state_to_string :: "ServerState \<Rightarrow> string" where
  "state_to_string Offgrid = ''Offgrid''"
| "state_to_string Production = ''Production''"

definition state_from_str :: "string \<Rightarrow> ServerState option" where
  "state_from_str s = (if s = ''Offgrid'' then Some Offgrid
     else if s = ''Production'' then Some Production else None)"

text \<open>
  The deserializer of the configuration file trims and ignores case. Lower-casing is written
  out for ASCII: no other character lower-cases to a letter of the two words.
\<close>

definition state_deserialize :: "string \<Rightarrow> ServerState option" where
  "state_deserialize raw =
     (let s = map to_lower (trim_ws (str_chars raw))
      in if s = map of_char ''production'' then Some Production
         else if s = map of_char ''offgrid'' then Some Offgrid else None)"

lemma atomic_load_store: "atomic_load (atomic_store b st) = Some st"
  by (cases st) (simp_all add: atomic_load_def atomic_store_def state_as_u8_def)

interpretation state_text: text_codec state_to_string state_from_str
  by unfold_locales (rename_tac x, case_tac x, simp_all add: state_from_str_def)

interpretation state_config: text_codec state_to_string state_deserialize
  by unfold_locales
    (rename_tac x, case_tac x,
     simp_all add: state_deserialize_def str_chars_def trim_ws_def white_space_def to_lower_def ascii_defs)

section \<open>Health of a service\<close>

datatype SvcHealth = HOk | Sick | Unknown

fun health_to_string :: "SvcHealth \<Rightarrow> string" where
  "health_to_string HOk = ''Ok''"
| "health_to_string Sick = ''Sick''"
| "health_to_string Unknown = ''Unknown''"

definition health_from_str :: "string \<Rightarrow> SvcHealth option" where
  "health_from_str s = (if s = ''Ok'' then Some HOk else if s = ''Sick'' then Some Sick
     else if s = ''Unknown'' then Some Unknown else None)"

interpretation health_text: text_codec health_to_string health_from_str
  by unfold_locales (rename_tac x, case_tac x, simp_all add: health_from_str_def)

section \<open>Kinds of inbounds\<close>

datatype InboundKind =
    VlessXhttpReality | VlessTcpReality | VlessXhttpTls | VlessWsTls | VlessGrpcTls

fun cloudflare_compatible :: "InboundKind \<Rightarrow> bool" where
  "cloudflare_compatible VlessXhttpReality = False"
| "cloudflare_compatible VlessTcpReality = False"
| "cloudflare_compatible VlessXhttpTls = True"
| "cloudflare_compatible VlessWsTls = True"
| "cloudflare_compatible VlessGrpcTls = True"

fun kind_to_string :: "InboundKind \<Rightarrow> string" where
  "kind_to_string VlessXhttpReality = ''VlessXhttpReality''"
| "kind_to_string VlessTcpReality = ''VlessTcpReality''"
| "kind_to_string VlessXhttpTls = ''VlessXhttpTls''"
| "kind_to_string VlessWsTls = ''VlessWsTls''"
| "kind_to_string VlessGrpcTls = ''VlessGrpcTls''"

definition kind_from_str :: "string \<Rightarrow> InboundKind option" where
  "kind_from_str s =
     map_of (map (\<lambda>k. (kind_to_string k, k))
       [VlessXhttpReality, VlessTcpReality, VlessXhttpTls, VlessWsTls, VlessGrpcTls]) s"

interpretation kind_text: text_codec kind_to_string kind_from_str
  by unfold_locales (rename_tac x, case_tac x, simp_all add: kind_from_str_def)

end
