(* ===== verification/Text_Num.thy ===== *)
theory Text_Num
  imports Naming
begin

text \<open>
  Numbers as text, as the standard library prints and parses them: \<open>to_string\<close> and \<open>parse\<close> of
  the unsigned integers and of \<open>bool\<close>, and lists of pieces joined and split at a separator.
\<close>

section \<open>Digits\<close>

fun digits :: "nat \<Rightarrow> nat \<Rightarrow> nat list" where
  "digits b n = (if n < b \<or> b < 2 then [n] else digits b (n div b) @ [n mod b])"

declare digits.simps [simp del]

definition digit_char :: "nat \<Rightarrow> char" where
  "digit_char d = char_of (if d < 10 then 48 + d else 87 + d)"

definition digit_val :: "char \<Rightarrow> nat option" where
  "digit_val c = (let n = of_char c in
     if ascii_digit n then Some (n - 48)
     else if ascii_lowercase n then Some (n - 87)
     else if ascii_uppercase n then Some (n - 55) else None)"

text \<open>\<open>char::to_digit(radix)\<close>\<close>

definition to_digit :: "nat \<Rightarrow> char \<Rightarrow> nat option" where
  "to_digit b c = (case digit_val c of Some d \<Rightarrow> if d < b then Some d else None | None \<Rightarrow> None)"

definition show_base :: "nat \<Rightarrow> nat \<Rightarrow> string" where
  "show_base b n = map digit_char (digits b n)"

abbreviation show_nat :: "nat \<Rightarrow> string" where
  "show_nat \<equiv> show_base 10"

fun read_digits :: "nat \<Rightarrow> nat \<Rightarrow> string \<Rightarrow> nat option" where
  "read_digits b a [] = Some a"
| "read_digits b a (c # cs) =
     (case to_digit b c of None \<Rightarrow> None | Some d \<Rightarrow> read_digits b (a * b + d) cs)"

text \<open>\<open>str::parse\<close> of an unsigned type with the given maximum: an optional plus sign, at least one digit.\<close>

definition parse_unsigned :: "nat \<Rightarrow> string \<Rightarrow> nat option" where
  "parse_unsigned maxv s =
     (let ds = (case s of CHR ''+'' # rest \<Rightarrow> rest | _ \<Rightarrow> s)
      in if ds = [] then None
         else case read_digits 10 0 ds of
                Some n \<Rightarrow> if n \<le> maxv then Some n else None
              | None \<Rightarrow> None)"

definition show_bool :: "bool \<Rightarrow> string" where
  "show_bool b = (if b then ''true'' else ''false'')"

definition parse_bool :: "string \<Rightarrow> bool option" where
  "parse_bool s = (if s = ''true'' then Some True else if s = ''false'' then Some False else None)"

lemma digits_bound: "2 \<le> b \<Longrightarrow> d \<in> set (digits b n) \<Longrightarrow> d < b"
proof (induction b n rule: digits.induct)
  case (1 b n)
  then show ?case
    by (auto simp: digits.simps [of b n] split: if_splits)
qed

lemma digits_not_Nil [simp]: "digits b n \<noteq> []"
  by (subst digits.simps) simp

lemma digits_value: "2 \<le> b \<Longrightarrow> foldl (\<lambda>a d. a * b + d) 0 (digits b n) = n"
proof (induction b n rule: digits.induct)
  case (1 b n)
  then show ?case by (auto simp: digits.simps [of b n])
qed

lemma digit_val_char: "d < 16 \<Longrightarrow> digit_val (digit_char d) = Some d"
  by (auto simp: digit_val_def digit_char_def ascii_defs Let_def)

lemma to_digit_char: "d < b \<Longrightarrow> b \<le> 16 \<Longrightarrow> to_digit b (digit_char d) = Some d"
  by (simp add: to_digit_def digit_val_char)

lemma read_digits_chars:
  "\<forall>d \<in> set ds. d < b \<Longrightarrow> b \<le> 16 \<Longrightarrow>
   read_digits b a (map digit_char ds) = Some (foldl (\<lambda>a d. a * b + d) a ds)"
  by (induction ds arbitrary: a) (auto simp: to_digit_char)

lemma read_show_base: "2 \<le> b \<Longrightarrow> b \<le> 16 \<Longrightarrow> read_digits b 0 (show_base b n) = Some n"
  by (simp add: show_base_def read_digits_chars digits_bound digits_value)

lemma show_base_inj: "2 \<le> b \<Longrightarrow> b \<le> 16 \<Longrightarrow> show_base b m = show_base b n \<Longrightarrow> m = n"
  by (metis option.inject read_show_base)

lemma show_base_not_Nil [simp]: "show_base b n \<noteq> []"
  by (simp add: show_base_def)

lemma digit_char_range:
  "d < 16 \<Longrightarrow> ascii_digit (of_char (digit_char d)) \<or> ascii_lowercase (of_char (digit_char d))"
  by (auto simp: digit_char_def ascii_defs)

lemma show_base_chars:
  "2 \<le> b \<Longrightarrow> b \<le> 16 \<Longrightarrow> c \<in> set (show_base b n) \<Longrightarrow> ascii_digit (of_char c) \<or> ascii_lowercase (of_char c)"
proof -
  assume b: "2 \<le> b" "b \<le> 16" and "c \<in> set (show_base b n)"
  then obtain d where d: "d \<in> set (digits b n)" "c = digit_char d" by (auto simp: show_base_def)
  have "d < 16" using digits_bound [OF b(1) d(1)] b(2) by simp
  then show ?thesis using digit_char_range d(2) by simp
qed

lemma show_base_no_sep:
  "2 \<le> b \<Longrightarrow> b \<le> 16 \<Longrightarrow> \<not> ascii_digit (of_char c) \<Longrightarrow> \<not> ascii_lowercase (of_char c) \<Longrightarrow> c \<notin> set (show_base b n)"
  using show_base_chars by blast

lemma parse_show: "n \<le> maxv \<Longrightarrow> parse_unsigned maxv (show_nat n) = Some n"
proof -
  assume n: "n \<le> maxv"
  have "CHR ''+'' \<notin> set (show_nat n)" by (rule show_base_no_sep) (simp_all add: ascii_defs)
  then have "(case show_nat n of CHR ''+'' # rest \<Rightarrow> rest | _ \<Rightarrow> show_nat n) = show_nat n"
    by (auto split: list.split char.split bool.split)
  then show ?thesis using n by (simp add: parse_unsigned_def read_show_base)
qed

interpretation bool_text: text_codec show_bool parse_bool
  by unfold_locales (rename_tac x, case_tac x, simp_all add: show_bool_def parse_bool_def)

definition show_u16 :: "u16 \<Rightarrow> string" where
  "show_u16 w = show_nat (unat w)"

definition parse_u64 :: "string \<Rightarrow> u64 option" where
  "parse_u64 s = map_option of_nat (parse_unsigned (2 ^ 64 - 1) s)"

definition show_u64 :: "u64 \<Rightarrow> string" where
  "show_u64 w = show_nat (unat w)"

lemma parse_u64_show: "parse_u64 (show_u64 w) = Some w"
proof -
  have "unat w < 2 ^ 64" using unsigned_less [of w] by simp
  then have "unat w \<le> 2 ^ 64 - 1" by simp
  from parse_show [OF this] show ?thesis
    by (simp add: parse_u64_def show_u64_def)
qed

interpretation u64_text: text_codec show_u64 parse_u64
  by unfold_locales (rule parse_u64_show)

lemma show_u16_inj: "show_u16 a = show_u16 b \<longleftrightarrow> a = b"
proof
  assume "show_u16 a = show_u16 b"
  then have "unat a = unat b" unfolding show_u16_def by (rule show_base_inj [rotated 2]) simp_all
  then show "a = b" by (rule word_unat_eq_iff [THEN iffD2])
qed simp

section \<open>Pieces of text\<close>

fun split_at :: "char \<Rightarrow> string \<Rightarrow> string list" where
  "split_at sep [] = [[]]"
| "split_at sep (c # cs) =
     (if c = sep then [] # split_at sep cs
      else case split_at sep cs of p # ps \<Rightarrow> (c # p) # ps | [] \<Rightarrow> [[c]])"

lemma split_at_not_Nil [simp]: "split_at sep s \<noteq> []"
  by (cases s) (auto split: list.split)

lemma split_at_plain: "sep \<notin> set p \<Longrightarrow> split_at sep p = [p]"
  by (induction p) auto

lemma split_at_sep: "sep \<notin> set p \<Longrightarrow> split_at sep (p @ sep # s) = p # split_at sep s"
  by (induction p) auto

lemma split_at_join:
  "ps \<noteq> [] \<Longrightarrow> \<forall>p \<in> set ps. sep \<notin> set p \<Longrightarrow> split_at sep (join [sep] ps) = ps"
proof (induction ps rule: induct_list012)
  case (3 x y zs)
  then show ?case by (simp add: split_at_sep)
qed (auto simp: split_at_plain)

lemma set_join_subset: "c \<in> set (join sep ps) \<Longrightarrow> c \<in> set sep \<or> (\<exists>p \<in> set ps. c \<in> set p)"
  by (induction sep ps rule: join.induct) auto

lemma length_split_at: "length (split_at sep s) = Suc (count_list s sep)"
  by (induction s) (auto split: list.split)

end
