(* ===== verification/Net_Addr.thy ===== *)
theory Net_Addr
  imports Text_Num
begin

text \<open>
  Addresses (\<open>std::net\<close>) and the check \<open>is_global\<close> of \<^verbatim>\<open>src/cloud.rs\<close>. An address is its octets
  or its 16-bit segments. The octet tests are proved equivalent to a table of address blocks.
\<close>

unbundle bit_operations_syntax

datatype IpAddr = V4 u8 u8 u8 u8 | V6 u16 u16 u16 u16 u16 u16 u16 u16

section \<open>Classification used from the standard library\<close>

fun is_private :: "u8 \<times> u8 \<times> u8 \<times> u8 \<Rightarrow> bool" where
  "is_private (a, b, c, d) \<longleftrightarrow> a = 10 \<or> a = 172 \<and> 16 \<le> b \<and> b \<le> 31 \<or> a = 192 \<and> b = 168"

fun is_loopback4 :: "u8 \<times> u8 \<times> u8 \<times> u8 \<Rightarrow> bool" where
  "is_loopback4 (a, b, c, d) \<longleftrightarrow> a = 127"

fun is_link_local4 :: "u8 \<times> u8 \<times> u8 \<times> u8 \<Rightarrow> bool" where
  "is_link_local4 (a, b, c, d) \<longleftrightarrow> a = 169 \<and> b = 254"

fun is_multicast4 :: "u8 \<times> u8 \<times> u8 \<times> u8 \<Rightarrow> bool" where
  "is_multicast4 (a, b, c, d) \<longleftrightarrow> 224 \<le> a \<and> a \<le> 239"

fun is_unspecified4 :: "u8 \<times> u8 \<times> u8 \<times> u8 \<Rightarrow> bool" where
  "is_unspecified4 (a, b, c, d) \<longleftrightarrow> a = 0 \<and> b = 0 \<and> c = 0 \<and> d = 0"

fun is_broadcast4 :: "u8 \<times> u8 \<times> u8 \<times> u8 \<Rightarrow> bool" where
  "is_broadcast4 (a, b, c, d) \<longleftrightarrow> a = 255 \<and> b = 255 \<and> c = 255 \<and> d = 255"

definition is_unspecified6 :: "u16 list \<Rightarrow> bool" where
  "is_unspecified6 s \<longleftrightarrow> s = [0, 0, 0, 0, 0, 0, 0, 0]"

definition is_loopback6 :: "u16 list \<Rightarrow> bool" where
  "is_loopback6 s \<longleftrightarrow> s = [0, 0, 0, 0, 0, 0, 0, 1]"

definition is_unicast_link_local :: "u16 list \<Rightarrow> bool" where
  "is_unicast_link_local s \<longleftrightarrow> s ! 0 AND 0xffc0 = 0xfe80"

definition is_multicast6 :: "u16 list \<Rightarrow> bool" where
  "is_multicast6 s \<longleftrightarrow> s ! 0 AND 0xff00 = 0xff00"

definition is_unique_local :: "u16 list \<Rightarrow> bool" where
  "is_unique_local s \<longleftrightarrow> s ! 0 AND 0xfe00 = 0xfc00"

section \<open>The check of the configuration\<close>

fun is_global_v4 :: "u8 \<times> u8 \<times> u8 \<times> u8 \<Rightarrow> bool" where
  "is_global_v4 (a, b, c, d) =
     (let ip = (a, b, c, d) in
      if is_private ip \<or> is_loopback4 ip \<or> is_link_local4 ip \<or> is_multicast4 ip
         \<or> is_unspecified4 ip \<or> is_broadcast4 ip then False
      else if a = 100 \<and> 64 \<le> b \<and> b \<le> 127 then False
      else if (a, b) = (192, 0) \<or> (a, b) = (198, 51) \<or> (a, b) = (203, 0) then False
      else if a = 198 \<and> 18 \<le> b \<and> b \<le> 19 then False
      else if 240 \<le> a then False
      else True)"

definition is_global_v6 :: "u16 list \<Rightarrow> bool" where
  "is_global_v6 seg =
     (if is_unspecified6 seg \<or> is_loopback6 seg \<or> is_unicast_link_local seg
         \<or> is_multicast6 seg \<or> is_unique_local seg then False
      else if seg ! 0 = 0x2001 \<and>
              (seg ! 1 = 0x0002 \<or> 0x0010 \<le> seg ! 1 \<and> seg ! 1 \<le> 0x001f
               \<or> seg ! 1 = 0x0000 \<and> seg ! 2 = 0x0000) then False
      else if seg ! 0 = 0x2001 \<and> seg ! 1 = 0x0db8
              \<or> seg ! 0 = 0x3fff \<and> seg ! 1 AND 0xf000 = 0 then False
      else seg ! 0 AND 0xe000 = 0x2000)"

fun is_global :: "IpAddr \<Rightarrow> bool" where
  "is_global (V4 a b c d) = is_global_v4 (a, b, c, d)"
| "is_global (V6 a b c d e f g h) = is_global_v6 [a, b, c, d, e, f, g, h]"

section \<open>Blocks of addresses\<close>

text \<open>
  A block is a base address and a prefix length; an address lies in it when the leading bits
  agree, that is when the quotients by the size of the block do.
\<close>

fun v4_num :: "nat \<times> nat \<times> nat \<times> nat \<Rightarrow> nat" where
  "v4_num (a, b, c, d) = ((a * 256 + b) * 256 + c) * 256 + d"

fun v4_unat :: "u8 \<times> u8 \<times> u8 \<times> u8 \<Rightarrow> nat \<times> nat \<times> nat \<times> nat" where
  "v4_unat (a, b, c, d) = (unat a, unat b, unat c, unat d)"

definition in_block4 :: "nat \<times> nat \<times> nat \<times> nat \<Rightarrow> (nat \<times> nat \<times> nat \<times> nat) \<times> nat \<Rightarrow> bool" where
  "in_block4 ip blk \<longleftrightarrow>
     v4_num ip div 2 ^ (32 - snd blk) = v4_num (fst blk) div 2 ^ (32 - snd blk)"

text \<open>What the check refuses, as blocks.\<close>

definition refused4 :: "((nat \<times> nat \<times> nat \<times> nat) \<times> nat) list" where
  "refused4 =
     [((10, 0, 0, 0), 8), ((172, 16, 0, 0), 12), ((192, 168, 0, 0), 16), ((127, 0, 0, 0), 8),
      ((169, 254, 0, 0), 16), ((224, 0, 0, 0), 4), ((0, 0, 0, 0), 32), ((255, 255, 255, 255), 32),
      ((100, 64, 0, 0), 10), ((192, 0, 0, 0), 16), ((198, 51, 0, 0), 16), ((203, 0, 0, 0), 16),
      ((198, 18, 0, 0), 15), ((240, 0, 0, 0), 4)]"

lemma v4_num_div:
  assumes "c < 256" "d < 256" "k \<le> 16"
  shows "v4_num (a, b, c, d) div 2 ^ (32 - k) = (a * 256 + b) div 2 ^ (16 - k)"
proof -
  have "v4_num (a, b, c, d) = (a * 256 + b) * 65536 + (c * 256 + d)" by simp
  then have high: "v4_num (a, b, c, d) div 65536 = a * 256 + b" using assms by simp
  have "32 - k = 16 + (16 - k)" using assms(3) by simp
  then have "(2::nat) ^ (32 - k) = 65536 * 2 ^ (16 - k)" by (simp only: power_add) simp
  then show ?thesis using high by (simp only: div_mult2_eq)
qed

lemma in_block4_high:
  assumes "c < 256" "d < 256" "k \<le> 16"
  shows "in_block4 (a, b, c, d) ((a', b', 0, 0), k) \<longleftrightarrow>
           (a * 256 + b) div 2 ^ (16 - k) = (a' * 256 + b') div 2 ^ (16 - k)"
  using v4_num_div [OF assms] v4_num_div [of 0 0 k a' b'] assms
  by (simp only: in_block4_def fst_conv snd_conv)

text \<open>Two-digit numbers in base 256, compared with a constant.\<close>

lemma base256_eq: "b < 256 \<Longrightarrow> a * 256 + b = n \<longleftrightarrow> a = n div 256 \<and> b = n mod (256::nat)"
  by auto

lemma div_eq_interval: "0 < k \<Longrightarrow> (x::nat) div k = q \<longleftrightarrow> q * k \<le> x \<and> x < q * k + k"
  by (metis add.commute div_nat_eqI dividend_less_times_div mult.commute mult_Suc times_div_less_eq_dividend)

lemma base256_le:
  assumes "b < 256"
  shows "n \<le> a * 256 + b \<longleftrightarrow> n div 256 < a \<or> n div 256 = a \<and> n mod 256 \<le> (b::nat)"
proof -
  obtain x y where n: "n = x * 256 + y" and y: "y < 256" and xy: "n div 256 = x" "n mod 256 = y"
    by (metis div_mult_mod_eq mod_less_divisor zero_less_numeral)
  show ?thesis
    using assms y unfolding xy unfolding n by (cases x a rule: linorder_cases) simp_all
qed

lemma base256_less: "b < 256 \<Longrightarrow> a * 256 + b < n \<longleftrightarrow> a < n div 256 \<or> a = n div 256 \<and> b < n mod (256::nat)"
  using base256_le [of b n a] by (auto simp flip: not_le)

lemma in_block4_single:
  assumes "b < 256" "c < 256" "d < 256" "b' < 256" "c' < 256" "d' < 256"
  shows "in_block4 (a, b, c, d) ((a', b', c', d'), 32) \<longleftrightarrow> a = a' \<and> b = b' \<and> c = c' \<and> d = d'"
proof -
  have "v4_num (a, b, c, d) = v4_num (a', b', c', d') \<longleftrightarrow>
          (a * 256 + b) * 256 + c = (a' * 256 + b') * 256 + c' \<and> d = d'"
    using base256_eq [OF assms(3), of "(a * 256 + b) * 256 + c" "v4_num (a', b', c', d')"]
      base256_eq [OF assms(6), of "(a' * 256 + b') * 256 + c'" "v4_num (a', b', c', d')"] by auto
  also have "\<dots> \<longleftrightarrow> a * 256 + b = a' * 256 + b' \<and> c = c' \<and> d = d'"
    using base256_eq [OF assms(2), of "a * 256 + b" "(a' * 256 + b') * 256 + c'"]
      base256_eq [OF assms(5), of "a' * 256 + b'" "(a' * 256 + b') * 256 + c'"] by auto
  also have "\<dots> \<longleftrightarrow> a = a' \<and> b = b' \<and> c = c' \<and> d = d'"
    using base256_eq [OF assms(1), of a "a' * 256 + b'"]
      base256_eq [OF assms(4), of a' "a' * 256 + b'"] by auto
  finally show ?thesis by (simp only: in_block4_def) simp
qed

text \<open>The octet tests and the table of blocks decide the same, on numbers below 256.\<close>

definition octets_refused :: "nat \<times> nat \<times> nat \<times> nat \<Rightarrow> bool" where
  "octets_refused ip = (case ip of (a, b, c, d) \<Rightarrow>
     a = 10 \<or> a = 172 \<and> 16 \<le> b \<and> b \<le> 31 \<or> a = 192 \<and> b = 168 \<or> a = 127 \<or> a = 169 \<and> b = 254
     \<or> 224 \<le> a \<and> a \<le> 239 \<or> a = 0 \<and> b = 0 \<and> c = 0 \<and> d = 0
     \<or> a = 255 \<and> b = 255 \<and> c = 255 \<and> d = 255
     \<or> a = 100 \<and> 64 \<le> b \<and> b \<le> 127 \<or> a = 192 \<and> b = 0 \<or> a = 198 \<and> b = 51 \<or> a = 203 \<and> b = 0
     \<or> a = 198 \<and> 18 \<le> b \<and> b \<le> 19 \<or> 240 \<le> a)"

lemmas block_decision = in_block4_high div_eq_interval base256_le base256_less base256_eq

lemma block_octets:
  fixes a b c d :: nat
  assumes "a < 256" "b < 256" "c < 256" "d < 256"
  shows "in_block4 (a, b, c, d) ((10, 0, 0, 0), 8) \<longleftrightarrow> a = 10"
    and "in_block4 (a, b, c, d) ((127, 0, 0, 0), 8) \<longleftrightarrow> a = 127"
    and "in_block4 (a, b, c, d) ((224, 0, 0, 0), 4) \<longleftrightarrow> 224 \<le> a \<and> a \<le> 239"
    and "in_block4 (a, b, c, d) ((240, 0, 0, 0), 4) \<longleftrightarrow> 240 \<le> a"
    and "in_block4 (a, b, c, d) ((172, 16, 0, 0), 12) \<longleftrightarrow> a = 172 \<and> 16 \<le> b \<and> b \<le> 31"
    and "in_block4 (a, b, c, d) ((100, 64, 0, 0), 10) \<longleftrightarrow> a = 100 \<and> 64 \<le> b \<and> b \<le> 127"
    and "in_block4 (a, b, c, d) ((198, 18, 0, 0), 15) \<longleftrightarrow> a = 198 \<and> 18 \<le> b \<and> b \<le> 19"
  using assms by (simp_all add: block_decision) linarith+

lemma block_octets16:
  fixes a b c d :: nat
  assumes "b < 256" "c < 256" "d < 256"
  shows "in_block4 (a, b, c, d) ((192, 168, 0, 0), 16) \<longleftrightarrow> a = 192 \<and> b = 168"
    and "in_block4 (a, b, c, d) ((169, 254, 0, 0), 16) \<longleftrightarrow> a = 169 \<and> b = 254"
    and "in_block4 (a, b, c, d) ((192, 0, 0, 0), 16) \<longleftrightarrow> a = 192 \<and> b = 0"
    and "in_block4 (a, b, c, d) ((198, 51, 0, 0), 16) \<longleftrightarrow> a = 198 \<and> b = 51"
    and "in_block4 (a, b, c, d) ((203, 0, 0, 0), 16) \<longleftrightarrow> a = 203 \<and> b = 0"
  using assms by (simp_all add: block_decision)

lemma octets_refused_blocks:
  assumes "a < 256" "b < 256" "c < 256" "d < 256"
  shows "octets_refused (a, b, c, d) \<longleftrightarrow> list_ex (in_block4 (a, b, c, d)) refused4"
  using assms
  by (simp add: refused4_def octets_refused_def block_octets block_octets16 in_block4_single)

lemma is_global_v4_octets: "is_global_v4 ip \<longleftrightarrow> \<not> octets_refused (v4_unat ip)"
  by (cases ip) (auto simp: octets_refused_def word_le_nat_alt word_unat_eq_iff Let_def)

text \<open>
  The octet tests of \<open>is_global_v4\<close> accept exactly the addresses outside the listed blocks:
  the private, loopback, link-local, multicast, reserved, carrier-grade NAT and benchmarking
  ranges, the all-zero and the broadcast address, and the three /16 networks around the
  documentation ranges.
\<close>

lemma is_global_v4_blocks: "is_global_v4 ip \<longleftrightarrow> \<not> list_ex (in_block4 (v4_unat ip)) refused4"
proof (cases ip)
  case (fields a b c d)
  have "unat x < 256" for x :: u8 using unsigned_less [of x] by simp
  then show ?thesis
    using octets_refused_blocks [of "unat a" "unat b" "unat c" "unat d"]
    by (simp only: fields is_global_v4_octets v4_unat.simps)
qed

text \<open>
  The comment of the source names the documentation ranges as /24 networks, but the test
  compares two octets only: a public address next to such a range is refused as well.
\<close>

lemma is_global_v4_documentation_wide:
  "is_global_v4 (203, 0, 113, d) = False \<and> is_global_v4 (203, 0, 1, d) = False
   \<and> \<not> in_block4 (v4_unat (203, 0, 1, d)) ((203, 0, 113, 0), 24)"
proof -
  have "unat d < 256" using unsigned_less [of d] by simp
  then show ?thesis by (simp add: in_block4_def Let_def)
qed

section \<open>Blocks of the second kind of address\<close>

text \<open>A test of the leading bits of a segment is a comparison of quotients.\<close>

lemma high_bits_iff:
  fixes s c :: u16
  assumes "k \<le> 16"
  shows "s AND NOT (mask k) = push_bit k c \<longleftrightarrow> drop_bit k s = take_bit (16 - k) c"
proof
  assume h: "s AND NOT (mask k) = push_bit k c"
  show "drop_bit k s = take_bit (16 - k) c"
  proof (rule bit_word_eqI)
    fix n :: nat
    have "bit (s AND NOT (mask k)) (k + n) = bit (push_bit k c) (k + n)" by (simp only: h)
    then show "bit (drop_bit k s) n = bit (take_bit (16 - k) c) n"
      using assms bit_imp_le_length [of s "k + n"] by (auto simp: bit_simps)
  qed
next
  assume h: "drop_bit k s = take_bit (16 - k) c"
  show "s AND NOT (mask k) = push_bit k c"
  proof (rule bit_word_eqI)
    fix n :: nat assume n: "n < LENGTH(16)"
    have "bit (drop_bit k s) (n - k) = bit (take_bit (16 - k) c) (n - k)" by (simp only: h)
    then show "bit (s AND NOT (mask k)) n = bit (push_bit k c) n"
      using assms n by (auto simp: bit_simps)
  qed
qed

lemma segment_mask:
  fixes s m v c :: u16
  assumes "m = NOT (mask k)" "v = push_bit k c" "take_bit (16 - k) c = c" "k \<le> 16"
  shows "s AND m = v \<longleftrightarrow> unat s div 2 ^ k = unat c"
proof -
  have "unat (drop_bit k s) = unat s div 2 ^ k"
    by (simp only: unat_drop_bit_eq) (simp only: drop_bit_eq_div)
  moreover have "s AND m = v \<longleftrightarrow> drop_bit k s = c"
    using high_bits_iff [OF assms(4), of s c] by (simp only: assms(1-3))
  ultimately show ?thesis by (simp only: word_unat_eq_iff)
qed

lemma segment_masks:
  fixes s :: u16
  shows "s AND 0xe000 = 0x2000 \<longleftrightarrow> unat s div 8192 = 1"
    and "s AND 0xffc0 = 0xfe80 \<longleftrightarrow> unat s div 64 = 1018"
    and "s AND 0xff00 = 0xff00 \<longleftrightarrow> unat s div 256 = 255"
    and "s AND 0xfe00 = 0xfc00 \<longleftrightarrow> unat s div 512 = 126"
    and "s AND 0xf000 = 0 \<longleftrightarrow> unat s div 4096 = 0"
proof -
  have "s AND 0xe000 = 0x2000 \<longleftrightarrow> unat s div 2 ^ 13 = unat (1 :: u16)"
    by (rule segment_mask) (simp_all add: mask_numeral)
  then show "s AND 0xe000 = 0x2000 \<longleftrightarrow> unat s div 8192 = 1" by simp
  have "s AND 0xffc0 = 0xfe80 \<longleftrightarrow> unat s div 2 ^ 6 = unat (1018 :: u16)"
    by (rule segment_mask) (simp_all add: mask_numeral)
  then show "s AND 0xffc0 = 0xfe80 \<longleftrightarrow> unat s div 64 = 1018" by simp
  have "s AND 0xff00 = 0xff00 \<longleftrightarrow> unat s div 2 ^ 8 = unat (255 :: u16)"
    by (rule segment_mask) (simp_all add: mask_numeral)
  then show "s AND 0xff00 = 0xff00 \<longleftrightarrow> unat s div 256 = 255" by simp
  have "s AND 0xfe00 = 0xfc00 \<longleftrightarrow> unat s div 2 ^ 9 = unat (126 :: u16)"
    by (rule segment_mask) (simp_all add: mask_numeral)
  then show "s AND 0xfe00 = 0xfc00 \<longleftrightarrow> unat s div 512 = 126" by simp
  have "s AND 0xf000 = 0 \<longleftrightarrow> unat s div 2 ^ 12 = unat (0 :: u16)"
    by (rule segment_mask) (simp_all add: mask_numeral)
  then show "s AND 0xf000 = 0 \<longleftrightarrow> unat s div 4096 = 0" by simp
qed

text \<open>Only the first three segments decide: blocks are given by their leading 48 bits.\<close>

definition high48 :: "nat list \<Rightarrow> nat" where
  "high48 s = (s ! 0 * 65536 + s ! 1) * 65536 + s ! 2"

definition in_block6 :: "nat list \<Rightarrow> nat list \<times> nat \<Rightarrow> bool" where
  "in_block6 s blk \<longleftrightarrow> high48 s div 2 ^ (48 - snd blk) = high48 (fst blk) div 2 ^ (48 - snd blk)"

definition refused6 :: "(nat list \<times> nat) list" where
  "refused6 =
     [([0x2001, 2, 0], 32), ([0x2001, 0x10, 0], 28), ([0x2001, 0, 0], 48),
      ([0x2001, 0xdb8, 0], 32), ([0x3fff, 0, 0], 20)]"

lemma base65536_le:
  assumes "b < 65536"
  shows "n \<le> a * 65536 + b \<longleftrightarrow> n div 65536 < a \<or> n div 65536 = a \<and> n mod 65536 \<le> (b::nat)"
proof -
  obtain x y where n: "n = x * 65536 + y" and y: "y < 65536" and xy: "n div 65536 = x" "n mod 65536 = y"
    by (metis div_mult_mod_eq mod_less_divisor zero_less_numeral)
  show ?thesis
    using assms y unfolding xy unfolding n by (cases x a rule: linorder_cases) simp_all
qed

lemma base65536_less:
  "b < 65536 \<Longrightarrow> a * 65536 + b < n \<longleftrightarrow> a < n div 65536 \<or> a = n div 65536 \<and> b < n mod (65536::nat)"
  using base65536_le [of b n a] by (auto simp flip: not_le)

lemma high48_div:
  assumes "c < 65536" "k \<le> 32"
  shows "((a * 65536 + b) * 65536 + c) div 2 ^ (48 - k) = (a * 65536 + b) div (2::nat) ^ (32 - k)"
proof -
  have "48 - k = 16 + (32 - k)" using assms(2) by simp
  then have "(2::nat) ^ (48 - k) = 65536 * 2 ^ (32 - k)" by (simp only: power_add) simp
  moreover have "((a * 65536 + b) * 65536 + c) div 65536 = a * 65536 + b" using assms(1) by simp
  ultimately show ?thesis by (simp only: div_mult2_eq)
qed

lemma in_block6_high:
  assumes "c < 65536" "k \<le> 32"
  shows "in_block6 (a # b # c # r) ([a', b', 0], k) \<longleftrightarrow>
           (a * 65536 + b) div 2 ^ (32 - k) = (a' * 65536 + b') div 2 ^ (32 - k)"
  using high48_div [OF assms] high48_div [of 0 k a' b'] assms(2)
  by (simp only: in_block6_def high48_def fst_conv snd_conv nth_Cons_0 nth_Cons_Suc
      One_nat_def numeral_2_eq_2)

lemma base65536_eq: "b < 65536 \<Longrightarrow> a * 65536 + b = n \<longleftrightarrow> a = n div 65536 \<and> b = n mod (65536::nat)"
  by auto

lemma base65536_pair:
  "b < 65536 \<Longrightarrow> b' < 65536 \<Longrightarrow> a * 65536 + b = a' * 65536 + b' \<longleftrightarrow> a = a' \<and> b = (b'::nat)"
  by (simp add: base65536_eq)

lemma in_block6_full:
  assumes "b < 65536" "c < 65536" "b' < 65536" "c' < 65536"
  shows "in_block6 (a # b # c # r) ([a', b', c'], 48) \<longleftrightarrow> a = a' \<and> b = b' \<and> c = c'"
  using assms by (simp only: in_block6_def high48_def) (simp add: base65536_pair del: distrib_right_numeral)

lemmas block6_decision = in_block6_high div_eq_interval base65536_le base65536_less base65536_eq

lemma block6_segments:
  fixes a b c :: nat
  assumes "a < 65536" "b < 65536" "c < 65536"
  shows "in_block6 (a # b # c # r) ([0x2001, 2, 0], 32) \<longleftrightarrow> a = 0x2001 \<and> b = 2"
    and "in_block6 (a # b # c # r) ([0x2001, 0x10, 0], 28) \<longleftrightarrow> a = 0x2001 \<and> 0x10 \<le> b \<and> b \<le> 0x1f"
    and "in_block6 (a # b # c # r) ([0x2001, 0xdb8, 0], 32) \<longleftrightarrow> a = 0x2001 \<and> b = 0xdb8"
    and "in_block6 (a # b # c # r) ([0x3fff, 0, 0], 20) \<longleftrightarrow> a = 0x3fff \<and> b div 4096 = 0"
    and "in_block6 (a # b # c # r) ([0x2000, 0, 0], 3) \<longleftrightarrow> a div 8192 = 1"
  using assms by (simp_all add: block6_decision) linarith+

lemma u16_bound: "unat (x :: u16) < 65536"
  using unsigned_less [of x] by simp

lemma unicast_excludes:
  assumes "unat (a :: u16) div 8192 = 1"
  shows "a \<noteq> 0" "unat a div 64 \<noteq> 1018" "unat a div 256 \<noteq> 255" "unat a div 512 \<noteq> 126"
  using assms by (auto simp: div_eq_interval)

lemma is_global_v6_tests:
  "is_global_v6 (a # b # c # r) \<longleftrightarrow> unat a div 8192 = 1
     \<and> \<not> (unat a = 0x2001 \<and> (unat b = 2 \<or> 0x10 \<le> unat b \<and> unat b \<le> 0x1f \<or> unat b = 0 \<and> unat c = 0))
     \<and> \<not> (unat a = 0x2001 \<and> unat b = 0xdb8 \<or> unat a = 0x3fff \<and> unat b div 4096 = 0)"
  (is "_ \<longleftrightarrow> ?u \<and> \<not> ?p \<and> \<not> ?q")
proof -
  let ?s = "a # b # c # r"
  have special: "?u \<Longrightarrow> \<not> (is_unspecified6 ?s \<or> is_loopback6 ?s \<or> is_unicast_link_local ?s
      \<or> is_multicast6 ?s \<or> is_unique_local ?s)"
    using unicast_excludes [of a]
    by (simp add: is_unspecified6_def is_loopback6_def is_unicast_link_local_def is_multicast6_def
        is_unique_local_def segment_masks)
  have p: "a = 0x2001 \<and> (b = 2 \<or> 0x10 \<le> b \<and> b \<le> 0x1f \<or> b = 0 \<and> c = 0) \<longleftrightarrow> ?p"
    by (simp add: word_unat_eq_iff word_le_nat_alt)
  have q: "a = 0x2001 \<and> b = 0xdb8 \<or> a = 0x3fff \<and> b AND 0xf000 = 0 \<longleftrightarrow> ?q"
    by (simp add: word_unat_eq_iff [of _ "numeral _"] segment_masks)
  have "is_global_v6 ?s \<longleftrightarrow>
      \<not> (is_unspecified6 ?s \<or> is_loopback6 ?s \<or> is_unicast_link_local ?s \<or> is_multicast6 ?s
         \<or> is_unique_local ?s)
      \<and> \<not> (a = 0x2001 \<and> (b = 2 \<or> 0x10 \<le> b \<and> b \<le> 0x1f \<or> b = 0 \<and> c = 0))
      \<and> \<not> (a = 0x2001 \<and> b = 0xdb8 \<or> a = 0x3fff \<and> b AND 0xf000 = 0) \<and> a AND 0xe000 = 0x2000"
    by (simp add: is_global_v6_def)
  then show ?thesis
    unfolding p q segment_masks(1) using special by blast
qed

text \<open>
  The segment tests of \<open>is_global_v6\<close> accept exactly the global unicast block 2000::/3 without
  the five refused blocks; the tests for unspecified, loopback, link-local, multicast and unique
  local addresses refuse nothing more.
\<close>

lemma is_global_v6_blocks:
  "is_global (V6 a b c d e f g h) \<longleftrightarrow>
     (let s = map unat [a, b, c, d, e, f, g, h]
      in in_block6 s ([0x2000, 0, 0], 3) \<and> \<not> list_ex (in_block6 s) refused6)"
  by (simp add: is_global_v6_tests refused6_def block6_segments in_block6_full u16_bound) auto

text \<open>
  The comment of the source refuses Teredo, 2001::/32, but the test also asks the third segment
  to be zero: an ordinary Teredo address is accepted as a server address.
\<close>

lemma is_global_v6_accepts_teredo:
  "is_global (V6 0x2001 0 0x4136 0xe378 0x8000 0x63bf 0x3fff 0xfdd2)
   \<and> in_block6 (map unat [0x2001 :: u16, 0, 0x4136]) ([0x2001, 0, 0], 32)"
  by (simp add: is_global_v6_tests in_block6_def high48_def)

section \<open>Text of an address\<close>

text \<open>\<open>Display\<close> of the two kinds of address.\<close>

definition show_v4 :: "u8 \<times> u8 \<times> u8 \<times> u8 \<Rightarrow> string" where
  "show_v4 ip = (case ip of (a, b, c, d) \<Rightarrow>
     join ''.'' (map (\<lambda>w. show_nat (unat w)) [a, b, c, d]))"

text \<open>Start and length of the first longest run of zero segments.\<close>

fun zero_run :: "u16 list \<Rightarrow> nat" where
  "zero_run [] = 0"
| "zero_run (w # ws) = (if w = 0 then Suc (zero_run ws) else 0)"

definition longest_zeros :: "u16 list \<Rightarrow> nat \<times> nat" where
  "longest_zeros ws =
     foldl (\<lambda>(st, ln) i. let r = zero_run (drop i ws) in if ln < r then (i, r) else (st, ln))
       (0, 0) [0..<length ws]"

definition show_segments :: "u16 list \<Rightarrow> string" where
  "show_segments ws = join '':'' (map (\<lambda>w. show_base 16 (unat w)) ws)"

definition show_v6 :: "u16 list \<Rightarrow> string" where
  "show_v6 ws =
     (if take 6 ws = [0, 0, 0, 0, 0, 0xffff]
      then ''::ffff:'' @ show_v4 (ucast (drop_bit 8 (ws ! 6)), ucast (ws ! 6), ucast (drop_bit 8 (ws ! 7)), ucast (ws ! 7))
      else let (st, ln) = longest_zeros ws
           in if 1 < ln then show_segments (take st ws) @ ''::'' @ show_segments (drop (st + ln) ws)
              else show_segments ws)"

fun show_ip :: "IpAddr \<Rightarrow> string" where
  "show_ip (V4 a b c d) = show_v4 (a, b, c, d)"
| "show_ip (V6 a b c d e f g h) = show_v6 [a, b, c, d, e, f, g, h]"

end
