(* ===== verification/Ansible_Actions.thy ===== *)
theory Ansible_Actions
  imports Text_Num
begin

text \<open>
  The catalogue of remote actions of \<^verbatim>\<open>src/ansible.rs\<close>: the enumeration in its order of
  priority, the playbook file of each action, sorting and deduplication of a batch, the batch's
  task list and identifier, and the check of the catalogue against the extracted files.
\<close>

section \<open>The actions\<close>

datatype AnsibleAction =
    PortsCheck | DnsReset | Basics | CloudflareDel | Cloudflare | Acme | NginxSetup | DoH
  | FirewallBootstrap | OutblockedUpdate | BaseSetup | FullSetup | NginxRestart
  | NginxRestoreConfig | XrayRestart | XrayRestoreDB | Bootstrap | XuiAuth | DelInbound
  | AddInbound | PanelSettings | Fail2ban | Firewall | SSH | DestroyServer

definition all_actions :: "AnsibleAction list" where
  "all_actions =
     [PortsCheck, DnsReset, Basics, CloudflareDel, Cloudflare, Acme, NginxSetup, DoH,
      FirewallBootstrap, OutblockedUpdate, BaseSetup, FullSetup, NginxRestart,
      NginxRestoreConfig, XrayRestart, XrayRestoreDB, Bootstrap, XuiAuth, DelInbound,
      AddInbound, PanelSettings, Fail2ban, Firewall, SSH, DestroyServer]"

text \<open>The discriminant: \<open>*a as usize\<close>.\<close>

fun action_id :: "AnsibleAction \<Rightarrow> nat" where
  "action_id PortsCheck = 0" | "action_id DnsReset = 1" | "action_id Basics = 2"
| "action_id CloudflareDel = 3" | "action_id Cloudflare = 4" | "action_id Acme = 5"
| "action_id NginxSetup = 6" | "action_id DoH = 7" | "action_id FirewallBootstrap = 8"
| "action_id OutblockedUpdate = 9" | "action_id BaseSetup = 10" | "action_id FullSetup = 11"
| "action_id NginxRestart = 12" | "action_id NginxRestoreConfig = 13"
| "action_id XrayRestart = 14" | "action_id XrayRestoreDB = 15" | "action_id Bootstrap = 16"
| "action_id XuiAuth = 17" | "action_id DelInbound = 18" | "action_id AddInbound = 19"
| "action_id PanelSettings = 20" | "action_id Fail2ban = 21" | "action_id Firewall = 22"
| "action_id SSH = 23" | "action_id DestroyServer = 24"

lemma all_actions_nth: "all_actions ! action_id a = a"
  by (cases a) (simp_all add: all_actions_def)

lemma action_id_inj [simp]: "action_id a = action_id b \<longleftrightarrow> a = b"
  by (metis all_actions_nth)

lemma all_actions_complete: "a \<in> set all_actions"
  by (cases a) (simp_all add: all_actions_def)

instantiation AnsibleAction :: linorder
begin

definition less_eq_AnsibleAction :: "AnsibleAction \<Rightarrow> AnsibleAction \<Rightarrow> bool" where
  "less_eq_AnsibleAction a b \<longleftrightarrow> action_id a \<le> action_id b"

definition less_AnsibleAction :: "AnsibleAction \<Rightarrow> AnsibleAction \<Rightarrow> bool" where
  "less_AnsibleAction a b \<longleftrightarrow> action_id a < action_id b"

instance
  by standard (auto simp: less_eq_AnsibleAction_def less_AnsibleAction_def dest: antisym)

end

lemmas action_order = less_eq_AnsibleAction_def less_AnsibleAction_def

lemma all_actions_sorted: "sorted_wrt (<) all_actions"
  by (simp add: all_actions_def action_order)

section \<open>Playbook files\<close>

fun taskname :: "AnsibleAction \<Rightarrow> string" where
  "taskname PortsCheck = ''check_ports.yaml''"
| "taskname DnsReset = ''dns_reset.yaml''"
| "taskname Basics = ''basics_install.yaml''"
| "taskname CloudflareDel = ''cloudflare_del.yaml''"
| "taskname Cloudflare = ''cloudflare_setup.yaml''"
| "taskname Acme = ''acme_get_cert.yaml''"
| "taskname SSH = ''ssh_setup.yaml''"
| "taskname NginxSetup = ''nginx_setup.yaml''"
| "taskname DoH = ''doh_setup.yaml''"
| "taskname Bootstrap = ''bootstrap.yaml''"
| "taskname Firewall = ''firewall.yaml''"
| "taskname FirewallBootstrap = ''firewall_bootstrap.yaml''"
| "taskname OutblockedUpdate = ''outblocked_update.yaml''"
| "taskname Fail2ban = ''fail2ban_setup.yaml''"
| "taskname BaseSetup = ''base_setup.yaml''"
| "taskname FullSetup = ''full_setup.yaml''"
| "taskname XuiAuth = ''xui_auth.yaml''"
| "taskname AddInbound = ''xui_add_inbound.yaml''"
| "taskname DelInbound = ''xui_del_inbound.yaml''"
| "taskname PanelSettings = ''xui_setup_panel.yaml''"
| "taskname NginxRestart = ''nginx_restart.yaml''"
| "taskname NginxRestoreConfig = ''nginx_restore_config.yaml''"
| "taskname XrayRestart = ''xui_restart.yaml''"
| "taskname XrayRestoreDB = ''xui_restore_db.yaml''"
| "taskname DestroyServer = ''destroy_server.yaml''"

definition all_taskfiles :: "string list" where
  "all_taskfiles = map taskname all_actions"

section \<open>Batches\<close>

definition sort_unique :: "AnsibleAction list \<Rightarrow> AnsibleAction list" where
  "sort_unique actions = remdups_adj (sort actions)"

record AnsibleTasks =
  at_tasks :: "string list"
  at_id :: string

definition task_gen :: "AnsibleAction list \<Rightarrow> AnsibleTasks" where
  "task_gen actions =
     (let pairs = map (\<lambda>a. (taskname a, show_nat (action_id a))) actions
      in \<lparr>at_tasks = map fst pairs, at_id = join ''_'' (map snd pairs)\<rparr>)"

lemma sort_unique_set [simp]: "set (sort_unique xs) = set xs"
  by (simp add: sort_unique_def)

lemma sorted_remdups_adj_distinct: "sorted xs \<Longrightarrow> distinct (remdups_adj (xs :: 'a::linorder list))"
  by (induction xs rule: remdups_adj.induct) (auto simp: antisym)

lemma sort_unique_distinct [simp]: "distinct (sort_unique xs)"
  by (simp add: sort_unique_def sorted_remdups_adj_distinct)

lemma sorted_remdups_adj: "sorted xs \<Longrightarrow> sorted (remdups_adj (xs :: 'a::linorder list))"
  by (induction xs rule: remdups_adj.induct) auto

lemma sort_unique_sorted [simp]: "sorted (sort_unique xs)"
  by (simp add: sort_unique_def sorted_remdups_adj)

lemma sort_unique_strict: "sorted_wrt (\<lambda>a b. action_id a < action_id b) (sort_unique xs)"
proof -
  have order: "(\<lambda>a b. action_id a < action_id b) = (<)"
    by (intro ext) (simp add: less_AnsibleAction_def)
  show ?thesis
    unfolding order by (simp add: strict_sorted_iff)
qed

text \<open>
  Sorting and deduplicating a batch yields each requested action once, in the order of
  priority, and the result depends on the set of requested actions only: neither the order nor
  the number of the requests matters.
\<close>

lemma sort_unique_canonical:
  "sort_unique xs = sorted_list_of_set (set xs)
   \<and> sorted_wrt (\<lambda>a b. action_id a < action_id b) (sort_unique xs)"
  using sorted_distinct_set_unique [of "sort_unique xs" "sorted_list_of_set (set xs)"] sort_unique_strict [of xs]
  by simp

lemma sort_unique_idem: "sort_unique (sort_unique xs) = sort_unique xs"
  using sorted_distinct_set_unique [of "sort_unique (sort_unique xs)" "sort_unique xs"] by simp

text \<open>The change of the SSH port is applied after every other reconfiguration of a server.\<close>

lemma sort_unique_ssh_last:
  assumes "SSH \<in> set xs" "DestroyServer \<notin> set xs"
  shows "last (sort_unique xs) = SSH"
proof -
  let ?ys = "sort_unique xs"
  have ne: "?ys \<noteq> []" using assms(1) by (metis empty_iff empty_set sort_unique_set)
  have "SSH \<in> set ?ys" using assms(1) by simp
  then have "SSH \<le> last ?ys"
    using sort_unique_sorted [of xs] by (metis append_butlast_last_id ne set_ConsD in_set_conv_decomp order_refl
        sorted_append rotate1.simps(2) set_rotate1)
  moreover have "last ?ys \<noteq> DestroyServer" using assms(2) ne by (metis last_in_set sort_unique_set)
  ultimately show ?thesis by (cases "last ?ys") (simp_all add: action_order)
qed

text \<open>
  The identifier of a batch names the batch: two batches with the same identifier are the same
  list of actions, so the inventory, variable and log files of different batches never collide.
\<close>

lemma task_gen_id_inj: "at_id (task_gen xs) = at_id (task_gen ys) \<Longrightarrow> xs = ys"
proof -
  let ?f = "\<lambda>a. show_nat (action_id a)"
  assume "at_id (task_gen xs) = at_id (task_gen ys)"
  then have eq: "join ''_'' (map ?f xs) = join ''_'' (map ?f ys)"
    by (simp add: task_gen_def comp_def)
  have sep: "CHR ''_'' \<notin> set (?f a)" for a
    by (rule show_base_no_sep) (simp_all add: ascii_defs)
  have inj: "a = b" if "?f a = ?f b" for a b
    using show_base_inj [OF _ _ that] by simp
  have ne: "zs = [] \<longleftrightarrow> join ''_'' (map ?f zs) = []" for zs
    by (cases zs rule: remdups_adj.cases) auto
  show "xs = ys"
  proof (cases "xs = [] \<or> ys = []")
    case True
    with eq ne show ?thesis by metis
  next
    case False
    then have "map ?f xs = split_at (CHR ''_'') (join ''_'' (map ?f xs))"
      "map ?f ys = split_at (CHR ''_'') (join ''_'' (map ?f ys))"
      using sep by (auto simp: split_at_join)
    then have "map ?f xs = map ?f ys" using eq by simp
    then show ?thesis by (rule map_injective) (rule injI, rule inj)
  qed
qed

lemma task_gen_id_inj_witness:
  "at_id (task_gen (sort_unique [SSH, Firewall, SSH])) = at_id (task_gen [Firewall, SSH])
   \<and> sort_unique [SSH, Firewall, SSH] = [Firewall, SSH]"
proof
  show ids: "at_id (task_gen (sort_unique [SSH, Firewall, SSH])) = at_id (task_gen [Firewall, SSH])"
    by (simp add: sort_unique_def action_order)
  show "sort_unique [SSH, Firewall, SSH] = [Firewall, SSH]"
    by (rule task_gen_id_inj [OF ids])
qed

section \<open>Checking the catalogue\<close>

datatype catalogue_error = NotUnique | BadPath string | NotReadable string

text \<open>The file system is asked whether a path exists and whether it can be opened.\<close>

definition validate_actions ::
  "(string \<Rightarrow> bool) \<Rightarrow> (string \<Rightarrow> bool) \<Rightarrow> string \<Rightarrow> catalogue_error + unit" where
  "validate_actions exists readable tasks_dir =
     and_then (try_fold (\<lambda>seen f. let path = tasks_dir @ ''/'' @ f in
        and_then (seen_insert NotUnique seen f) (\<lambda>seen'.
        and_then (ensure (f \<noteq> [] \<and> exists path) (BadPath f)) (\<lambda>_.
        and_then (ensure (readable path) (NotReadable f)) (\<lambda>_. Inr seen')))) {} all_taskfiles)
       (\<lambda>_. Inr ())"

lemma taskname_inj [simp]: "taskname a = taskname b \<longleftrightarrow> a = b"
proof -
  have "distinct all_taskfiles" by (simp add: all_taskfiles_def all_actions_def)
  then show ?thesis
    using all_actions_complete by (auto simp: all_taskfiles_def distinct_map inj_on_def)
qed

lemma taskname_not_Nil: "taskname a \<noteq> []"
  by (cases a) simp_all

end
