(* ===== verification/Data_Model.thy ===== *)
theory Data_Model
  imports Net_Addr Ansible_Actions
begin

text \<open>
  The data of \<^verbatim>\<open>src/types.rs\<close>, \<^verbatim>\<open>src/cloudflare.rs\<close>, \<^verbatim>\<open>src/ansible.rs\<close> and
  \<^verbatim>\<open>src/cloud/reconcile.rs\<close>: one record per struct, one datatype per enum.

  Values of third-party types are represented by the text the program reads from them: a
  \<open>url::Host\<close> and a \<open>url::Url\<close> by their serialization, an \<open>isocountry::CountryCode\<close> by its alpha-2 code.
  Cells with interior mutability (\<open>ArcSwapOption\<close>, \<open>AtomicU8\<close>, \<open>OnceLock\<close>) are plain fields: an
  operation that stores into one returns the changed record. A server is compared and hashed by
  its name alone (\<open>impl PartialEq for KetServer\<close>), so a task entry holds the name.
\<close>

type_synonym Host = string
type_synonym Url = string
type_synonym CountryCode = string
type_synonym FilePath = string

section \<open>Constants\<close>

definition SSH_PORT :: u16 where "SSH_PORT = 79"
definition NGINX_PORT :: u16 where "NGINX_PORT = 443"
definition UNBOUND_PORT :: u16 where "UNBOUND_PORT = 444"
definition UI_PORT :: u16 where "UI_PORT = 400"
definition SUB_PORT :: u16 where "SUB_PORT = 401"
definition ANSIBLE_PORT :: u16 where "ANSIBLE_PORT = 22"
definition PROXY_START_PORT :: u16 where "PROXY_START_PORT = 10000"
definition CLOUDFLARE_SPORTS :: "u16 list" where "CLOUDFLARE_SPORTS = [2053, 2083, 2087, 2096, 8443]"
definition SVC_TIMEOUT :: u64 where "SVC_TIMEOUT = 7"
definition MIN_MON_INTERVAL :: u64 where "MIN_MON_INTERVAL = 3 * SVC_TIMEOUT"
definition SVC_MON_INTERVAL :: u64 where "SVC_MON_INTERVAL = 60"
definition FIX_THRESHOLD :: u64 where "FIX_THRESHOLD = 10"
definition ROOT_USER :: string where "ROOT_USER = ''root''"

lemmas port_defs = SSH_PORT_def NGINX_PORT_def UNBOUND_PORT_def UI_PORT_def SUB_PORT_def ANSIBLE_PORT_def

definition reserved_ports :: "u16 list" where
  "reserved_ports = [SSH_PORT, NGINX_PORT, UI_PORT, SUB_PORT, UNBOUND_PORT]"

section \<open>Servers\<close>

record Inbound =
  inb_name :: string
  inb_port :: u16
  inb_kind :: InboundKind
  inb_total :: u16
  inb_traffic :: u32
  inb_expiry :: u16
  inb_comment :: string

record Secrets =
  health_path :: string
  doh_endpoint :: string
  xui_username :: string
  xui_password :: string
  xui_token :: "string option"
  xui_webpath :: string
  xui_subpath :: string
  xui_jsubpath :: string
  mother_subids :: "string \<rightharpoonup> string"

record AnsibleConn =
  ansible_host :: "string option"
  ansible_port :: "u16 option"
  ansible_user :: "string option"
  ansible_connection :: "string option"

record CFListData =
  cl_account_name :: string
  cl_account_id :: string
  cl_ruleset_id :: string
  cl_rule_id :: string
  cl_list_id :: string

record CFState =
  zone_name :: string
  zone_id :: string
  too_deep :: bool
  cloudflare_only :: bool
  list_data :: "CFListData option"

text \<open>The two HTTP clients inside \<open>Xui\<close> are library objects and are left out.\<close>

record Xui =
  xu_url_global :: Url
  xu_username :: string
  xu_password :: string
  xu_token :: string
  xu_cookie_count :: u64

record KetServer =
  srv_name :: string
  srv_ip :: IpAddr
  srv_domain :: Host
  srv_region :: CountryCode
  srv_state :: ServerState
  srv_quota :: u16
  srv_enabled :: bool
  srv_ssh_port :: u16
  srv_dns_subdomain :: string
  srv_ui_subdomain :: string
  srv_sub_subdomain :: string
  srv_cloudflare_proxied :: bool
  srv_inbounds :: "Inbound list"
  srv_outbound_block :: "CountryCode list"
  srv_ansible_conn :: "AnsibleConn option"
  srv_secrets :: Secrets
  srv_cfstate :: "CFState option"
  srv_xui :: "Xui option"

record CloudSettings =
  inbound_set :: "Inbound list"
  auto_fix :: bool
  fix_threshold :: u64
  monitor_interval :: u64

record Cloud =
  servers :: "KetServer list"
  settings :: CloudSettings

abbreviation server_names :: "Cloud \<Rightarrow> string list" where
  "server_names c \<equiv> map srv_name (servers c)"

text \<open>The named server of a cloud, as \<open>servers.iter().find(..)\<close> returns it.\<close>

definition find_server :: "string \<Rightarrow> Cloud \<Rightarrow> KetServer option" where
  "find_server nm c = find (\<lambda>s. srv_name s = nm) (servers c)"

text \<open>A store into a cell of the server with this name.\<close>

definition update_server :: "string \<Rightarrow> (KetServer \<Rightarrow> KetServer) \<Rightarrow> Cloud \<Rightarrow> Cloud" where
  "update_server nm f c = c\<lparr>servers := map (\<lambda>s. if srv_name s = nm then f s else s) (servers c)\<rparr>"

definition super_inbound :: Inbound where
  "super_inbound = \<lparr>inb_name = super_name, inb_port = 0, inb_kind = VlessTcpReality,
     inb_total = 0, inb_traffic = 0, inb_expiry = 0, inb_comment = ''The super inbound''\<rparr>"

section \<open>Services and tasks\<close>

record SvcInfo =
  si_server :: KetServer
  si_port :: u16
  si_kind :: SvcKind
  si_link :: "Url option"

record SvcStatus =
  health :: SvcHealth
  failed_count :: u64
  failed_since :: u64
  fix_try :: u8

record SvcEntry =
  se_info :: SvcInfo
  se_status :: SvcStatus

text \<open>What equality of \<open>SvcInfo\<close> looks at.\<close>

record SvcKey =
  key_server :: string
  key_port :: u16
  key_kind :: SvcKind
  key_link :: "Url option"

definition svc_key :: "SvcInfo \<Rightarrow> SvcKey" where
  "svc_key i = \<lparr>key_server = srv_name (si_server i), key_port = si_port i, key_kind = si_kind i,
     key_link = si_link i\<rparr>"

datatype TaskEntry =
    SshMonitor SvcKey | NginxMonitor SvcKey | XrayMonitor SvcKey
  | SocketListener | SignalWatcher | Aggregator
  | FullSetupTask string | DestroyTask string | XuiDbPruner string | AcmeChecker string
  | GeoipUpdater

definition svc_task :: "SvcInfo \<Rightarrow> TaskEntry" where
  "svc_task i = (case si_kind i of
     Ssh \<Rightarrow> SshMonitor (svc_key i) | Nginx \<Rightarrow> NginxMonitor (svc_key i)
   | Xray _ \<Rightarrow> XrayMonitor (svc_key i))"

fun task_server :: "TaskEntry \<Rightarrow> string option" where
  "task_server (SshMonitor k) = Some (key_server k)"
| "task_server (NginxMonitor k) = Some (key_server k)"
| "task_server (XrayMonitor k) = Some (key_server k)"
| "task_server (FullSetupTask n) = Some n"
| "task_server (DestroyTask n) = Some n"
| "task_server (XuiDbPruner n) = Some n"
| "task_server (AcmeChecker n) = Some n"
| "task_server _ = None"

fun task_service :: "TaskEntry \<Rightarrow> string option" where
  "task_service (SshMonitor k) = Some (svc_nice_display (key_kind k))"
| "task_service (NginxMonitor k) = Some (svc_nice_display (key_kind k))"
| "task_service (XrayMonitor k) = Some (svc_nice_display (key_kind k))"
| "task_service _ = None"

fun task_variant :: "TaskEntry \<Rightarrow> string" where
  "task_variant (SshMonitor _) = ''SshMonitor''"
| "task_variant (NginxMonitor _) = ''NginxMonitor''"
| "task_variant (XrayMonitor _) = ''XrayMonitor''"
| "task_variant SocketListener = ''SocketListener''"
| "task_variant SignalWatcher = ''SignalWatcher''"
| "task_variant Aggregator = ''Aggregator''"
| "task_variant (FullSetupTask _) = ''FullSetup''"
| "task_variant (DestroyTask _) = ''DestroyServer''"
| "task_variant (XuiDbPruner _) = ''XuiDbPruner''"
| "task_variant (AcmeChecker _) = ''AcmeChecker''"
| "task_variant GeoipUpdater = ''GeoipUpdater''"

definition task_nice_display :: "TaskEntry \<Rightarrow> string" where
  "task_nice_display t = (case (task_server t, task_service t) of
     (None, _) \<Rightarrow> task_variant t
   | (Some server, None) \<Rightarrow> task_variant t @ ''('' @ server @ '')''
   | (Some server, Some service) \<Rightarrow> task_variant t @ ''('' @ server @ ''('' @ service @ ''))'')"

section \<open>Reconciliation\<close>

datatype ReconMode = Reload | Remap | Rebase

record RebaseDomain =
  rd_zone :: "string option"
  rd_dns :: "string option"
  rd_ui :: "string option"
  rd_sub :: "string option"

record RebaseData =
  added_inbounds :: "Inbound list"
  removed_inbounds :: "Inbound list"
  rebase_domain :: RebaseDomain

section \<open>Errors\<close>

text \<open>
  One constructor per message the program builds; \<open>External\<close> is an error that a library, the
  operating system or a remote service returns.
\<close>

datatype BoxError =
    External string
  | EmptyInboundSet | ImproperInboundName string string | DupInboundNames | DupInboundPorts
  | ReservedInboundName | ReservedPort u16
  | ImproperServerName string string | DupServerNames | DupDomains | NonGlobalIp string | DupIps
  | ImproperSubdomain string | DupSubdomain string string
  | ServerInboundNames string | ServerInboundPorts string | ServerReservedPort string u16
  | NotSubgroup string
  | NewDomainUsed ReconMode string | NewIpUsed ReconMode string | MergeImpossible
  | ReloadInboundsMissing string
  | NewConnMissing | OldConnMissing | RebaseToProduction string
  | RebaseDataEmpty | CfStateMissing | ConnMissing string | RebaseFailed string
  | TlsInboundMoves string string | InboundModified string string | InboundDeleted string
  | RebaseDomainMissing
  | MotherSubidMissing string string
  | PortMissing string | WrongNftSet
  | NoZone string | CfListMissing | RuleNotCreated string | InvalidToken
  | ServerDisabled string | AlreadyProduction string | NeedsReload string | NoSuchServer string
  | NoFreshServer | AlreadyOffgrid string | DestroyFailed string | UnsuitableCommand
  | ConfigCheckFailed string BoxError
  | ActionMissing | SuperSiblingMissing | InboundNotFound string
  | TokenMissing string | TokenAlreadySet
  | NoBackup

type_synonym 'a res = "BoxError + 'a"

section \<open>Lemmas on clouds\<close>

lemma find_server_Some: "find_server nm c = Some s \<Longrightarrow> s \<in> set (servers c) \<and> srv_name s = nm"
  by (auto simp: find_server_def dest: find_Some_in)

lemma find_server_None: "find_server nm c = None \<longleftrightarrow> nm \<notin> set (server_names c)"
  by (auto simp: find_server_def find_None_iff)

lemma find_server_unique:
  "distinct (server_names c) \<Longrightarrow> s \<in> set (servers c) \<Longrightarrow> find_server (srv_name s) c = Some s"
  unfolding find_server_def by (rule find_unique)

lemma servers_update_server [simp]:
  "servers (update_server nm f c) = map (\<lambda>s. if srv_name s = nm then f s else s) (servers c)"
  by (simp add: update_server_def)

lemma settings_update_server [simp]: "settings (update_server nm f c) = settings c"
  by (simp add: update_server_def)

lemma find_server_update_same:
  assumes "find_server nm c = Some s" "\<And>t. srv_name (f t) = srv_name t"
  shows "find_server nm (update_server nm f c) = Some (f s)"
proof -
  have "find (\<lambda>t. srv_name t = nm) xs = Some s \<Longrightarrow>
    find (\<lambda>t. srv_name t = nm) (map (\<lambda>t. if srv_name t = nm then f t else t) xs) = Some (f s)" for xs
    by (induction xs) (auto simp: assms(2) split: if_splits)
  then show ?thesis using assms(1) by (simp add: find_server_def update_server_def)
qed

lemma find_server_update_other:
  assumes "nm' \<noteq> nm" "\<And>t. srv_name (f t) = srv_name t"
  shows "find_server nm' (update_server nm f c) = find_server nm' c"
proof -
  have "find (\<lambda>t. srv_name t = nm') (map (\<lambda>t. if srv_name t = nm then f t else t) xs)
      = find (\<lambda>t. srv_name t = nm') xs" for xs
    using assms by (induction xs) auto
  then show ?thesis by (simp add: find_server_def update_server_def)
qed

lemma server_names_update:
  "(\<And>t. srv_name (f t) = srv_name t) \<Longrightarrow> server_names (update_server nm f c) = server_names c"
  by (simp add: update_server_def comp_def if_distrib cong: if_cong)

end
