(* ===== verification/Server_Ops.thy ===== *)
theory Server_Ops
  imports Data_Model
begin

text \<open>
  The methods of a server, \<^verbatim>\<open>src/cloud/server.rs\<close>, and the sublink of an inbound.

  Hashing, base64 and URL parsing are crates the sources only call: they are the fields of
  \<open>Crates\<close>, an argument of the operations. The operating system's random generator is a
  sequence of bytes \<open>rng\<close> with the position of the next unread byte, which every operation that
  draws bytes returns moved on.
\<close>

record Crates =
  sha256_hex :: "string \<Rightarrow> string"
  b64_url :: "u8 list \<Rightarrow> string"
  url_parse :: "string \<Rightarrow> Url option"

type_synonym Rng = "nat \<Rightarrow> u8"

section \<open>Services and host names\<close>

definition svc_kinds :: "KetServer \<Rightarrow> SvcKind list" where
  "svc_kinds s = foldl (\<lambda>v inbound. v @ [Xray (inb_name inbound)]) [Ssh, Nginx] (srv_inbounds s)"

definition svc_num :: "KetServer \<Rightarrow> nat" where
  "svc_num s = length (svc_kinds s)"

definition svc_kinds_string :: "KetServer \<Rightarrow> string list" where
  "svc_kinds_string s = map svc_to_string (svc_kinds s)"

definition dnshostname :: "KetServer \<Rightarrow> string" where
  "dnshostname s = srv_dns_subdomain s @ ''.'' @ srv_domain s"

definition uihostname :: "KetServer \<Rightarrow> string" where
  "uihostname s = srv_ui_subdomain s @ ''.'' @ srv_domain s"

definition subhostname :: "KetServer \<Rightarrow> string" where
  "subhostname s = srv_sub_subdomain s @ ''.'' @ srv_domain s"

section \<open>Secrets\<close>

text \<open>A serialized host is ASCII, so trimming it is trimming ASCII white space.\<close>

definition trim_ascii :: "string \<Rightarrow> string" where
  "trim_ascii s =
     (let ws = \<lambda>c. white_space (of_char c) in rev (dropWhile ws (rev (dropWhile ws s))))"

definition health_seed :: "KetServer \<Rightarrow> string" where
  "health_seed s = ''name='' @ srv_name s @ ''|domain='' @ trim_ascii (srv_domain s)
     @ ''|dsub='' @ srv_dns_subdomain s @ ''|usub='' @ srv_ui_subdomain s
     @ ''|ssub='' @ srv_sub_subdomain s"

definition health_path_gen :: "Crates \<Rightarrow> KetServer \<Rightarrow> string" where
  "health_path_gen lib s = take 16 (sha256_hex lib (health_seed s))"

definition fill_bytes :: "Rng \<Rightarrow> nat \<Rightarrow> nat \<Rightarrow> u8 list \<times> nat" where
  "fill_bytes rng n pos = (map rng [pos ..< pos + n], pos + n)"

definition secret_gen :: "Crates \<Rightarrow> Rng \<Rightarrow> nat \<Rightarrow> nat \<Rightarrow> string \<times> nat" where
  "secret_gen lib rng nbytes pos =
     (let (bytes, pos') = fill_bytes rng nbytes pos in (b64_url lib bytes, pos'))"

definition ALPHABET :: string where
  "ALPHABET = ''abcdefghijklmnopqrstuvwxyzABCDEFGHIJKLMNOPQRSTUVWXYZ0123456789''"

function username_loop :: "Rng \<Rightarrow> nat \<Rightarrow> string \<Rightarrow> nat \<Rightarrow> string \<times> nat" where
  "username_loop rng len random_str pos =
     (if length random_str < len
      then let (b, pos') = fill_bytes rng 1 pos;
               indx = unat (b ! 0) mod length ALPHABET
           in username_loop rng len (random_str @ [ALPHABET ! indx]) pos'
      else (random_str, pos))"
  by pat_completeness auto
termination
  by (relation "measure (\<lambda>(rng, len, random_str, pos). len - length random_str)") auto

declare username_loop.simps [simp del]

definition username_gen :: "Rng \<Rightarrow> nat \<Rightarrow> nat \<Rightarrow> string \<times> nat" where
  "username_gen rng len pos = username_loop rng len [] pos"

text \<open>
  One round of the loop over the inbounds: the argument of \<open>or_insert\<close> is evaluated, and draws
  its bytes, also when the name has an entry.
\<close>

definition add_subid ::
  "Crates \<Rightarrow> Rng \<Rightarrow> (string \<rightharpoonup> string) \<times> nat \<Rightarrow> Inbound \<Rightarrow> (string \<rightharpoonup> string) \<times> nat" where
  "add_subid lib rng st inbound =
     (let (ids, pos) = st; (sec, pos') = secret_gen lib rng 7 pos
      in (or_insert ids (inb_name inbound) sec, pos'))"

definition fill_secrets :: "Crates \<Rightarrow> Rng \<Rightarrow> KetServer \<Rightarrow> nat \<Rightarrow> KetServer \<times> nat" where
  "fill_secrets lib rng s pos0 =
     (let (ids, pos1) = foldl (add_subid lib rng) (Map.empty, pos0) (srv_inbounds s);
          ids' = or_insert ids super_name super_name;
          (doh, pos2) = secret_gen lib rng 16 pos1;
          (user, pos3) = username_gen rng 16 pos2;
          (pass, pos4) = secret_gen lib rng 16 pos3;
          (web, pos5) = secret_gen lib rng 10 pos4;
          (sub, pos6) = secret_gen lib rng 8 pos5;
          (jsub, pos7) = secret_gen lib rng 8 pos6
      in (s\<lparr>srv_secrets := \<lparr>health_path = health_path_gen lib s, doh_endpoint = doh,
             xui_username = user, xui_password = pass, xui_token = None, xui_webpath = web,
             xui_subpath = sub, xui_jsubpath = jsub, mother_subids = ids'\<rparr>\<rparr>, pos7))"

section \<open>Connection data and sublinks\<close>

definition build_inventory :: "KetServer \<Rightarrow> KetServer" where
  "build_inventory s =
     s\<lparr>srv_ansible_conn := Some \<lparr>ansible_host = Some (show_ip (srv_ip s)),
         ansible_port = (case srv_state s of Offgrid \<Rightarrow> Some ANSIBLE_PORT
                         | Production \<Rightarrow> Some (srv_ssh_port s)),
         ansible_user = Some ROOT_USER, ansible_connection = None\<rparr>\<rparr>"

definition get_jsub :: "Crates \<Rightarrow> Inbound \<Rightarrow> KetServer \<Rightarrow> Url res" where
  "get_jsub lib inb s =
     and_then (ok_or (mother_subids (srv_secrets s) (inb_name inb))
                 (MotherSubidMissing (srv_name s) (inb_name inb))) (\<lambda>subid.
     ok_or (url_parse lib (''https://'' @ subhostname s @ ''/'' @ xui_jsubpath (srv_secrets s)
              @ ''/'' @ subid)) (External ''url''))"

section \<open>Lemmas\<close>

lemma foldl_push: "foldl (\<lambda>v x. v @ [f x]) v0 xs = v0 @ map f xs"
  by (induction xs arbitrary: v0) auto

lemma svc_kinds_alt: "svc_kinds s = Ssh # Nginx # map (\<lambda>i. Xray (inb_name i)) (srv_inbounds s)"
  by (simp add: svc_kinds_def foldl_push)

lemma svc_num_alt [simp]: "svc_num s = length (srv_inbounds s) + 2"
  by (simp add: svc_num_def svc_kinds_alt)

text \<open>The names under which the services of one server are stored do not clash.\<close>

lemma svc_kinds_string_distinct:
  assumes "distinct (map inb_name (srv_inbounds s))"
  shows "distinct (svc_kinds_string s)"
  unfolding svc_kinds_string_def
proof (subst distinct_map, intro conjI)
  show "distinct (svc_kinds s)"
    using assms by (auto simp: svc_kinds_alt distinct_map inj_on_def)
  show "inj_on svc_to_string (set (svc_kinds s))"
    by (intro inj_onI) (simp add: svc_text.enc_inj)
qed

lemma ALPHABET_alnum: "alnum (ALPHABET ! (n mod length ALPHABET))"
proof -
  have "\<forall>i < length ALPHABET. alnum (ALPHABET ! i)"
    unfolding list_all_length [symmetric] by (simp add: ALPHABET_def alnum_def ascii_defs)
  moreover have "n mod length ALPHABET < length ALPHABET" by (simp add: ALPHABET_def)
  ultimately show ?thesis by blast
qed

lemma username_loop_step:
  "length str < len \<Longrightarrow> username_loop rng len str pos =
     username_loop rng len (str @ [ALPHABET ! (unat (rng pos) mod length ALPHABET)]) (Suc pos)"
  by (subst username_loop.simps) (simp add: fill_bytes_def)

lemma username_loop_shape:
  "length str + n = len \<Longrightarrow> list_all alnum str \<Longrightarrow>
     length (fst (username_loop rng len str pos)) = len
   \<and> list_all alnum (fst (username_loop rng len str pos))
   \<and> snd (username_loop rng len str pos) = pos + n"
proof (induction n arbitrary: str pos)
  case 0
  then show ?case by (subst (1 2 3) username_loop.simps) simp
next
  case (Suc n)
  then have "length str < len" by simp
  from username_loop_step [OF this] show ?case
    using Suc.IH [of "str @ [ALPHABET ! (unat (rng pos) mod length ALPHABET)]" "Suc pos"] Suc.prems
    by (simp add: ALPHABET_alnum)
qed

text \<open>
  The generated panel user name has exactly the requested length and consists of ASCII
  letters and digits, whatever the random bytes; the loop draws one byte per character.
\<close>

lemma username_gen_alnum:
  "length (fst (username_gen rng len pos)) = len
   \<and> list_all alnum (fst (username_gen rng len pos))
   \<and> snd (username_gen rng len pos) = pos + len"
  using username_loop_shape [of "[]" len len rng pos] by (simp add: username_gen_def)

lemma add_subid_fold_dom:
  "dom (fst (foldl (add_subid lib rng) (ids, pos) xs)) = dom ids \<union> inb_name ` set xs"
  by (induction xs arbitrary: ids pos)
    (auto simp: add_subid_def secret_gen_def fill_bytes_def)

text \<open>
  Fresh secrets hold a subscription identifier for every inbound and for the supervisor, and for
  no other name; the panel token is absent until a full setup creates it.
\<close>

lemma fill_secrets_dom:
  "let s' = fst (fill_secrets lib rng s pos) in
     dom (mother_subids (srv_secrets s')) = insert super_name (inb_name ` set (srv_inbounds s))
   \<and> (mother_subids (srv_secrets s') super_name = Some super_name
       \<or> super_name \<in> inb_name ` set (srv_inbounds s))
   \<and> xui_token (srv_secrets s') = None
   \<and> health_path (srv_secrets s') = health_path_gen lib s
   \<and> s' = s\<lparr>srv_secrets := srv_secrets s'\<rparr>"
proof -
  obtain ids pos' where ids: "foldl (add_subid lib rng) (Map.empty, pos) (srv_inbounds s) = (ids, pos')"
    by fastforce
  have d: "dom ids = inb_name ` set (srv_inbounds s)"
    using add_subid_fold_dom [of lib rng Map.empty pos "srv_inbounds s"] by (simp add: ids)
  have super: "or_insert ids super_name super_name super_name = Some super_name
      \<or> super_name \<in> inb_name ` set (srv_inbounds s)"
    by (cases "ids super_name") (auto simp flip: d)
  show ?thesis
    using super by (simp add: fill_secrets_def ids d Let_def split: prod.splits)
qed

text \<open>
  The seed of the health path names the server: with no bar in the parts, which the checks on
  names and the syntax of hosts exclude, equal seeds come from equal parts.
\<close>

definition seed_parts :: "KetServer \<Rightarrow> string list" where
  "seed_parts s = [srv_name s, trim_ascii (srv_domain s), srv_dns_subdomain s, srv_ui_subdomain s,
     srv_sub_subdomain s]"

lemma health_seed_inj:
  assumes "\<forall>p \<in> set (seed_parts s). CHR ''|'' \<notin> set p" "\<forall>p \<in> set (seed_parts t). CHR ''|'' \<notin> set p"
    and eq: "health_seed s = health_seed t"
  shows "seed_parts s = seed_parts t"
proof -
  let ?tags = "[''name='', ''domain='', ''dsub='', ''usub='', ''ssub='']"
  have tagged: "health_seed u = join ''|'' (map2 (@) ?tags (seed_parts u))" for u
    by (simp add: health_seed_def seed_parts_def)
  have pieces: "split_at (CHR ''|'') (health_seed u) = map2 (@) ?tags (seed_parts u)"
    if "\<forall>p \<in> set (seed_parts u). CHR ''|'' \<notin> set p" for u
    unfolding tagged by (rule split_at_join) (use that in \<open>auto simp: seed_parts_def\<close>)
  have "map2 (@) ?tags (seed_parts s) = map2 (@) ?tags (seed_parts t)"
    using pieces [OF assms(1)] pieces [OF assms(2)] eq by simp
  then show ?thesis by (simp add: seed_parts_def)
qed

lemma get_jsub_Inl_iff:
  "get_jsub lib inb s = Inl (MotherSubidMissing (srv_name s) (inb_name inb))
   \<longleftrightarrow> inb_name inb \<notin> dom (mother_subids (srv_secrets s))"
  by (auto simp: get_jsub_def domIff ok_or_def split: option.splits)

end
