(* ===== verification/Samples.thy ===== *)
theory Samples
  imports Server_Ops
begin

text \<open>
  Concrete values on which the witnesses of the later theories evaluate: a stand-in for the
  crates, a random source, two inbounds and two declared servers.
\<close>

definition demo_crates :: Crates where
  "demo_crates = \<lparr>sha256_hex = \<lambda>s. replicate 64 (CHR ''0''),
     b64_url = map (\<lambda>b. ALPHABET ! (unat b mod 62)), url_parse = Some\<rparr>"

definition demo_rng :: Rng where
  "demo_rng n = of_nat n"

definition demo_inbound :: "string \<Rightarrow> u16 \<Rightarrow> Inbound" where
  "demo_inbound nm p = \<lparr>inb_name = nm, inb_port = p, inb_kind = VlessXhttpReality, inb_total = 2,
     inb_traffic = 0, inb_expiry = 0, inb_comment = []\<rparr>"

definition demo_set :: "Inbound list" where
  "demo_set = [demo_inbound ''alpha'' 2053, demo_inbound ''beta'' 8080]"

definition empty_secrets :: Secrets where
  "empty_secrets = \<lparr>health_path = [], doh_endpoint = [], xui_username = [], xui_password = [],
     xui_token = None, xui_webpath = [], xui_subpath = [], xui_jsubpath = [], mother_subids = Map.empty\<rparr>"

definition demo_server :: "string \<Rightarrow> u8 \<Rightarrow> string \<Rightarrow> ServerState \<Rightarrow> KetServer" where
  "demo_server nm b domain st = \<lparr>srv_name = nm, srv_ip = V4 8 8 8 b, srv_domain = domain, srv_region = ''US'',
     srv_state = st, srv_quota = 0, srv_enabled = True, srv_ssh_port = SSH_PORT,
     srv_dns_subdomain = ''dns'', srv_ui_subdomain = ''ui'', srv_sub_subdomain = ''sub'',
     srv_cloudflare_proxied = False, srv_inbounds = [], srv_outbound_block = [''CN''],
     srv_ansible_conn = None, srv_secrets = empty_secrets, srv_cfstate = None, srv_xui = None\<rparr>"

definition demo_settings :: CloudSettings where
  "demo_settings = \<lparr>inbound_set = demo_set, auto_fix = True, fix_threshold = FIX_THRESHOLD,
     monitor_interval = SVC_MON_INTERVAL\<rparr>"

definition demo_config :: Cloud where
  "demo_config = \<lparr>servers = [demo_server ''one'' 1 ''one.org'' Offgrid, demo_server ''two'' 2 ''two.org'' Production],
     settings = demo_settings\<rparr>"

lemmas demo_defs = demo_crates_def demo_rng_def demo_inbound_def demo_set_def empty_secrets_def
  demo_server_def demo_settings_def demo_config_def

end
