(* ===== verification/Cloud_Config.thy ===== *)
theory Cloud_Config
  imports Samples
begin

text \<open>
  \<open>parse_cloud_config\<close> of \<^verbatim>\<open>src/cloud.rs\<close>: the checks on the declared inbound-set and on every
  server, and the cloud that is built from a configuration that passes them.

  Reading the file and decoding TOML are arguments; a hash set is a set, and a test
  \<open>if !set.insert(x)\<close> is \<open>seen_insert\<close>. The declarative counterpart is \<open>valid_config\<close>.
\<close>

section \<open>The inbound-set\<close>

record InboundSeen =
  in_names :: "string set"
  in_ports :: "u16 set"
  in_nps :: "(string \<times> u16) set"

definition no_inbounds :: InboundSeen where
  "no_inbounds = \<lparr>in_names = {}, in_ports = {}, in_nps = {}\<rparr>"

definition check_set_inbound :: "InboundSeen \<Rightarrow> Inbound \<Rightarrow> InboundSeen res" where
  "check_set_inbound sn inb =
     and_then (ensure (is_proper (inb_name inb))
       (ImproperInboundName (inb_name inb) (slug (inb_name inb)))) (\<lambda>_.
     and_then (seen_insert DupInboundNames (in_names sn) (inb_name inb)) (\<lambda>names.
     and_then (seen_insert DupInboundPorts (in_ports sn) (inb_port inb)) (\<lambda>ports.
     Inr \<lparr>in_names = names, in_ports = ports,
          in_nps = insert (inb_name inb, inb_port inb) (in_nps sn)\<rparr>)))"

definition check_inbound_set :: "Inbound list \<Rightarrow> InboundSeen res" where
  "check_inbound_set ins =
     and_then (ensure (ins \<noteq> []) EmptyInboundSet) (\<lambda>_. try_fold check_set_inbound no_inbounds ins)"

definition check_reserved :: "InboundSeen \<Rightarrow> unit res" where
  "check_reserved sn =
     and_then (seen_insert ReservedInboundName (in_names sn) super_name) (\<lambda>_.
     and_then (try_fold (\<lambda>ports port. seen_insert (ReservedPort port) ports port)
       (in_ports sn) reserved_ports) (\<lambda>_. Inr ()))"

section \<open>One server\<close>

record ServersSeen =
  seen_names :: "string set"
  seen_domains :: "Host set"
  seen_ips :: "IpAddr set"
  rng_pos :: nat
  parsed :: "KetServer list"

definition prepare_server ::
  "Crates \<Rightarrow> Rng \<Rightarrow> CloudSettings \<Rightarrow> nat \<Rightarrow> KetServer \<Rightarrow> KetServer \<times> nat" where
  "prepare_server lib rng st pos s =
     (let s1 = build_inventory s;
          s2 = (if srv_inbounds s1 = [] then s1\<lparr>srv_inbounds := inbound_set st\<rparr> else s1)
      in fill_secrets lib rng s2 pos)"

definition check_identity ::
  "ServersSeen \<Rightarrow> KetServer \<Rightarrow> (string set \<times> Host set \<times> IpAddr set) res" where
  "check_identity sn s =
     and_then (ensure (is_proper (srv_name s)) (ImproperServerName (srv_name s) (slug (srv_name s)))) (\<lambda>_.
     and_then (seen_insert DupServerNames (seen_names sn) (srv_name s)) (\<lambda>names.
     and_then (seen_insert DupDomains (seen_domains sn) (srv_domain s)) (\<lambda>domains.
     and_then (ensure (is_global (srv_ip s)) (NonGlobalIp (srv_name s))) (\<lambda>_.
     and_then (seen_insert DupIps (seen_ips sn) (srv_ip s)) (\<lambda>ips.
     Inr (names, domains, ips))))))"

definition check_subdomains :: "KetServer \<Rightarrow> unit res" where
  "check_subdomains s =
     and_then (try_fold (\<lambda>subdomains sd.
         and_then (ensure (is_proper_subdomain sd) (ImproperSubdomain sd)) (\<lambda>_.
         seen_insert (DupSubdomain sd (srv_name s)) subdomains sd))
       {} [srv_sub_subdomain s, srv_ui_subdomain s, srv_dns_subdomain s]) (\<lambda>_. Inr ())"

definition check_server_inbound :: "KetServer \<Rightarrow> InboundSeen \<Rightarrow> Inbound \<Rightarrow> InboundSeen res" where
  "check_server_inbound s sn inb =
     and_then (seen_insert (ServerInboundNames (srv_name s)) (in_names sn) (inb_name inb)) (\<lambda>names.
     and_then (seen_insert (ServerInboundPorts (srv_name s)) (in_ports sn) (inb_port inb)) (\<lambda>ports.
     Inr \<lparr>in_names = names, in_ports = ports,
          in_nps = insert (inb_name inb, inb_port inb) (in_nps sn)\<rparr>))"

definition check_server_inbounds :: "(string \<times> u16) set \<Rightarrow> KetServer \<Rightarrow> unit res" where
  "check_server_inbounds cloud_nps s =
     (if srv_inbounds s \<noteq> []
      then and_then (try_fold (check_server_inbound s)
               (no_inbounds\<lparr>in_names := {super_name}\<rparr>) (srv_inbounds s)) (\<lambda>sn.
           and_then (try_fold (\<lambda>ports port. seen_insert (ServerReservedPort (srv_name s) port) ports port)
               (in_ports sn) reserved_ports) (\<lambda>_.
           ensure (in_nps sn \<subseteq> cloud_nps) (NotSubgroup (srv_name s))))
      else Inr ())"

definition finish_server :: "KetServer \<Rightarrow> KetServer" where
  "finish_server s = s\<lparr>srv_inbounds := srv_inbounds s @ [super_inbound], srv_xui := None\<rparr>"

definition parse_server ::
  "Crates \<Rightarrow> Rng \<Rightarrow> CloudSettings \<Rightarrow> (string \<times> u16) set \<Rightarrow> ServersSeen \<Rightarrow> KetServer \<Rightarrow> ServersSeen res" where
  "parse_server lib rng st cloud_nps sn s0 =
     (let (s, pos) = prepare_server lib rng st (rng_pos sn) s0 in
      and_then (check_identity sn s) (\<lambda>(names, domains, ips).
      and_then (check_subdomains s) (\<lambda>_.
      and_then (check_server_inbounds cloud_nps s) (\<lambda>_.
      Inr \<lparr>seen_names = names, seen_domains = domains, seen_ips = ips, rng_pos = pos,
           parsed = parsed sn @ [finish_server s]\<rparr>))))"

section \<open>The cloud\<close>

definition final_settings :: "CloudSettings \<Rightarrow> CloudSettings" where
  "final_settings st = st\<lparr>monitor_interval := max (monitor_interval st) MIN_MON_INTERVAL\<rparr>"

definition build_cloud :: "Crates \<Rightarrow> Rng \<Rightarrow> nat \<Rightarrow> Cloud \<Rightarrow> Cloud res" where
  "build_cloud lib rng pos t =
     and_then (check_inbound_set (inbound_set (settings t))) (\<lambda>ins.
     and_then (check_reserved ins) (\<lambda>_.
     and_then (try_fold (parse_server lib rng (settings t) (in_nps ins))
         \<lparr>seen_names = {}, seen_domains = {}, seen_ips = {}, rng_pos = pos, parsed = []\<rparr>
         (servers t)) (\<lambda>sn.
     Inr \<lparr>servers = parsed sn, settings = final_settings (settings t)\<rparr>)))"

definition parse_cloud_config ::
  "Crates \<Rightarrow> Rng \<Rightarrow> nat \<Rightarrow> (string \<Rightarrow> Cloud res) \<Rightarrow> string res \<Rightarrow> Cloud res" where
  "parse_cloud_config lib rng pos toml_from_str cloud_config =
     and_then cloud_config (\<lambda>text. and_then (toml_from_str text) (build_cloud lib rng pos))"

section \<open>What a valid configuration is\<close>

definition valid_inbound_set :: "Inbound list \<Rightarrow> bool" where
  "valid_inbound_set ins \<longleftrightarrow> ins \<noteq> [] \<and> list_all (\<lambda>i. is_proper (inb_name i)) ins
     \<and> distinct (map inb_name ins) \<and> distinct (map inb_port ins)
     \<and> super_name \<notin> inb_name ` set ins \<and> set reserved_ports \<inter> inb_port ` set ins = {}"

definition inbound_nps :: "Inbound list \<Rightarrow> (string \<times> u16) set" where
  "inbound_nps ins = (\<lambda>i. (inb_name i, inb_port i)) ` set ins"

definition effective_inbounds :: "CloudSettings \<Rightarrow> KetServer \<Rightarrow> Inbound list" where
  "effective_inbounds st s = (if srv_inbounds s = [] then inbound_set st else srv_inbounds s)"

definition valid_inbounds :: "Inbound list \<Rightarrow> Inbound list \<Rightarrow> bool" where
  "valid_inbounds ref ins \<longleftrightarrow> distinct (map inb_name ins) \<and> distinct (map inb_port ins)
     \<and> super_name \<notin> inb_name ` set ins \<and> set reserved_ports \<inter> inb_port ` set ins = {}
     \<and> inbound_nps ins \<subseteq> inbound_nps ref"

definition subdomains_of :: "KetServer \<Rightarrow> string list" where
  "subdomains_of s = [srv_sub_subdomain s, srv_ui_subdomain s, srv_dns_subdomain s]"

definition valid_server :: "CloudSettings \<Rightarrow> KetServer \<Rightarrow> bool" where
  "valid_server st s \<longleftrightarrow> is_proper (srv_name s) \<and> is_global (srv_ip s)
     \<and> list_all is_proper_subdomain (subdomains_of s) \<and> distinct (subdomains_of s)
     \<and> valid_inbounds (inbound_set st) (effective_inbounds st s)"

definition unique_servers :: "KetServer list \<Rightarrow> bool" where
  "unique_servers ss \<longleftrightarrow>
     distinct (map srv_name ss) \<and> distinct (map srv_domain ss) \<and> distinct (map srv_ip ss)"

definition valid_config :: "Cloud \<Rightarrow> bool" where
  "valid_config t \<longleftrightarrow> valid_inbound_set (inbound_set (settings t))
     \<and> list_all (valid_server (settings t)) (servers t) \<and> unique_servers (servers t)"

section \<open>The checks decide validity\<close>

definition seen_with :: "Inbound \<Rightarrow> InboundSeen \<Rightarrow> InboundSeen" where
  "seen_with inb sn = \<lparr>in_names = insert (inb_name inb) (in_names sn),
     in_ports = insert (inb_port inb) (in_ports sn),
     in_nps = insert (inb_name inb, inb_port inb) (in_nps sn)\<rparr>"

lemma check_set_inbound_iff:
  "check_set_inbound sn inb = Inr sn' \<longleftrightarrow> is_proper (inb_name inb)
     \<and> inb_name inb \<notin> in_names sn \<and> inb_port inb \<notin> in_ports sn \<and> sn' = seen_with inb sn"
  by (auto simp: check_set_inbound_def seen_with_def)

lemma check_server_inbound_iff:
  "check_server_inbound s sn inb = Inr sn' \<longleftrightarrow>
     inb_name inb \<notin> in_names sn \<and> inb_port inb \<notin> in_ports sn \<and> sn' = seen_with inb sn"
  by (auto simp: check_server_inbound_def seen_with_def)

lemma check_set_inbound_fold:
  "try_fold check_set_inbound sn ins = Inr sn' \<longleftrightarrow>
     list_all (\<lambda>i. is_proper (inb_name i)) ins
     \<and> distinct (map inb_name ins) \<and> inb_name ` set ins \<inter> in_names sn = {}
     \<and> distinct (map inb_port ins) \<and> inb_port ` set ins \<inter> in_ports sn = {}
     \<and> sn' = \<lparr>in_names = in_names sn \<union> inb_name ` set ins, in_ports = in_ports sn \<union> inb_port ` set ins,
             in_nps = in_nps sn \<union> inbound_nps ins\<rparr>"
proof (induction ins arbitrary: sn)
  case (Cons i ins)
  show ?case
    by (simp add: Cons.IH check_set_inbound_iff seen_with_def inbound_nps_def) blast
qed (auto simp: inbound_nps_def)

lemma check_server_inbound_fold:
  "try_fold (check_server_inbound s) sn ins = Inr sn' \<longleftrightarrow>
     distinct (map inb_name ins) \<and> inb_name ` set ins \<inter> in_names sn = {}
     \<and> distinct (map inb_port ins) \<and> inb_port ` set ins \<inter> in_ports sn = {}
     \<and> sn' = \<lparr>in_names = in_names sn \<union> inb_name ` set ins, in_ports = in_ports sn \<union> inb_port ` set ins,
             in_nps = in_nps sn \<union> inbound_nps ins\<rparr>"
proof (induction ins arbitrary: sn)
  case (Cons i ins)
  show ?case
    by (simp add: Cons.IH check_server_inbound_iff seen_with_def inbound_nps_def) blast
qed (auto simp: inbound_nps_def)

lemma reserved_distinct: "distinct reserved_ports"
  by (simp add: reserved_ports_def port_defs)

lemma reserved_fold:
  "try_fold (\<lambda>ports port. seen_insert (e port) ports port) seen ps = Inr seen' \<longleftrightarrow>
     distinct ps \<and> set ps \<inter> seen = {} \<and> seen' = seen \<union> set ps"
  by (induction ps arbitrary: seen) (auto simp: seen_insert_def)

lemma check_inbound_set_reserved:
  "(\<exists>ins u. check_inbound_set xs = Inr ins \<and> check_reserved ins = Inr u) \<longleftrightarrow> valid_inbound_set xs"
  by (auto simp: check_inbound_set_def check_reserved_def check_set_inbound_fold valid_inbound_set_def
      reserved_fold reserved_distinct no_inbounds_def)

lemma check_inbound_set_nps:
  "check_inbound_set xs = Inr ins \<Longrightarrow> in_nps ins = inbound_nps xs"
  by (auto simp: check_inbound_set_def check_set_inbound_fold no_inbounds_def)

lemma check_subdomains_iff:
  "check_subdomains s = Inr u \<longleftrightarrow>
     list_all is_proper_subdomain (subdomains_of s) \<and> distinct (subdomains_of s)"
  by (auto simp: check_subdomains_def subdomains_of_def)

lemma check_server_inbounds_iff:
  "srv_inbounds s \<noteq> [] \<Longrightarrow>
     check_server_inbounds (inbound_nps ref) s = Inr u \<longleftrightarrow> valid_inbounds ref (srv_inbounds s)"
  by (auto simp: check_server_inbounds_def check_server_inbound_fold reserved_fold reserved_distinct
      valid_inbounds_def no_inbounds_def)

lemma check_identity_iff:
  "check_identity sn s = Inr (names, domains, ips) \<longleftrightarrow>
     is_proper (srv_name s) \<and> is_global (srv_ip s)
     \<and> srv_name s \<notin> seen_names sn \<and> srv_domain s \<notin> seen_domains sn \<and> srv_ip s \<notin> seen_ips sn
     \<and> names = insert (srv_name s) (seen_names sn) \<and> domains = insert (srv_domain s) (seen_domains sn)
     \<and> ips = insert (srv_ip s) (seen_ips sn)"
  by (auto simp: check_identity_def)

text \<open>What preparation leaves and what it sets.\<close>

definition same_declaration :: "KetServer \<Rightarrow> KetServer \<Rightarrow> bool" where
  "same_declaration s t \<longleftrightarrow> srv_name t = srv_name s \<and> srv_ip t = srv_ip s \<and> srv_domain t = srv_domain s
     \<and> srv_region t = srv_region s \<and> srv_state t = srv_state s \<and> srv_quota t = srv_quota s
     \<and> srv_enabled t = srv_enabled s \<and> srv_ssh_port t = srv_ssh_port s
     \<and> subdomains_of t = subdomains_of s \<and> srv_cloudflare_proxied t = srv_cloudflare_proxied s
     \<and> srv_outbound_block t = srv_outbound_block s \<and> srv_cfstate t = srv_cfstate s"

lemma fill_secrets_frame:
  "fill_secrets lib rng s pos = (s', pos') \<Longrightarrow> \<exists>sec. s' = s\<lparr>srv_secrets := sec\<rparr>
     \<and> dom (mother_subids sec) = insert super_name (inb_name ` set (srv_inbounds s))
     \<and> xui_token sec = None \<and> health_path sec = health_path_gen lib s"
  using fill_secrets_dom [of lib rng s pos] by (auto simp: Let_def)

definition ready_server :: "Crates \<Rightarrow> CloudSettings \<Rightarrow> KetServer \<Rightarrow> KetServer \<Rightarrow> bool" where
  "ready_server lib st s t \<longleftrightarrow> same_declaration s t
     \<and> srv_inbounds t = effective_inbounds st s @ [super_inbound]
     \<and> dom (mother_subids (srv_secrets t)) = inb_name ` set (srv_inbounds t)
     \<and> xui_token (srv_secrets t) = None \<and> health_path (srv_secrets t) = health_path_gen lib s
     \<and> srv_ansible_conn t = srv_ansible_conn (build_inventory s) \<and> srv_xui t = None"

lemma health_path_gen_cong:
  "same_declaration s t \<Longrightarrow> health_path_gen lib t = health_path_gen lib s"
  by (simp add: same_declaration_def health_path_gen_def health_seed_def subdomains_of_def)

lemma prepare_server_ready:
  assumes "prepare_server lib rng st pos s = (s', pos')"
  shows "srv_inbounds s' = effective_inbounds st s" "ready_server lib st s (finish_server s')"
    "same_declaration s s'"
proof -
  let ?s2 = "(build_inventory s)\<lparr>srv_inbounds := effective_inbounds st s\<rparr>"
  have "fill_secrets lib rng ?s2 pos = (s', pos')"
    using assms by (auto simp: prepare_server_def effective_inbounds_def build_inventory_def Let_def
        split: if_splits)
  from fill_secrets_frame [OF this] obtain sec where sec: "s' = ?s2\<lparr>srv_secrets := sec\<rparr>"
    "dom (mother_subids sec) = insert super_name (inb_name ` set (effective_inbounds st s))"
    "xui_token sec = None" "health_path sec = health_path_gen lib ?s2" by auto
  show decl: "same_declaration s s'" "srv_inbounds s' = effective_inbounds st s"
    by (simp_all add: sec(1) same_declaration_def build_inventory_def subdomains_of_def)
  have "same_declaration s ?s2"
    by (simp add: same_declaration_def build_inventory_def subdomains_of_def)
  from health_path_gen_cong [OF this] show "ready_server lib st s (finish_server s')"
    using decl sec by (simp add: ready_server_def finish_server_def same_declaration_def
        subdomains_of_def super_inbound_def)
qed

lemma effective_not_Nil: "valid_inbound_set (inbound_set st) \<Longrightarrow> effective_inbounds st s \<noteq> []"
  by (simp add: effective_inbounds_def valid_inbound_set_def)

text \<open>The state after the servers \<open>done\<close> are accepted.\<close>

definition seen_all :: "KetServer list \<Rightarrow> ServersSeen \<Rightarrow> bool" where
  "seen_all ss sn \<longleftrightarrow> seen_names sn = srv_name ` set ss \<and> seen_domains sn = srv_domain ` set ss
     \<and> seen_ips sn = srv_ip ` set ss"

lemma parse_server_iff:
  assumes valid: "valid_inbound_set (inbound_set st)" and seen: "seen_all ss sn"
    and prep: "prepare_server lib rng st (rng_pos sn) s = (s', pos')"
  shows "parse_server lib rng st (inbound_nps (inbound_set st)) sn s = Inr sn' \<longleftrightarrow>
      valid_server st s \<and> srv_name s \<notin> srv_name ` set ss \<and> srv_domain s \<notin> srv_domain ` set ss
      \<and> srv_ip s \<notin> srv_ip ` set ss
      \<and> sn' = \<lparr>seen_names = insert (srv_name s) (seen_names sn),
              seen_domains = insert (srv_domain s) (seen_domains sn),
              seen_ips = insert (srv_ip s) (seen_ips sn), rng_pos = pos',
              parsed = parsed sn @ [finish_server s']\<rparr>"
proof -
  note ready = prepare_server_ready [OF prep]
  have ne: "srv_inbounds s' \<noteq> []" using effective_not_Nil [OF valid] ready(1) by simp
  have same: "srv_name s' = srv_name s" "srv_domain s' = srv_domain s" "srv_ip s' = srv_ip s"
    "subdomains_of s' = subdomains_of s"
    using ready(3) by (simp_all add: same_declaration_def)
  show ?thesis
    using seen
    by (auto simp: parse_server_def prep check_identity_iff check_subdomains_iff
        check_server_inbounds_iff [OF ne] ready(1) same valid_server_def seen_all_def)
qed

text \<open>The loop over the servers succeeds exactly on valid servers with unique names, domains and addresses.\<close>

lemma disjoint_insert_right: "A \<inter> insert a B = {} \<longleftrightarrow> a \<notin> A \<and> A \<inter> B = {}"
  by blast

lemma parse_servers_iff:
  assumes valid: "valid_inbound_set (inbound_set st)" and seen: "seen_all ss sn"
  shows "(\<exists>sn'. try_fold (parse_server lib rng st (inbound_nps (inbound_set st))) sn xs = Inr sn') \<longleftrightarrow>
      list_all (valid_server st) xs \<and> unique_servers xs
      \<and> srv_name ` set xs \<inter> srv_name ` set ss = {} \<and> srv_domain ` set xs \<inter> srv_domain ` set ss = {}
      \<and> srv_ip ` set xs \<inter> srv_ip ` set ss = {}"
  using seen
proof (induction xs arbitrary: ss sn)
  case (Cons x xs)
  obtain x' pos' where prep: "prepare_server lib rng st (rng_pos sn) x = (x', pos')" by fastforce
  let ?sn = "\<lparr>seen_names = insert (srv_name x) (seen_names sn),
    seen_domains = insert (srv_domain x) (seen_domains sn), seen_ips = insert (srv_ip x) (seen_ips sn),
    rng_pos = pos', parsed = parsed sn @ [finish_server x']\<rparr>"
  have seen': "seen_all (x # ss) ?sn" using Cons.prems by (simp add: seen_all_def)
  let ?loop = "try_fold (parse_server lib rng st (inbound_nps (inbound_set st)))"
  have "(\<exists>sn'. ?loop sn (x # xs) = Inr sn') \<longleftrightarrow> valid_server st x \<and> srv_name x \<notin> srv_name ` set ss
    \<and> srv_domain x \<notin> srv_domain ` set ss \<and> srv_ip x \<notin> srv_ip ` set ss \<and> (\<exists>sn'. ?loop ?sn xs = Inr sn')"
    by (auto simp: parse_server_iff [OF valid Cons.prems prep])
  then show ?case
    unfolding Cons.IH [OF seen'] unique_servers_def by (simp add: disjoint_insert_right) argo
qed (simp add: unique_servers_def)

lemma parse_servers_ready:
  assumes "try_fold (parse_server lib rng st nps) sn xs = Inr sn'"
  shows "\<exists>ys. parsed sn' = parsed sn @ ys \<and> list_all2 (ready_server lib st) xs ys"
  using assms
proof (induction xs arbitrary: sn)
  case (Cons x xs)
  obtain x' pos' where prep: "prepare_server lib rng st (rng_pos sn) x = (x', pos')" by fastforce
  from Cons.prems obtain sn1 where step: "parse_server lib rng st nps sn x = Inr sn1"
    and rest: "try_fold (parse_server lib rng st nps) sn1 xs = Inr sn'" by auto
  have "parsed sn1 = parsed sn @ [finish_server x']"
    using step by (auto simp: parse_server_def prep)
  with Cons.IH [OF rest] prepare_server_ready(2) [OF prep] show ?case by auto
qed simp

lemma build_cloud_iff: "(\<exists>c. build_cloud lib rng pos t = Inr c) \<longleftrightarrow> valid_config t"
proof -
  let ?start = "\<lparr>seen_names = {}, seen_domains = {}, seen_ips = {}, rng_pos = pos, parsed = []\<rparr>"
  let ?ins = "inbound_set (settings t)"
  let ?loop = "try_fold (parse_server lib rng (settings t) (inbound_nps ?ins)) ?start (servers t)"
  have "(\<exists>c. build_cloud lib rng pos t = Inr c) \<longleftrightarrow>
      (\<exists>ins u. check_inbound_set ?ins = Inr ins \<and> check_reserved ins = Inr u) \<and> (\<exists>sn. ?loop = Inr sn)"
    using check_inbound_set_nps [of ?ins] by (fastforce simp: build_cloud_def)
  also have "\<dots> \<longleftrightarrow> valid_config t"
    unfolding check_inbound_set_reserved valid_config_def
    using parse_servers_iff [of "settings t" "[]" ?start lib rng "servers t"]
    by (auto simp: seen_all_def)
  finally show ?thesis .
qed

section \<open>Clouds the program works on\<close>

definition well_formed_server :: "CloudSettings \<Rightarrow> KetServer \<Rightarrow> bool" where
  "well_formed_server st s \<longleftrightarrow> is_proper (srv_name s) \<and> is_global (srv_ip s)
     \<and> list_all is_proper_subdomain (subdomains_of s) \<and> distinct (subdomains_of s)
     \<and> srv_inbounds s \<noteq> [] \<and> last (srv_inbounds s) = super_inbound \<and> butlast (srv_inbounds s) \<noteq> []
     \<and> valid_inbounds (inbound_set st) (butlast (srv_inbounds s))"

definition well_formed_cloud :: "Cloud \<Rightarrow> bool" where
  "well_formed_cloud c \<longleftrightarrow> valid_inbound_set (inbound_set (settings c))
     \<and> list_all (well_formed_server (settings c)) (servers c) \<and> unique_servers (servers c)
     \<and> MIN_MON_INTERVAL \<le> monitor_interval (settings c)"

lemma ready_well_formed:
  assumes "valid_inbound_set (inbound_set st)" "valid_server st s" "ready_server lib st s t"
    and "inbound_set st' = inbound_set st"
  shows "well_formed_server st' t"
  using assms effective_not_Nil [OF assms(1), of s]
  by (simp add: well_formed_server_def valid_server_def ready_server_def same_declaration_def)

lemma ready_unique:
  "list_all2 (ready_server lib st) ss ts \<Longrightarrow> unique_servers ts \<longleftrightarrow> unique_servers ss"
proof -
  assume ready: "list_all2 (ready_server lib st) ss ts"
  have "map f ts = map f ss" if "\<And>s t. ready_server lib st s t \<Longrightarrow> f t = f s" for f :: "KetServer \<Rightarrow> 'x"
    using ready by (induction rule: list_all2_induct) (auto dest: that)
  note maps = this [of srv_name] this [of srv_domain] this [of srv_ip]
  show ?thesis
    unfolding unique_servers_def by (subst maps, simp add: ready_server_def same_declaration_def)+ simp
qed

lemma build_cloud_result:
  assumes "build_cloud lib rng pos t = Inr c"
  shows "list_all2 (ready_server lib (settings t)) (servers t) (servers c)"
    "settings c = (settings t)\<lparr>monitor_interval := max (monitor_interval (settings t)) MIN_MON_INTERVAL\<rparr>"
    "well_formed_cloud c"
proof -
  have valid: "valid_config t" using assms build_cloud_iff by blast
  show ready: "list_all2 (ready_server lib (settings t)) (servers t) (servers c)"
    using assms parse_servers_ready by (fastforce simp: build_cloud_def)
  show set: "settings c = (settings t)\<lparr>monitor_interval := max (monitor_interval (settings t)) MIN_MON_INTERVAL\<rparr>"
    using assms by (auto simp: build_cloud_def final_settings_def)
  have "well_formed_server (settings c) y" if "y \<in> set (servers c)" for y
  proof -
    from ready that obtain x where "x \<in> set (servers t)" "ready_server lib (settings t) x y"
      by (metis list_all2_conv_all_nth in_set_conv_nth)
    then show ?thesis
      using valid by (auto intro!: ready_well_formed [of "settings t" x lib] simp: valid_config_def set list_all_iff)
  qed
  then show "well_formed_cloud c"
    using valid ready_unique [OF ready]
    by (simp add: well_formed_cloud_def valid_config_def set list_all_iff)
qed

text \<open>
  C1. The parser accepts exactly the valid configurations: it returns a cloud if and only if the
  text decodes to a declaration with a non-empty inbound-set of proper, unique, unreserved names
  and unique, unreserved ports, and with servers whose names are proper and unique, whose domains
  are unique, whose addresses are global and unique, whose three subdomains are proper and
  distinct, and whose inbounds are unique and taken from the inbound-set.
\<close>

theorem parse_cloud_config_accepts:
  "(\<exists>c. parse_cloud_config lib rng pos toml_from_str (Inr text) = Inr c) \<longleftrightarrow>
     (\<exists>t. toml_from_str text = Inr t \<and> valid_config t)"
  using build_cloud_iff by (fastforce simp: parse_cloud_config_def)

text \<open>
  C2. An accepted configuration becomes a well-formed cloud that keeps the declarations: every
  server keeps its declared fields, has its own inbounds (the whole inbound-set if it declared
  none) followed by the supervisor inbound, a subscription identifier for each of them, the
  connection data for its state, no panel token and no panel client; the monitoring interval is
  raised to the minimum and the other settings are kept.
\<close>

theorem parse_cloud_config_result:
  assumes "parse_cloud_config lib rng pos toml_from_str (Inr text) = Inr c"
  shows "well_formed_cloud c \<and> (\<exists>t. toml_from_str text = Inr t
     \<and> list_all2 (ready_server lib (settings t)) (servers t) (servers c)
     \<and> settings c = (settings t)\<lparr>monitor_interval := max (monitor_interval (settings t)) MIN_MON_INTERVAL\<rparr>)"
  using assms build_cloud_result unfolding parse_cloud_config_def by fastforce

lemma demo_config_valid: "valid_config demo_config"
  by (simp add: valid_config_def valid_inbound_set_def valid_server_def unique_servers_def
      valid_inbounds_def inbound_nps_def effective_inbounds_def subdomains_of_def is_proper_def
      is_proper_subdomain_def alnum_def ascii_defs demo_defs super_name_def reserved_ports_def port_defs
      word_less_nat_alt)

theorem parse_cloud_config_result_witness:
  "\<exists>c. parse_cloud_config demo_crates demo_rng 0 (\<lambda>_. Inr demo_config) (Inr ''text'') = Inr c
     \<and> well_formed_cloud c \<and> length (servers c) = 2"
proof -
  obtain c where c: "parse_cloud_config demo_crates demo_rng 0 (\<lambda>_. Inr demo_config) (Inr ''text'') = Inr c"
    using build_cloud_iff demo_config_valid by (fastforce simp: parse_cloud_config_def)
  from parse_cloud_config_result [OF c] show ?thesis
    using c by (auto dest!: list_all2_lengthD simp: demo_config_def)
qed

end
