(* ===== verification/Cloudflare_State.thy ===== *)
theory Cloudflare_State
  imports Cloud_Config
begin

text \<open>
  \<^verbatim>\<open>src/cloudflare.rs\<close>: the zone a server's domain belongs to, the ruleset, the rule and the list
  the program looks up or creates at Cloudflare, and the state \<open>CFState\<close> that a server keeps.

  Cloudflare is a remote service with a state \<open>'w\<close> of its own: every request is a field of
  \<open>CFApi\<close> that answers and moves that state on. The answer is the decoded response; a failed
  request, an error status and an undecodable body are \<open>External\<close> errors. Host names are
  ASCII, so lower-casing is ASCII lower-casing.
\<close>

record CFAccount =
  ac_id :: string
  ac_name :: string

record CFZone =
  zn_id :: string
  zn_name :: string
  zn_account :: CFAccount

record CFRule =
  ru_id :: string
  ru_action :: string
  ru_description :: string
  ru_enabled :: bool
  ru_expression :: string

record CFRuleSet =
  rs_id :: string
  rs_kind :: string
  rs_name :: string
  rs_phase :: string
  rs_rules :: "CFRule list"

record CFList =
  li_id :: string
  li_name :: string
  li_description :: string
  li_kind :: string
  li_num_items :: u32

record CFToken =
  tk_status :: string
  tk_id :: string

record 'a CFGetResponse =
  get_result :: "'a list"
  get_success :: bool

record 'a CFPostResponse =
  post_result :: 'a
  post_success :: bool

type_synonym ('w, 'a) request = "('w, BoxError, 'a) call"

record 'w CFApi =
  get_zones :: "('w, CFZone CFGetResponse) request"
  get_rulesets :: "string \<Rightarrow> ('w, CFRuleSet CFGetResponse) request"
  post_ruleset :: "string \<Rightarrow> ('w, CFRuleSet CFPostResponse) request"
  get_ruleset :: "string \<Rightarrow> string \<Rightarrow> ('w, CFRuleSet CFPostResponse) request"
  post_rule :: "string \<Rightarrow> string \<Rightarrow> ('w, CFRuleSet CFPostResponse) request"
  get_lists :: "string \<Rightarrow> ('w, CFList CFGetResponse) request"
  post_list :: "string \<Rightarrow> ('w, CFList CFPostResponse) request"
  verify_token :: "('w, CFToken CFPostResponse) request"

section \<open>Zones\<close>

definition lower_str :: "string \<Rightarrow> string" where
  "lower_str s = map (\<lambda>c. if ascii_uppercase (of_char c) then char_of (of_char c + 32 :: nat) else c) s"

text \<open>\<open>Iterator::max_by_key\<close> returns the last of several maximal elements.\<close>

fun last_max :: "('a \<Rightarrow> nat) \<Rightarrow> 'a list \<Rightarrow> 'a option" where
  "last_max f [] = None"
| "last_max f (x # xs) = (case last_max f xs of None \<Rightarrow> Some x | Some y \<Rightarrow> Some (if f x > f y then x else y))"

definition zone_matches :: "string \<Rightarrow> CFZone \<Rightarrow> bool" where
  "zone_matches domain_str z \<longleftrightarrow>
     (let zone_name = lower_str (zn_name z)
      in zone_name = domain_str \<or> ends_with (''.'' @ zone_name) domain_str)"

definition get_cf_zone :: "'w CFApi \<Rightarrow> KetServer \<Rightarrow> ('w, CFZone) request" where
  "get_cf_zone api s =
     via (get_zones api) (\<lambda>zone_res.
       let domain_str = lower_str (srv_domain s) in
       pure (ok_or (last_max (\<lambda>z. length (zn_name z)) (filter (zone_matches domain_str) (get_result zone_res)))
         (NoZone domain_str)))"

section \<open>Ruleset, rule and list\<close>

definition our_ruleset :: "CFRuleSet \<Rightarrow> bool" where
  "our_ruleset r \<longleftrightarrow> rs_kind r = ''zone'' \<and> rs_phase r = ''http_request_firewall_custom''"

definition get_cf_ruleset :: "'w CFApi \<Rightarrow> KetServer \<Rightarrow> string \<Rightarrow> ('w, string) request" where
  "get_cf_ruleset api s zid =
     via (get_rulesets api zid) (\<lambda>cf_rulesets.
       case find our_ruleset (get_result cf_rulesets) of
         Some ruleset \<Rightarrow> pure (Inr (rs_id ruleset))
       | None \<Rightarrow> via (post_ruleset api zid) (\<lambda>cf_ruleset. pure (Inr (rs_id (post_result cf_ruleset)))))"

definition our_rule :: "CFRule \<Rightarrow> bool" where
  "our_rule r \<longleftrightarrow> ru_action r = ''block'' \<and> ru_description r = ''xcplane-managed fail2ban rule'' \<and> ru_enabled r"

definition get_cf_rule :: "'w CFApi \<Rightarrow> KetServer \<Rightarrow> string \<Rightarrow> string \<Rightarrow> ('w, string) request" where
  "get_cf_rule api s zid rsid =
     via (get_ruleset api zid rsid) (\<lambda>cf_ruleset.
       case find our_rule (rs_rules (post_result cf_ruleset)) of
         Some rule \<Rightarrow> pure (Inr (ru_id rule))
       | None \<Rightarrow> via (post_rule api zid rsid) (\<lambda>cf_ruleset'.
           pure (and_then (ok_or (find our_rule (rs_rules (post_result cf_ruleset'))) (RuleNotCreated (srv_name s)))
             (\<lambda>rule. Inr (ru_id rule)))))"

definition our_list :: "CFList CFGetResponse \<Rightarrow> CFList \<Rightarrow> bool" where
  "our_list res l \<longleftrightarrow> li_description l = ''xcplane-managed blocklist'' \<and> li_kind l = ''ip'' \<and> get_success res"

text \<open>\<open>cloud.servers[0]\<close> panics on an empty cloud; the only caller has found a server before.\<close>

definition prepare_cf_list :: "'w CFApi \<Rightarrow> Cloud \<Rightarrow> ('w, string) request" where
  "prepare_cf_list api c =
     via (get_cf_zone api (servers c ! 0)) (\<lambda>cfzone.
     let account_id = ac_id (zn_account cfzone) in
     via (get_lists api account_id) (\<lambda>cf_lists.
       case find (our_list cf_lists) (get_result cf_lists) of
         Some l \<Rightarrow> pure (Inr (li_id l))
       | None \<Rightarrow> via (post_list api account_id) (\<lambda>cf_list. pure (Inr (li_id (post_result cf_list))))))"

definition test_cf_token :: "'w CFApi \<Rightarrow> ('w, unit) request" where
  "test_cf_token api =
     via (verify_token api) (\<lambda>verify_res.
       pure (ensure (post_success verify_res \<and> tk_status (post_result verify_res) = ''active'') InvalidToken))"

section \<open>The state of a server\<close>

definition monitored_inbounds :: "KetServer \<Rightarrow> Inbound list" where
  "monitored_inbounds s = filter (\<lambda>inb. inb_name inb \<noteq> super_name) (srv_inbounds s)"

definition cf_only :: "KetServer \<Rightarrow> bool" where
  "cf_only s =
     (let (ports, compatible) = foldl (\<lambda>(ports, compatible) inbound.
            (insert (inb_port inbound) ports,
             if \<not> cloudflare_compatible (inb_kind inbound) then False else compatible))
          ({}, True) (monitored_inbounds s)
      in ports \<subseteq> set CLOUDFLARE_SPORTS \<and> compatible)"

definition nested_subdomains :: "string \<Rightarrow> string \<Rightarrow> nat" where
  "nested_subdomains domain_str zname =
     (case strip_suffix zname domain_str of
        None \<Rightarrow> 0
      | Some s \<Rightarrow> (case strip_suffix ''.'' s of None \<Rightarrow> 0 | Some s' \<Rightarrow> length (split_at (CHR ''.'') s')))"

definition set_cf_state :: "'w CFApi \<Rightarrow> string option \<Rightarrow> KetServer \<Rightarrow> ('w, KetServer) request" where
  "set_cf_state api cf_list s =
     via (get_cf_zone api s) (\<lambda>cf_zone.
     let deep = nested_subdomains (lower_str (srv_domain s)) (zn_name cf_zone) > 0 in
     via (if srv_cloudflare_proxied s
          then via (get_cf_ruleset api s (zn_id cf_zone)) (\<lambda>ruleset_id.
               via (get_cf_rule api s (zn_id cf_zone) ruleset_id) (\<lambda>rule_id.
               via (pure (ok_or cf_list CfListMissing)) (\<lambda>list_id.
               pure (Inr (Some \<lparr>cl_account_name = ac_name (zn_account cf_zone),
                  cl_account_id = ac_id (zn_account cf_zone), cl_ruleset_id = ruleset_id,
                  cl_rule_id = rule_id, cl_list_id = list_id\<rparr>)))))
          else pure (Inr None)) (\<lambda>data.
     pure (Inr (s\<lparr>srv_cfstate := Some \<lparr>zone_name = zn_name cf_zone, zone_id = zn_id cf_zone,
       too_deep = deep, cloudflare_only = cf_only s, list_data = data\<rparr>\<rparr>))))"

text \<open>A failure to prepare the list is logged only; the old value of \<open>cf_list\<close> stays.\<close>

definition refresh_cf_list :: "'w CFApi \<Rightarrow> Cloud \<Rightarrow> string option \<Rightarrow> 'w \<Rightarrow> string option \<times> 'w" where
  "refresh_cf_list api c cf_list w =
     (if list_ex srv_cloudflare_proxied (servers c)
      then case prepare_cf_list api c w of (Inr lid, w') \<Rightarrow> (Some lid, w') | (Inl _, w') \<Rightarrow> (cf_list, w')
      else (cf_list, w))"

definition prepare_cloudflare_state ::
  "'w CFApi \<Rightarrow> Cloud \<Rightarrow> string option \<Rightarrow> ('w, Cloud \<times> string option) request" where
  "prepare_cloudflare_state api c cf_list w =
     (let (cf_list', w') = refresh_cf_list api c cf_list w in
      via (via_each (\<lambda>acc s. via (set_cf_state api cf_list' s) (\<lambda>s'. pure (Inr (acc @ [s'])))) [] (servers c))
        (\<lambda>ss. pure (Inr (c\<lparr>servers := ss\<rparr>, cf_list'))) w')"

section \<open>Lemmas\<close>

lemma last_max_None [simp]: "last_max f xs = None \<longleftrightarrow> xs = []"
  by (cases xs) (auto split: option.split)

lemma last_max_Some: "last_max f xs = Some y \<Longrightarrow> y \<in> set xs \<and> (\<forall>x \<in> set xs. f x \<le> f y)"
proof (induction xs arbitrary: y)
  case (Cons x xs)
  show ?case
  proof (cases "last_max f xs")
    case None
    with Cons.prems show ?thesis by simp
  next
    case (Some z)
    with Cons.IH [OF Some] Cons.prems show ?thesis
      by (cases "f z < f x") (auto intro: order_trans less_imp_le)
  qed
qed simp

lemma cf_only_iff:
  "cf_only s \<longleftrightarrow> (\<forall>inb \<in> set (srv_inbounds s). inb_name inb \<noteq> super_name \<longrightarrow>
     inb_port inb \<in> set CLOUDFLARE_SPORTS \<and> cloudflare_compatible (inb_kind inb))"
proof -
  have "foldl (\<lambda>(ports, compatible) inbound. (insert (inb_port inbound) ports,
           if \<not> cloudflare_compatible (inb_kind inbound) then False else compatible)) (P, b) xs
      = (P \<union> inb_port ` set xs, b \<and> (\<forall>i \<in> set xs. cloudflare_compatible (inb_kind i)))" for P b xs
    by (induction xs arbitrary: P b) auto
  note loop = this
  show ?thesis unfolding cf_only_def loop by (auto simp: monitored_inbounds_def)
qed

lemma strip_suffix_None: "strip_suffix p s = None \<longleftrightarrow> (\<forall>t. s \<noteq> t @ p)"
  by (metis not_None_eq strip_suffix_Some_iff)

lemma nested_pos_iff: "0 < nested_subdomains d z \<longleftrightarrow> ends_with (''.'' @ z) d"
proof -
  have "0 < nested_subdomains d z \<longleftrightarrow> (\<exists>t. strip_suffix z d = Some (t @ ''.''))"
    using strip_suffix_None by (auto simp: nested_subdomains_def ends_with_iff split: option.split)
  then show ?thesis by (auto simp: ends_with_iff)
qed

text \<open>What \<open>set_cf_state\<close> leaves in a server.\<close>

definition cf_ready :: "KetServer \<Rightarrow> KetServer \<Rightarrow> bool" where
  "cf_ready s s' \<longleftrightarrow> (case srv_cfstate s' of None \<Rightarrow> False | Some cf \<Rightarrow>
     s' = s\<lparr>srv_cfstate := Some cf\<rparr>
     \<and> (too_deep cf \<longleftrightarrow> ends_with (''.'' @ zone_name cf) (lower_str (srv_domain s)))
     \<and> (cloudflare_only cf \<longleftrightarrow> list_all (\<lambda>inb. inb_port inb \<in> set CLOUDFLARE_SPORTS
           \<and> cloudflare_compatible (inb_kind inb)) (monitored_inbounds s))
     \<and> (list_data cf \<noteq> None \<longleftrightarrow> srv_cloudflare_proxied s))"

lemma set_cf_state_ready:
  assumes "set_cf_state api lst s w = (Inr s', w')"
  shows "cf_ready s s'"
proof -
  have only: "cf_only s = list_all (\<lambda>inb. inb_port inb \<in> set CLOUDFLARE_SPORTS
      \<and> cloudflare_compatible (inb_kind inb)) (monitored_inbounds s)"
    by (auto simp: cf_only_iff monitored_inbounds_def list_all_iff)
  show ?thesis
    using assms
    by (cases "srv_cloudflare_proxied s")
      (auto simp: set_cf_state_def result_simps nested_pos_iff only cf_ready_def Let_def)
qed

lemma set_cf_state_no_list:
  assumes "srv_cloudflare_proxied s" "set_cf_state api None s w = (r, w')"
  shows "\<exists>e. r = Inl e"
  using assms by (cases r) (auto simp: set_cf_state_def result_simps Let_def)

lemma via_each_all2:
  assumes "via_each (\<lambda>acc x. via (f x) (\<lambda>y. pure (Inr (acc @ [y])))) acc xs w = (Inr zs, w')"
    and "\<And>x y w w'. x \<in> set xs \<Longrightarrow> f x w = (Inr y, w') \<Longrightarrow> R x y"
  shows "\<exists>ys. zs = acc @ ys \<and> list_all2 R xs ys"
  using assms
proof (induction xs arbitrary: acc w)
  case (Cons x xs)
  from Cons.prems(1) obtain y w1 where y: "f x w = (Inr y, w1)"
    and rest: "via_each (\<lambda>acc x. via (f x) (\<lambda>y. pure (Inr (acc @ [y])))) (acc @ [y]) xs w1 = (Inr zs, w')"
    by (auto simp: result_simps)
  from Cons.IH [OF rest] Cons.prems(2) y show ?case by fastforce
qed simp

text \<open>
  The zone of a server is one of the account's zones, contains the server's domain, and no
  other zone that contains it has a longer name: the most specific zone wins. A domain outside
  every zone is an error.
\<close>

lemma get_cf_zone_most_specific:
  assumes "get_zones api w = (Inr res, w1)"
  shows "case get_cf_zone api s w of
     (Inr z, w2) \<Rightarrow> w2 = w1 \<and> z \<in> set (get_result res) \<and> zone_matches (lower_str (srv_domain s)) z
       \<and> (\<forall>y \<in> set (get_result res). zone_matches (lower_str (srv_domain s)) y \<longrightarrow> length (zn_name y) \<le> length (zn_name z))
   | (Inl e, w2) \<Rightarrow> w2 = w1 \<and> e = NoZone (lower_str (srv_domain s))
       \<and> (\<forall>y \<in> set (get_result res). \<not> zone_matches (lower_str (srv_domain s)) y)"
proof -
  let ?zs = "filter (zone_matches (lower_str (srv_domain s))) (get_result res)"
  show ?thesis
  proof (cases "last_max (\<lambda>z. length (zn_name z)) ?zs")
    case None
    then show ?thesis using assms by (simp add: get_cf_zone_def pure_def filter_empty_conv Let_def)
  next
    case (Some z)
    from last_max_Some [OF Some] Some assms show ?thesis
      by (auto simp: get_cf_zone_def pure_def Let_def)
  qed
qed

lemma prepare_ready:
  assumes "prepare_cloudflare_state api c lst w = (Inr (c', lst'), w')"
  shows "settings c' = settings c \<and> list_all2 cf_ready (servers c) (servers c')"
proof -
  from assms obtain l1 w1 ss w2 where
    each: "via_each (\<lambda>acc s. via (set_cf_state api l1 s) (\<lambda>s'. pure (Inr (acc @ [s'])))) [] (servers c) w1
        = (Inr ss, w2)" and c': "c' = c\<lparr>servers := ss\<rparr>"
    by (auto simp: prepare_cloudflare_state_def result_simps split: prod.splits)
  from via_each_all2 [OF each, of cf_ready] set_cf_state_ready show ?thesis
    by (fastforce simp: c')
qed

text \<open>
  C31. Preparing the Cloudflare states either fails or leaves every server of the cloud with a
  state and nothing else changed: the domain counts as too deep exactly when it is a proper
  subdomain of its zone, the server is Cloudflare-only exactly when all its own inbounds use
  Cloudflare's ports and compatible kinds, and list data are present exactly when the server
  asked for the proxy.
\<close>

theorem prepare_cloudflare_state_ready:
  assumes "prepare_cloudflare_state api c lst w = (Inr (c', lst'), w')"
  shows "settings c' = settings c \<and> list_all2 cf_ready (servers c) (servers c')"
  using assms by (rule prepare_ready)

text \<open>
  When a server asks for the Cloudflare proxy, the block list cannot be prepared and no list
  is known from before, the preparation of the whole cloud fails, although the failure to prepare
  the list is only logged.
\<close>

lemma list_failure_is_fatal:
  assumes "list_ex srv_cloudflare_proxied (servers c)" "prepare_cf_list api c w = (Inl e, w1)"
  shows "\<exists>e' w'. prepare_cloudflare_state api c None w = (Inl e', w')"
proof (cases "prepare_cloudflare_state api c None w")
  case (Pair r w')
  show ?thesis
  proof (cases r)
    case (Inr cl)
    obtain ss w2 where each: "via_each (\<lambda>acc s. via (set_cf_state api None s) (\<lambda>s'. pure (Inr (acc @ [s'])))) []
        (servers c) w1 = (Inr ss, w2)"
      using Pair Inr assms by (auto simp: prepare_cloudflare_state_def refresh_cf_list_def result_simps)
    have "list_all2 (\<lambda>s s'. \<not> srv_cloudflare_proxied s) (servers c) ss"
      using via_each_all2 [OF each, of "\<lambda>s s'. \<not> srv_cloudflare_proxied s"] set_cf_state_no_list by fastforce
    then have "\<not> list_ex srv_cloudflare_proxied (servers c)"
      by (induction rule: list_all2_induct) auto
    then show ?thesis using assms(1) by simp
  qed (simp add: Pair)
qed

section \<open>A concrete account\<close>

text \<open>An account with nested zones in which the program's objects exist.\<close>

definition demo_zone :: "string \<Rightarrow> CFZone" where
  "demo_zone nm = \<lparr>zn_id = ''id-'' @ nm, zn_name = nm, zn_account = \<lparr>ac_id = ''acc'', ac_name = ''me''\<rparr>\<rparr>"

definition demo_ruleset :: CFRuleSet where
  "demo_ruleset = \<lparr>rs_id = ''rs'', rs_kind = ''zone'', rs_name = ''xcplane'',
     rs_phase = ''http_request_firewall_custom'',
     rs_rules = [\<lparr>ru_id = ''ru'', ru_action = ''block'', ru_description = ''xcplane-managed fail2ban rule'',
       ru_enabled = True, ru_expression = []\<rparr>]\<rparr>"

definition demo_api :: "unit CFApi" where
  "demo_api = \<lparr>
     get_zones = pure (Inr \<lparr>get_result = [demo_zone ''one.org'', demo_zone ''two.org'', demo_zone ''org''],
       get_success = True\<rparr>),
     get_rulesets = (\<lambda>_. pure (Inr \<lparr>get_result = [demo_ruleset], get_success = True\<rparr>)),
     post_ruleset = (\<lambda>_. pure (Inl (External ''post''))),
     get_ruleset = (\<lambda>_ _. pure (Inr \<lparr>post_result = demo_ruleset, post_success = True\<rparr>)),
     post_rule = (\<lambda>_ _. pure (Inl (External ''post''))),
     get_lists = (\<lambda>_. pure (Inl (External ''forbidden''))),
     post_list = (\<lambda>_. pure (Inl (External ''post''))),
     verify_token = pure (Inr \<lparr>post_result = \<lparr>tk_status = ''active'', tk_id = []\<rparr>, post_success = True\<rparr>)\<rparr>"

lemmas demo_cf_defs = demo_zone_def demo_ruleset_def demo_api_def demo_defs

lemmas cf_defs = get_cf_zone_def get_cf_ruleset_def get_cf_rule_def prepare_cf_list_def set_cf_state_def
  refresh_cf_list_def prepare_cloudflare_state_def zone_matches_def lower_str_def our_ruleset_def
  our_rule_def our_list_def nested_subdomains_def via_def pure_def Let_def

theorem get_cf_zone_most_specific_witness:
  "get_cf_zone demo_api (demo_server ''x'' 1 ''a.one.org'' Offgrid) () = (Inr (demo_zone ''one.org''), ())"
  using get_cf_zone_most_specific [of demo_api "()" "\<lparr>get_result = [demo_zone ''one.org'', demo_zone ''two.org'',
    demo_zone ''org''], get_success = True\<rparr>" "()" "demo_server ''x'' 1 ''a.one.org'' Offgrid"]
  by (simp add: cf_defs demo_cf_defs ends_with_def ascii_defs)

definition demo_prepared :: "string option \<Rightarrow> (Cloud \<times> string option) res \<times> unit" where
  "demo_prepared lst = prepare_cloudflare_state demo_api
     (update_server ''one'' (\<lambda>s. s\<lparr>srv_cloudflare_proxied := True\<rparr>) demo_config) lst ()"

theorem prepare_cloudflare_state_ready_witness:
  "\<exists>c. demo_prepared (Some ''known'') = (Inr (c, Some ''known''), ()) \<and> settings c = demo_settings
     \<and> list_all2 cf_ready (servers (update_server ''one'' (\<lambda>s. s\<lparr>srv_cloudflare_proxied := True\<rparr>) demo_config)) (servers c)"
proof -
  have "\<exists>c. demo_prepared (Some ''known'') = (Inr (c, Some ''known''), ())"
    unfolding demo_prepared_def by (simp add: cf_defs demo_cf_defs ends_with_def ascii_defs)
  then obtain c where c: "demo_prepared (Some ''known'') = (Inr (c, Some ''known''), ())" ..
  from prepare_cloudflare_state_ready [OF this [unfolded demo_prepared_def]] c show ?thesis
    by (auto simp: demo_config_def)
qed

theorem list_failure_is_fatal_witness: "\<exists>e w. demo_prepared None = (Inl e, w)"
  unfolding demo_prepared_def
  by (rule list_failure_is_fatal [of _ demo_api "()" "External ''forbidden''" "()"])
    (simp_all add: cf_defs demo_cf_defs ends_with_def ascii_defs)

end
