(* ===== verification/Reconcile.thy ===== *)
theory Reconcile
  imports Cloudflare_State
begin

text \<open>
  \<^verbatim>\<open>src/cloud/reconcile.rs\<close>: merging the running cloud with the declared one in the modes Reload,
  Remap and Rebase, the remote actions a Rebase deploys, and the comparison that precedes a Rebase.

  The order in which a hash table is walked is an argument (\<open>order\<close>, \<open>iorder\<close>). The file system
  is the argument \<open>rm_dir\<close> (what removing a server's directory answers), the remote runs are
  \<open>run\<close> (does the run of these actions on this server succeed) and \<open>sched\<close> (in which order the
  spawned runs finish).
\<close>

section \<open>Merging one server\<close>

definition reload_merge :: "KetServer \<Rightarrow> KetServer \<Rightarrow> (string \<times> u16) set \<Rightarrow> KetServer res" where
  "reload_merge old new new_cloud_inbounds =
     (case (srv_state old, srv_state new) of
        (Offgrid, Offgrid) \<Rightarrow> Inr new
      | _ \<Rightarrow>
          (let server_inbounds = foldl (\<lambda>hs inb. if inb_name inb \<noteq> super_name
                 then insert (inb_name inb, inb_port inb) hs else hs) {} (srv_inbounds old)
           in if \<not> server_inbounds \<subseteq> new_cloud_inbounds
              then Inl (ReloadInboundsMissing (srv_name old))
              else Inr (old\<lparr>srv_enabled := srv_enabled new\<rparr>)))"

definition remap_merge :: "KetServer \<Rightarrow> KetServer \<Rightarrow> KetServer" where
  "remap_merge old new = new\<lparr>srv_secrets := srv_secrets old\<rparr>"

definition rebase_secrets :: "Secrets \<Rightarrow> Secrets \<Rightarrow> Secrets" where
  "rebase_secrets old new =
     old\<lparr>health_path := health_path new, mother_subids := mother_subids new ++ mother_subids old\<rparr>"

definition rebase_conn :: "AnsibleConn option \<Rightarrow> AnsibleConn option \<Rightarrow> AnsibleConn res" where
  "rebase_conn old new =
     and_then (ok_or new NewConnMissing) (\<lambda>new_conn.
     and_then (ok_or old OldConnMissing) (\<lambda>old_conn.
     Inr (old_conn\<lparr>ansible_host := ansible_host new_conn\<rparr>)))"

definition rebase_merge :: "KetServer \<Rightarrow> KetServer \<Rightarrow> KetServer res" where
  "rebase_merge old new =
     (case (srv_enabled new, srv_state old, srv_state new) of
        (True, Production, Production) \<Rightarrow>
          and_then (rebase_conn (srv_ansible_conn old) (srv_ansible_conn new)) (\<lambda>conn.
          Inr (new\<lparr>srv_secrets := rebase_secrets (srv_secrets old) (srv_secrets new),
                   srv_ansible_conn := Some conn\<rparr>))
      | (False, Production, Production) \<Rightarrow> Inr (old\<lparr>srv_enabled := False\<rparr>)
      | (_, _, Offgrid) \<Rightarrow> Inr (remap_merge old new)
      | (_, Offgrid, Production) \<Rightarrow> Inl (RebaseToProduction (srv_name old)))"

section \<open>Remote actions of a Rebase\<close>

definition cf_of :: "KetServer \<Rightarrow> CFState res" where
  "cf_of s = ok_or (srv_cfstate s) CfStateMissing"

definition spec_actions :: "KetServer \<Rightarrow> KetServer \<Rightarrow> AnsibleAction list" where
  "spec_actions old new =
     (if show_ip (srv_ip old) \<noteq> show_ip (srv_ip new) then [Cloudflare] else [])
     @ (if srv_domain old \<noteq> srv_domain new
        then [DnsReset, CloudflareDel, Cloudflare, Acme, NginxSetup, DoH] else [])
     @ (if srv_dns_subdomain old \<noteq> srv_dns_subdomain new
        then [DnsReset, CloudflareDel, Cloudflare, NginxSetup, DoH] else [])
     @ (if srv_ui_subdomain old \<noteq> srv_ui_subdomain new
        then [CloudflareDel, Cloudflare, NginxSetup] else [])
     @ (if srv_sub_subdomain old \<noteq> srv_sub_subdomain new
        then [CloudflareDel, Cloudflare, NginxSetup, XuiAuth, PanelSettings] else [])
     @ (if srv_ssh_port old \<noteq> srv_ssh_port new then [PortsCheck, SSH, Fail2ban] else [])"

definition proxy_actions :: "KetServer \<Rightarrow> KetServer \<Rightarrow> CFState \<Rightarrow> CFState \<Rightarrow> AnsibleAction list" where
  "proxy_actions old new old_cf new_cf =
     (if srv_cloudflare_proxied old \<noteq> srv_cloudflare_proxied new
         \<or> cloudflare_only old_cf \<noteq> cloudflare_only new_cf
      then [Cloudflare, NginxSetup, Fail2ban, Firewall] else [])
     @ (if set (srv_outbound_block old) \<noteq> set (srv_outbound_block new) then [OutblockedUpdate] else [])"

definition inbound_actions :: "RebaseData option \<Rightarrow> AnsibleAction list" where
  "inbound_actions rebase_data = (case rebase_data of None \<Rightarrow> [] | Some rebase \<Rightarrow>
     (if removed_inbounds rebase \<noteq> [] then [XuiAuth, DelInbound] else [])
     @ (if added_inbounds rebase \<noteq> [] then [PortsCheck, XuiAuth, AddInbound] else []))"

definition rebase_actions :: "KetServer \<Rightarrow> KetServer \<Rightarrow> RebaseData option \<Rightarrow> AnsibleAction list res" where
  "rebase_actions old new rebase_data =
     and_then (cf_of old) (\<lambda>old_cf. and_then (cf_of new) (\<lambda>new_cf.
     Inr (sort_unique (spec_actions old new @ proxy_actions old new old_cf new_cf
       @ inbound_actions rebase_data))))"

record RebaseJob =
  job_server :: KetServer
  job_actions :: "AnsibleAction list"
  job_data :: "RebaseData option"

type_synonym RemoteRun = "KetServer \<Rightarrow> AnsibleAction list \<Rightarrow> RebaseData option \<Rightarrow> bool res"

text \<open>A pair names the merged server, which lives in the cloud that is being built.\<close>

definition plan_job ::
  "(string \<rightharpoonup> RebaseData) \<Rightarrow> Cloud \<Rightarrow> RebaseJob list \<Rightarrow> KetServer \<Rightarrow> RebaseJob list res" where
  "plan_job hm c jobs old =
     (case find_server (srv_name old) c of
        None \<Rightarrow> Inl MergeImpossible
      | Some new \<Rightarrow>
          and_then (rebase_actions old new (hm (srv_name old))) (\<lambda>actions.
          Inr (if actions \<noteq> []
               then jobs @ [\<lparr>job_server = new, job_actions = actions, job_data = hm (srv_name old)\<rparr>]
               else jobs)))"

definition finish_job :: "RemoteRun \<Rightarrow> Cloud \<Rightarrow> RebaseJob \<Rightarrow> Cloud res" where
  "finish_job run c job =
     (let s = job_server job in
      and_then (run s (job_actions job) (job_data job)) (\<lambda>success.
      and_then (ensure success (RebaseFailed (srv_name s))) (\<lambda>_.
      and_then (ok_or (srv_ansible_conn s) (ConnMissing (srv_name s))) (\<lambda>old_conn.
      Inr (update_server (srv_name s) (\<lambda>t. t\<lparr>srv_ansible_conn := Some
        \<lparr>ansible_host = ansible_host old_conn, ansible_port = Some (srv_ssh_port s),
         ansible_user = ansible_user old_conn, ansible_connection = None\<rparr>\<rparr>) c)))))"

definition deploy_rebase ::
  "RemoteRun \<Rightarrow> (RebaseJob list \<Rightarrow> RebaseJob list) \<Rightarrow> KetServer list \<Rightarrow> (string \<rightharpoonup> RebaseData) \<Rightarrow> Cloud \<Rightarrow> Cloud res" where
  "deploy_rebase run sched olds hm c =
     and_then (try_fold (plan_job hm c) [] olds) (\<lambda>jobs. try_fold (finish_job run) c (sched jobs))"

section \<open>Merging the clouds\<close>

record MergeState =
  ms_domains :: "Host set"
  ms_ips :: "IpAddr set"
  ms_merged :: "KetServer list"
  ms_rebase :: "KetServer list"

definition by_name :: "Cloud \<Rightarrow> string \<rightharpoonup> KetServer" where
  "by_name c = map_of (rev (map (\<lambda>s. (srv_name s, s)) (servers c)))"

definition delete_round ::
  "(string \<Rightarrow> unit res) \<Rightarrow> Cloud \<Rightarrow> Cloud \<Rightarrow> MergeState \<Rightarrow> string \<Rightarrow> MergeState res" where
  "delete_round rm_dir old new st nm =
     (case (by_name old nm, by_name new nm) of
        (Some s, None) \<Rightarrow>
          and_then (rm_dir nm) (\<lambda>_.
          Inr (st\<lparr>ms_domains := ms_domains st - {srv_domain s}, ms_ips := ms_ips st - {srv_ip s}\<rparr>))
      | _ \<Rightarrow> Inr st)"

definition add_server :: "ReconMode \<Rightarrow> MergeState \<Rightarrow> KetServer \<Rightarrow> MergeState res" where
  "add_server mode st s =
     and_then (seen_insert (NewDomainUsed mode (srv_name s)) (ms_domains st) (srv_domain s)) (\<lambda>domains.
     and_then (seen_insert (NewIpUsed mode (srv_name s)) (ms_ips st) (srv_ip s)) (\<lambda>ips.
     Inr (st\<lparr>ms_domains := domains, ms_ips := ips, ms_merged := ms_merged st @ [s]\<rparr>)))"

definition merge_server :: "ReconMode \<Rightarrow> (string \<times> u16) set \<Rightarrow> KetServer \<Rightarrow> KetServer \<Rightarrow> KetServer res" where
  "merge_server mode new_nps old new =
     (case mode of
        Reload \<Rightarrow> reload_merge old new new_nps
      | Remap \<Rightarrow> Inr (remap_merge old new)
      | Rebase \<Rightarrow> rebase_merge old new)"

definition update_round ::
  "ReconMode \<Rightarrow> Cloud \<Rightarrow> Cloud \<Rightarrow> MergeState \<Rightarrow> string \<Rightarrow> MergeState res" where
  "update_round mode old new st nm =
     (case (by_name old nm, by_name new nm) of
        (None, Some s) \<Rightarrow> add_server mode st s
      | (Some old_s, Some new_s) \<Rightarrow>
          and_then (merge_server mode (inbound_nps (inbound_set (settings new))) old_s new_s) (\<lambda>merged.
          Inr (st\<lparr>ms_merged := ms_merged st @ [merged],
                  ms_rebase := (if mode = Rebase \<and> srv_state new_s = Production
                                then ms_rebase st @ [old_s] else ms_rebase st)\<rparr>))
      | (Some _, None) \<Rightarrow> Inr st
      | (None, None) \<Rightarrow> Inl MergeImpossible)"

definition merge_clouds ::
  "(string \<Rightarrow> unit res) \<Rightarrow> string list \<Rightarrow> ReconMode \<Rightarrow> Cloud \<Rightarrow> Cloud \<Rightarrow> (Cloud \<times> KetServer list) res" where
  "merge_clouds rm_dir order mode old new =
     (let st0 = \<lparr>ms_domains = srv_domain ` set (servers old), ms_ips = srv_ip ` set (servers old),
                 ms_merged = [], ms_rebase = []\<rparr> in
      and_then (try_fold (delete_round rm_dir old new) st0 order) (\<lambda>st1.
      and_then (try_fold (update_round mode old new) st1 order) (\<lambda>st2.
      Inr (\<lparr>servers = ms_merged st2, settings = settings new\<rparr>, ms_rebase st2))))"

definition reconcile_cloud ::
  "'w CFApi \<Rightarrow> (string \<Rightarrow> unit res) \<Rightarrow> RemoteRun \<Rightarrow> (RebaseJob list \<Rightarrow> RebaseJob list) \<Rightarrow> string list
    \<Rightarrow> Cloud \<Rightarrow> Cloud \<Rightarrow> ReconMode \<Rightarrow> string option \<Rightarrow> (string \<rightharpoonup> RebaseData) option
    \<Rightarrow> ('w, Cloud \<times> string option) request" where
  "reconcile_cloud api rm_dir run sched order old new mode cf_list rebase_data_opt =
     (if servers old = [] then prepare_cloudflare_state api new cf_list
      else via (pure (merge_clouds rm_dir order mode old new)) (\<lambda>(final_cloud, to_rebase).
           via (prepare_cloudflare_state api final_cloud cf_list) (\<lambda>(prepared, cf_list').
           if mode = Rebase
           then pure (and_then (ok_or rebase_data_opt RebaseDataEmpty) (\<lambda>hm.
                      and_then (deploy_rebase run sched to_rebase hm prepared) (\<lambda>c. Inr (c, cf_list'))))
           else pure (Inr (prepared, cf_list')))))"

section \<open>Comparison before a Rebase\<close>

definition tls_kind :: "InboundKind \<Rightarrow> bool" where
  "tls_kind k \<longleftrightarrow> (case k of VlessGrpcTls \<Rightarrow> True | VlessWsTls \<Rightarrow> True | VlessXhttpTls \<Rightarrow> True | _ \<Rightarrow> False)"

definition inbounds_by_name :: "KetServer \<Rightarrow> string \<rightharpoonup> Inbound" where
  "inbounds_by_name s = map_of (map (\<lambda>i. (inb_name i, i)) (srv_inbounds s))"

definition compare_inbound ::
  "bool \<Rightarrow> KetServer \<Rightarrow> KetServer \<Rightarrow> Inbound list \<times> Inbound list \<Rightarrow> string
    \<Rightarrow> (Inbound list \<times> Inbound list) res" where
  "compare_inbound forced cur new acc nm =
     (let (added, removed) = acc in
      case (inbounds_by_name cur nm, inbounds_by_name new nm) of
        (Some c, Some n) \<Rightarrow>
          (if c = n
           then (if tls_kind (inb_kind c) \<and> subhostname cur \<noteq> subhostname new
                 then Inl (TlsInboundMoves (inb_name c) (srv_name cur)) else Inr acc)
           else Inl (InboundModified (srv_name new) (inb_name n)))
      | (Some c, None) \<Rightarrow> (if forced then Inr (added, removed @ [c]) else Inl (InboundDeleted (srv_name new)))
      | (None, Some n) \<Rightarrow> Inr (added @ [n], removed)
      | (None, None) \<Rightarrow> Inr acc)"

definition rebase_domain_of :: "KetServer \<Rightarrow> KetServer \<Rightarrow> RebaseDomain res" where
  "rebase_domain_of cur new =
     (let moved = srv_domain new \<noteq> srv_domain cur;
          dns = (if moved \<or> srv_dns_subdomain new \<noteq> srv_dns_subdomain cur then Some (dnshostname cur) else None);
          ui = (if moved \<or> srv_ui_subdomain new \<noteq> srv_ui_subdomain cur then Some (uihostname cur) else None);
          sub = (if moved \<or> srv_sub_subdomain new \<noteq> srv_sub_subdomain cur then Some (subhostname cur) else None)
      in and_then (if dns = None \<and> ui = None \<and> sub = None then Inr None
                   else and_then (cf_of cur) (\<lambda>cf. Inr (Some (zone_name cf)))) (\<lambda>zone.
         Inr \<lparr>rd_zone = zone, rd_dns = dns, rd_ui = ui, rd_sub = sub\<rparr>))"

record CompareState =
  cs_map :: "string \<rightharpoonup> RebaseData"
  cs_added :: "Inbound list"
  cs_removed :: "Inbound list"
  cs_domain :: "RebaseDomain option"

definition compare_server ::
  "bool \<Rightarrow> (string \<Rightarrow> string list) \<Rightarrow> Cloud \<Rightarrow> Cloud \<Rightarrow> CompareState \<Rightarrow> string \<Rightarrow> CompareState res" where
  "compare_server forced iorder curr_cloud new_cloud st nm =
     (case find_server nm new_cloud of None \<Rightarrow> Inr st | Some new \<Rightarrow>
      and_then (case find_server nm curr_cloud of
          None \<Rightarrow> Inr st
        | Some cur \<Rightarrow>
            and_then (try_fold (compare_inbound forced cur new) ([], []) (iorder nm)) (\<lambda>(added, removed).
            and_then (rebase_domain_of cur new) (\<lambda>rd.
            Inr (st\<lparr>cs_added := added, cs_removed := removed, cs_domain := Some rd\<rparr>)))) (\<lambda>st'.
      and_then (ok_or (cs_domain st') RebaseDomainMissing) (\<lambda>rd.
      Inr (st'\<lparr>cs_map := or_insert (cs_map st') nm
        \<lparr>added_inbounds = cs_added st', removed_inbounds = cs_removed st', rebase_domain = rd\<rparr>\<rparr>))))"

definition create_rebase_data ::
  "bool \<Rightarrow> string list \<Rightarrow> (string \<Rightarrow> string list) \<Rightarrow> Cloud \<Rightarrow> Cloud \<Rightarrow> (string \<rightharpoonup> RebaseData) res" where
  "create_rebase_data forced order iorder curr_cloud new_cloud =
     and_then (try_fold (compare_server forced iorder curr_cloud new_cloud)
       \<lparr>cs_map = Map.empty, cs_added = [], cs_removed = [], cs_domain = None\<rparr> order)
       (\<lambda>st. Inr (cs_map st))"

end
