(* ===== verification/Reconcile_Merge.thy ===== *)
theory Reconcile_Merge
  imports Reconcile
begin

text \<open>
  What the three reconciliation modes promise. The contract \<open>merge_contract\<close> states what every
  way of merging a running server with its declaration keeps; it is interpreted on the Reload,
  Remap and Rebase merges and on the dispatch over the mode, and the lemmas on whole clouds follow
  from it.
\<close>

section \<open>The contract of a merge\<close>

text \<open>The secrets a server keeps for life: all but the derived health path and the sub-identifiers.\<close>

definition credentials :: "KetServer \<Rightarrow> Secrets" where
  "credentials s = (srv_secrets s)\<lparr>health_path := [], mother_subids := Map.empty\<rparr>"

abbreviation subids :: "KetServer \<Rightarrow> string \<rightharpoonup> string" where
  "subids s \<equiv> mother_subids (srv_secrets s)"

locale merge_contract =
  fixes merge :: "KetServer \<Rightarrow> KetServer \<Rightarrow> KetServer res"
  assumes merge_name: "merge old new = Inr s \<Longrightarrow> srv_name old = srv_name new \<Longrightarrow> srv_name s = srv_name new"
    and merge_enabled: "merge old new = Inr s \<Longrightarrow> srv_enabled s = srv_enabled new"
    and merge_credentials: "merge old new = Inr s \<Longrightarrow> srv_state old = Production \<Longrightarrow> credentials s = credentials old"
    and merge_subids: "merge old new = Inr s \<Longrightarrow> srv_state old = Production \<Longrightarrow> subids old \<subseteq>\<^sub>m subids s"
begin

text \<open>A chain of merges, each with a later declaration, keeps the secrets and the name of a provisioned server.\<close>

lemma merge_chain:
  assumes "try_fold merge s0 ds = Inr s" "list_all (\<lambda>d. srv_name d = srv_name s0) ds"
    and "\<And>a d b. d \<in> set ds \<Longrightarrow> srv_state a = Production \<Longrightarrow> merge a d = Inr b \<Longrightarrow> srv_state b = Production"
    and "srv_state s0 = Production"
  shows "srv_name s = srv_name s0 \<and> credentials s = credentials s0 \<and> subids s0 \<subseteq>\<^sub>m subids s"
proof -
  let ?P = "\<lambda>s. srv_state s = Production \<and> srv_name s = srv_name s0 \<and> credentials s = credentials s0
    \<and> subids s0 \<subseteq>\<^sub>m subids s"
  have "?P s"
  proof (rule try_fold_invariant [where P = ?P, OF assms(1)])
    show "?P s0" using assms(4) by simp
    fix d a b
    assume d: "d \<in> set ds" and a: "?P a" and step: "merge a d = Inr b"
    have "srv_name a = srv_name d" using assms(2) d a by (auto simp: list_all_iff)
    then have "srv_name b = srv_name s0" using merge_name [OF step] a by simp
    moreover have "credentials b = credentials s0" using merge_credentials [OF step] a by simp
    moreover have "subids s0 \<subseteq>\<^sub>m subids b" using merge_subids [OF step] a map_le_trans by blast
    moreover have "srv_state b = Production" using assms(3) [OF d _ step] a by blast
    ultimately show "?P b" by blast
  qed
  then show ?thesis by blast
qed

end

section \<open>The three merges\<close>

lemma reload_inbounds_fold:
  "foldl (\<lambda>hs inb. if inb_name inb \<noteq> super_name then insert (inb_name inb, inb_port inb) hs else hs) H xs
    = H \<union> inbound_nps (filter (\<lambda>i. inb_name i \<noteq> super_name) xs)"
  by (induction xs arbitrary: H) (auto simp: inbound_nps_def)

lemma reload_merge_iff:
  "reload_merge old new nps = Inr s \<longleftrightarrow>
     (if srv_state old = Offgrid \<and> srv_state new = Offgrid then s = new
      else inbound_nps (monitored_inbounds old) \<subseteq> nps \<and> s = old\<lparr>srv_enabled := srv_enabled new\<rparr>)"
  by (auto simp: reload_merge_def reload_inbounds_fold monitored_inbounds_def split: ServerState.split)

lemma rebase_merge_iff:
  "rebase_merge old new = Inr s \<longleftrightarrow>
     (case (srv_state old, srv_state new) of
        (Production, Production) \<Rightarrow>
          (if srv_enabled new
           then (\<exists>oc nc. srv_ansible_conn old = Some oc \<and> srv_ansible_conn new = Some nc
             \<and> s = new\<lparr>srv_secrets := rebase_secrets (srv_secrets old) (srv_secrets new),
                       srv_ansible_conn := Some (oc\<lparr>ansible_host := ansible_host nc\<rparr>)\<rparr>)
           else s = old\<lparr>srv_enabled := False\<rparr>)
      | (_, Offgrid) \<Rightarrow> s = remap_merge old new
      | (Offgrid, Production) \<Rightarrow> False)"
  by (auto simp: rebase_merge_def rebase_conn_def split: ServerState.split bool.split)

interpretation reload: merge_contract "\<lambda>old new. reload_merge old new nps" for nps
  by unfold_locales (auto simp: reload_merge_iff credentials_def split: if_splits)

interpretation remap: merge_contract "\<lambda>old new. Inr (remap_merge old new)"
  by unfold_locales (auto simp: remap_merge_def credentials_def)

interpretation rebase: merge_contract rebase_merge
  by unfold_locales
    (auto simp: rebase_merge_iff remap_merge_def credentials_def rebase_secrets_def
        split: ServerState.splits if_splits)

lemma merge_server_cases:
  assumes "merge_server mode nps old new = Inr s"
  obtains "reload_merge old new nps = Inr s" | "s = remap_merge old new" | "rebase_merge old new = Inr s"
  using assms that by (cases mode) (simp_all add: merge_server_def)

interpretation dispatch: merge_contract "merge_server mode nps" for mode nps
proof unfold_locales
  fix old new s
  assume m: "merge_server mode nps old new = Inr s"
  show "srv_enabled s = srv_enabled new"
    by (rule merge_server_cases [OF m])
      (erule reload.merge_enabled, simp add: remap_merge_def, erule rebase.merge_enabled)
  show "srv_name s = srv_name new" if "srv_name old = srv_name new"
    by (rule merge_server_cases [OF m])
      (erule reload.merge_name [OF _ that], simp add: remap_merge_def, erule rebase.merge_name [OF _ that])
  show "credentials s = credentials old" if "srv_state old = Production"
    by (rule merge_server_cases [OF m])
      (erule reload.merge_credentials [OF _ that], simp add: remap_merge_def credentials_def,
       erule rebase.merge_credentials [OF _ that])
  show "subids old \<subseteq>\<^sub>m subids s" if "srv_state old = Production"
    by (rule merge_server_cases [OF m])
      (erule reload.merge_subids [OF _ that], simp add: remap_merge_def,
       erule rebase.merge_subids [OF _ that])
qed

section \<open>Merging whole clouds\<close>

lemma by_name_find:
  assumes "distinct (server_names c)"
  shows "by_name c nm = find_server nm c"
proof -
  have "map fst (map (\<lambda>s. (srv_name s, s)) (servers c)) = server_names c" by (simp add: comp_def)
  then have "by_name c = map_of (map (\<lambda>s. (srv_name s, s)) (servers c))"
    using assms unfolding by_name_def by (subst map_of_inject_set) (simp_all add: rev_map [symmetric] comp_def)
  moreover have "map_of (map (\<lambda>s. (srv_name s, s)) xs) nm = find (\<lambda>s. srv_name s = nm) xs" for xs
    by (induction xs) auto
  ultimately show ?thesis by (simp add: find_server_def)
qed

lemma by_name_Some: "by_name c nm = Some s \<Longrightarrow> s \<in> set (servers c) \<and> srv_name s = nm"
  unfolding by_name_def by (drule map_of_SomeD) auto

lemma by_name_None: "by_name c nm = None \<longleftrightarrow> nm \<notin> set (server_names c)"
  unfolding by_name_def by (auto simp: map_of_eq_None_iff image_iff)

text \<open>Where a server of the merged cloud comes from.\<close>

definition merged_from :: "ReconMode \<Rightarrow> Cloud \<Rightarrow> Cloud \<Rightarrow> KetServer \<Rightarrow> bool" where
  "merged_from mode old new y \<longleftrightarrow> (case by_name new (srv_name y) of None \<Rightarrow> False | Some n \<Rightarrow>
     (case by_name old (srv_name y) of
        None \<Rightarrow> y = n
      | Some ol \<Rightarrow> merge_server mode (inbound_nps (inbound_set (settings new))) ol n = Inr y))"

lemma update_round_step:
  assumes "update_round mode old new st nm = Inr st'"
  shows "(by_name new nm = None \<and> ms_merged st' = ms_merged st)
    \<or> (\<exists>y. ms_merged st' = ms_merged st @ [y] \<and> srv_name y = nm \<and> merged_from mode old new y
          \<and> by_name new nm \<noteq> None)"
proof (cases "by_name new nm")
  case None
  then show ?thesis using assms by (cases "by_name old nm") (auto simp: update_round_def)
next
  case (Some n)
  note n = by_name_Some [OF Some]
  show ?thesis
  proof (cases "by_name old nm")
    case None
    then show ?thesis
      using assms Some n by (auto simp: update_round_def add_server_def merged_from_def)
  next
    case (Some ol)
    note ol = by_name_Some [OF this]
    from assms \<open>by_name new nm = Some n\<close> Some obtain y where
      y: "merge_server mode (inbound_nps (inbound_set (settings new))) ol n = Inr y"
      "ms_merged st' = ms_merged st @ [y]" by (auto simp: update_round_def)
    have "srv_name y = nm" using dispatch.merge_name [OF y(1)] n ol by simp
    then show ?thesis using y Some \<open>by_name new nm = Some n\<close> by (simp add: merged_from_def)
  qed
qed

lemma update_rounds:
  assumes "try_fold (update_round mode old new) st order = Inr st'"
  shows "\<exists>ys. ms_merged st' = ms_merged st @ ys \<and> list_all (merged_from mode old new) ys
    \<and> map srv_name ys = filter (\<lambda>nm. by_name new nm \<noteq> None) order"
  using assms
proof (induction order arbitrary: st)
  case (Cons nm order)
  then obtain st1 where step: "update_round mode old new st nm = Inr st1"
    and rest: "try_fold (update_round mode old new) st1 order = Inr st'" by auto
  from Cons.IH [OF rest] update_round_step [OF step] show ?case by auto
qed simp

lemma merge_clouds_result:
  assumes "merge_clouds rm_dir order mode old new = Inr (c, todo)"
    and "is_walk order (set (server_names old) \<union> set (server_names new))"
  shows "settings c = settings new \<and> list_all (merged_from mode old new) (servers c)
    \<and> distinct (server_names c) \<and> set (server_names c) = set (server_names new)"
proof -
  from assms(1) obtain st1 st2 where
    st1: "try_fold (delete_round rm_dir old new) \<lparr>ms_domains = srv_domain ` set (servers old),
      ms_ips = srv_ip ` set (servers old), ms_merged = [], ms_rebase = []\<rparr> order = Inr st1"
    and st2: "try_fold (update_round mode old new) st1 order = Inr st2"
    and c: "c = \<lparr>servers = ms_merged st2, settings = settings new\<rparr>"
    by (auto simp: merge_clouds_def Let_def)
  have "ms_merged st1 = []"
    by (rule try_fold_invariant [where P = "\<lambda>st. ms_merged st = []", OF st1])
      (auto simp: delete_round_def split: option.splits)
  with update_rounds [OF st2] have "list_all (merged_from mode old new) (servers c)"
    and names: "server_names c = filter (\<lambda>nm. by_name new nm \<noteq> None) order"
    by (auto simp: c)
  moreover have "set (server_names c) = set (server_names new)" "distinct (server_names c)"
    using assms(2) by (auto simp: names is_walk_def by_name_None)
  ultimately show ?thesis by (simp add: c)
qed

section \<open>After the merge\<close>

text \<open>
  The Cloudflare state is computed anew in every mode; a deployed Rebase also stores the new
  connection port. Nothing else changes after the merge.
\<close>

definition linked :: "ReconMode \<Rightarrow> KetServer \<Rightarrow> KetServer \<Rightarrow> bool" where
  "linked mode s t \<longleftrightarrow>
     (if mode = Rebase then t = s\<lparr>srv_cfstate := srv_cfstate t, srv_ansible_conn := srv_ansible_conn t\<rparr>
      else t = s\<lparr>srv_cfstate := srv_cfstate t\<rparr>)"

lemma list_all2_map_update:
  "(\<And>x. R x (f x)) \<Longrightarrow> (\<And>x y z. R x y \<Longrightarrow> R y z \<Longrightarrow> R x z) \<Longrightarrow> list_all2 R xs ys \<Longrightarrow> list_all2 R xs (map f ys)"
  unfolding list_all2_conv_all_nth by (metis length_map nth_map)

definition conn_only :: "KetServer \<Rightarrow> KetServer \<Rightarrow> bool" where
  "conn_only s t \<longleftrightarrow> (\<exists>conn. t = s\<lparr>srv_ansible_conn := conn\<rparr>)"

lemma conn_only_refl [simp]: "conn_only s s"
  unfolding conn_only_def by (metis KetServer.surjective KetServer.update_convs(15))

lemma conn_only_update [simp]: "conn_only s (s\<lparr>srv_ansible_conn := conn\<rparr>)"
  unfolding conn_only_def by blast

lemma conn_only_trans: "conn_only s t \<Longrightarrow> conn_only t u \<Longrightarrow> conn_only s u"
  by (auto simp: conn_only_def)

lemma deploy_rebase_frame:
  assumes "deploy_rebase run sched olds hm c = Inr c'"
  shows "settings c' = settings c \<and> list_all2 conn_only (servers c) (servers c')"
proof -
  from assms obtain jobs where "try_fold (finish_job run) c (sched jobs) = Inr c'"
    by (auto simp: deploy_rebase_def)
  then show ?thesis
  proof (rule try_fold_invariant [where P = "\<lambda>d. settings d = settings c \<and> list_all2 conn_only (servers c) (servers d)"])
    show "settings c = settings c \<and> list_all2 conn_only (servers c) (servers c)"
      by (simp add: list_all2_same)
    fix job a b
    assume a: "settings a = settings c \<and> list_all2 conn_only (servers c) (servers a)"
      and step: "finish_job run a job = Inr b"
    from step obtain conn where b: "b = update_server (srv_name (job_server job))
        (\<lambda>t. t\<lparr>srv_ansible_conn := Some conn\<rparr>) a"
      by (auto simp: finish_job_def Let_def)
    have "list_all2 conn_only (servers c) (servers b)"
      unfolding b servers_update_server
    proof (rule list_all2_map_update [OF _ conn_only_trans])
      show "conn_only x (if srv_name x = srv_name (job_server job) then x\<lparr>srv_ansible_conn := Some conn\<rparr> else x)" for x
        by simp
      show "list_all2 conn_only (servers c) (servers a)" using a by blast
    qed
    then show "settings b = settings c \<and> list_all2 conn_only (servers c) (servers b)"
      using a by (simp add: b)
  qed
qed

lemma reconcile_result:
  assumes rec: "reconcile_cloud api rm_dir run sched order old new mode lst hm w = (Inr (c, lst'), w')"
    and "servers old \<noteq> []" and walk: "is_walk order (set (server_names old) \<union> set (server_names new))"
  shows "\<exists>m :: Cloud. settings c = settings new \<and> list_all (merged_from mode old new) (servers m)
    \<and> distinct (server_names m) \<and> set (server_names m) = set (server_names new)
    \<and> list_all2 (linked mode) (servers m) (servers c)"
proof -
  from rec assms(2) obtain m todo p l1 w1 where m: "merge_clouds rm_dir order mode old new = Inr (m, todo)"
    and p: "prepare_cloudflare_state api m lst w = (Inr (p, l1), w1)"
    and last: "if mode = Rebase then \<exists>h. deploy_rebase run sched todo h p = Inr c else c = p"
    by (cases "mode = Rebase") (fastforce simp: reconcile_cloud_def result_simps)+
  note pr = prepare_ready [OF p]
  note mr = merge_clouds_result [OF m walk]
  show ?thesis
  proof (cases "mode = Rebase")
    case False
    have "list_all2 (linked mode) (servers m) (servers p)"
      using pr by (auto elim!: list_all2_mono simp: cf_ready_def linked_def False split: option.splits)
    then show ?thesis using False last pr mr by auto
  next
    case True
    then obtain h where d: "deploy_rebase run sched todo h p = Inr c" using last by auto
    note dr = deploy_rebase_frame [OF d]
    have "list_all2 (linked mode) (servers m) (servers c)"
      by (rule list_all2_trans [OF _ pr [THEN conjunct2] dr [THEN conjunct2]])
        (auto simp: cf_ready_def conn_only_def linked_def True split: option.splits)
    then show ?thesis using dr pr mr by auto
  qed
qed

text \<open>The server of the reconciled cloud with a given name, and the merge it comes from.\<close>

lemma reconcile_server:
  assumes rec: "reconcile_cloud api rm_dir run sched order old new mode lst hm w = (Inr (c, lst'), w')"
    and ne: "servers old \<noteq> []" and walk: "is_walk order (set (server_names old) \<union> set (server_names new))"
    and t: "t \<in> set (servers c)"
  obtains s where "merged_from mode old new s" "linked mode s t" "srv_name s = srv_name t"
proof -
  from reconcile_result [OF rec ne walk] obtain m :: Cloud where
    m: "list_all (merged_from mode old new) (servers m)" "list_all2 (linked mode) (servers m) (servers c)" by blast
  from m(2) t obtain s where s: "s \<in> set (servers m)" "linked mode s t"
    by (metis in_set_conv_nth list_all2_conv_all_nth)
  from s(2) have "srv_name s = srv_name t" unfolding linked_def
    by (metis KetServer.select_convs(1) KetServer.surjective KetServer.update_convs(15) KetServer.update_convs(17))
  with s m(1) that show ?thesis by (auto simp: list_all_iff)
qed

lemma cf_ready_keeps: "cf_ready s t \<Longrightarrow> t = s\<lparr>srv_cfstate := srv_cfstate t\<rparr>"
  by (auto simp: cf_ready_def split: option.splits)

lemma list_all2_map_eq:
  assumes "list_all2 R xs ys" "\<And>x y. R x y \<Longrightarrow> f y = f x"
  shows "map f ys = map f xs"
  using assms(1) by (induction rule: list_all2_induct) (auto dest: assms(2))

lemma linked_fields:
  assumes "linked mode s t"
  shows "srv_name t = srv_name s" "srv_domain t = srv_domain s" "srv_ip t = srv_ip s"
    "srv_secrets t = srv_secrets s" "srv_enabled t = srv_enabled s" "credentials t = credentials s"
proof -
  from assms obtain cf conn where t: "t = s\<lparr>srv_cfstate := cf, srv_ansible_conn := conn\<rparr>"
    unfolding linked_def by (metis KetServer.surjective KetServer.update_convs(15,17))
  show "srv_name t = srv_name s" "srv_domain t = srv_domain s" "srv_ip t = srv_ip s"
    "srv_secrets t = srv_secrets s" "srv_enabled t = srv_enabled s" "credentials t = credentials s"
    by (simp_all add: t credentials_def)
qed

section \<open>Properties of reconciliation\<close>

text \<open>
  C3. In every mode the reconciled cloud has exactly the declared servers, each once, and the
  declared settings: servers that left the declaration are gone, new ones are there.
\<close>

theorem reconcile_declared_servers:
  assumes rec: "reconcile_cloud api rm_dir run sched order old new mode lst hm w = (Inr (c, lst'), w')"
    and walk: "is_walk order (set (server_names old) \<union> set (server_names new))"
    and uniq: "distinct (server_names new)"
  shows "settings c = settings new \<and> distinct (server_names c) \<and> set (server_names c) = set (server_names new)"
proof (cases "servers old = []")
  case True
  with rec have "prepare_cloudflare_state api new lst w = (Inr (c, lst'), w')" by (simp add: reconcile_cloud_def)
  from prepare_ready [OF this] have ready: "list_all2 cf_ready (servers new) (servers c)" and "settings c = settings new"
    by blast+
  moreover have "server_names c = server_names new"
    by (rule list_all2_map_eq [OF ready]) (drule cf_ready_keeps, metis KetServer.select_convs(1)
        KetServer.surjective KetServer.update_convs(17))
  ultimately show ?thesis using uniq by simp
next
  case False
  from reconcile_result [OF rec False walk] obtain m :: Cloud where m: "settings c = settings new"
    "distinct (server_names m)" "set (server_names m) = set (server_names new)"
    "list_all2 (linked mode) (servers m) (servers c)" by blast
  have "server_names c = server_names m"
    by (rule list_all2_map_eq [OF m(4)]) (rule linked_fields)
  with m show ?thesis by simp
qed

lemma reconciled_merge:
  assumes rec: "reconcile_cloud api rm_dir run sched order old new mode lst hm w = (Inr (c, lst'), w')"
    and walk: "is_walk order (set (server_names old) \<union> set (server_names new))"
    and uniq: "distinct (server_names old)" and ol: "ol \<in> set (servers old)" and t: "t \<in> set (servers c)"
    and same: "srv_name t = srv_name ol"
  obtains s n where "by_name new (srv_name ol) = Some n" "linked mode s t"
    "merge_server mode (inbound_nps (inbound_set (settings new))) ol n = Inr s"
proof -
  have ne: "servers old \<noteq> []" using ol by auto
  obtain s where s: "merged_from mode old new s" "linked mode s t" "srv_name s = srv_name t"
    by (rule reconcile_server [OF rec ne walk t])
  have "by_name old (srv_name ol) = Some ol"
    by (simp add: by_name_find [OF uniq] find_server_unique [OF uniq ol])
  with s same that show ?thesis by (auto simp: merged_from_def split: option.splits)
qed

text \<open>
  C4. A provisioned server keeps its credentials for life: whatever the mode, the panel user name
  and password, the token, the panel and subscription paths and the DNS endpoint of a Production
  server are the same after reconciliation, and no sub-identifier it had is lost or changed.
\<close>

theorem production_keeps_credentials:
  assumes rec: "reconcile_cloud api rm_dir run sched order old new mode lst hm w = (Inr (c, lst'), w')"
    and walk: "is_walk order (set (server_names old) \<union> set (server_names new))"
    and uniq: "distinct (server_names old)" and ol: "ol \<in> set (servers old)" "srv_state ol = Production"
    and t: "t \<in> set (servers c)" "srv_name t = srv_name ol"
  shows "credentials t = credentials ol \<and> subids ol \<subseteq>\<^sub>m subids t"
proof -
  obtain s n where s: "linked mode s t" "merge_server mode (inbound_nps (inbound_set (settings new))) ol n = Inr s"
    by (rule reconciled_merge [OF rec walk uniq ol(1) t])
  show ?thesis
    using dispatch.merge_credentials [OF s(2) ol(2)] dispatch.merge_subids [OF s(2) ol(2)] linked_fields [OF s(1)]
    by simp
qed

text \<open>
  C5. A Reload does not change a Production server: it comes out with every field as it was, except
  that it is enabled or disabled as declared and that its Cloudflare state is computed anew.
\<close>

theorem reload_keeps_production:
  assumes rec: "reconcile_cloud api rm_dir run sched order old new Reload lst hm w = (Inr (c, lst'), w')"
    and walk: "is_walk order (set (server_names old) \<union> set (server_names new))"
    and uniq: "distinct (server_names old)" and ol: "ol \<in> set (servers old)" "srv_state ol = Production"
    and t: "t \<in> set (servers c)" "srv_name t = srv_name ol"
  shows "\<exists>n \<in> set (servers new). srv_name n = srv_name ol
     \<and> t = ol\<lparr>srv_enabled := srv_enabled n, srv_cfstate := srv_cfstate t\<rparr>"
proof -
  obtain s n where s: "by_name new (srv_name ol) = Some n" "linked Reload s t"
    "merge_server Reload (inbound_nps (inbound_set (settings new))) ol n = Inr s"
    by (rule reconciled_merge [OF rec walk uniq ol(1) t])
  have "s = ol\<lparr>srv_enabled := srv_enabled n\<rparr>"
    using s(3) ol(2) by (simp add: merge_server_def reload_merge_iff)
  with s(2) have "t = ol\<lparr>srv_enabled := srv_enabled n, srv_cfstate := srv_cfstate t\<rparr>"
    by (simp add: linked_def)
  with by_name_Some [OF s(1)] show ?thesis by blast
qed

lemma distinct_map_transfer:
  assumes "distinct (map nm ts)" "distinct (map f ns)" "distinct (map nm ns)"
    and "\<And>t. t \<in> set ts \<Longrightarrow> \<exists>n \<in> set ns. nm n = nm t \<and> f n = f t"
  shows "distinct (map f ts)"
proof (subst distinct_map, intro conjI inj_onI)
  show "distinct ts" using assms(1) by (simp add: distinct_map)
  fix a b
  assume ab: "a \<in> set ts" "b \<in> set ts" "f a = f b"
  from assms(4) [OF ab(1)] assms(4) [OF ab(2)] obtain m n where
    mn: "m \<in> set ns" "nm m = nm a" "f m = f a" "n \<in> set ns" "nm n = nm b" "f n = f b" by blast
  have "m = n" using distinct_map_inj [OF assms(2) mn(1) mn(4)] mn ab(3) by simp
  with mn have "nm a = nm b" by simp
  then show "a = b" using distinct_map_inj [OF assms(1) ab(1,2)] by blast
qed

lemma reconciled_addresses:
  assumes rec: "reconcile_cloud api rm_dir run sched order old new Remap lst hm w = (Inr (c, lst'), w')"
    and walk: "is_walk order (set (server_names old) \<union> set (server_names new))"
    and t: "t \<in> set (servers c)"
  shows "\<exists>n \<in> set (servers new). srv_name n = srv_name t \<and> srv_domain n = srv_domain t \<and> srv_ip n = srv_ip t"
proof (cases "servers old = []")
  case True
  with rec have "prepare_cloudflare_state api new lst w = (Inr (c, lst'), w')" by (simp add: reconcile_cloud_def)
  from prepare_ready [OF this] t obtain n where n: "n \<in> set (servers new)" "cf_ready n t"
    by (metis in_set_conv_nth list_all2_conv_all_nth)
  from cf_ready_keeps [OF n(2)] have "linked Remap n t" by (simp add: linked_def)
  from linked_fields [OF this] n(1) show ?thesis by auto
next
  case False
  obtain s where s: "merged_from Remap old new s" "linked Remap s t" "srv_name s = srv_name t"
    by (rule reconcile_server [OF rec False walk t])
  then obtain n where n: "by_name new (srv_name s) = Some n"
    and m: "s = n \<or> (\<exists>ol. s = remap_merge ol n)"
    by (auto simp: merged_from_def merge_server_def split: option.splits)
  have "srv_domain s = srv_domain n" "srv_ip s = srv_ip n" "srv_name s = srv_name n"
    using m by (auto simp: remap_merge_def)
  with by_name_Some [OF n] linked_fields(1-3) [OF s(2)] show ?thesis by metis
qed

text \<open>
  C6. After a Remap the addresses are unique again: if the declaration has unique names, domains
  and addresses, so has the reconciled cloud.
\<close>

theorem remap_unique:
  assumes rec: "reconcile_cloud api rm_dir run sched order old new Remap lst hm w = (Inr (c, lst'), w')"
    and walk: "is_walk order (set (server_names old) \<union> set (server_names new))"
    and uniq: "unique_servers (servers new)"
  shows "unique_servers (servers c)"
proof -
  have names: "distinct (server_names c)"
  proof (cases "servers old = []")
    case True
    with rec have "prepare_cloudflare_state api new lst w = (Inr (c, lst'), w')" by (simp add: reconcile_cloud_def)
    from prepare_ready [OF this] have "list_all2 cf_ready (servers new) (servers c)" by blast
    then have "list_all2 (linked Remap) (servers new) (servers c)"
      by (rule list_all2_mono) (simp add: linked_def cf_ready_keeps)
    from list_all2_map_eq [OF this linked_fields(1)] show ?thesis using uniq by (simp add: unique_servers_def)
  next
    case False
    from reconcile_result [OF rec False walk] obtain m :: Cloud where m: "distinct (server_names m)"
      "list_all2 (linked Remap) (servers m) (servers c)" by blast
    from list_all2_map_eq [OF m(2) linked_fields(1)] m(1) show ?thesis by simp
  qed
  note u = uniq [unfolded unique_servers_def]
  have "distinct (map srv_domain (servers c))" "distinct (map srv_ip (servers c))"
    using reconciled_addresses [OF rec walk] u
    by (auto intro!: distinct_map_transfer [OF names, of _ "servers new"])
  with names show ?thesis by (simp add: unique_servers_def)
qed

section \<open>Concrete reconciliations\<close>

definition demo_ready :: "string \<Rightarrow> u8 \<Rightarrow> string \<Rightarrow> ServerState \<Rightarrow> KetServer" where
  "demo_ready nm b domain st = (demo_server nm b domain st)\<lparr>srv_inbounds := demo_set @ [super_inbound]\<rparr>"

definition demo_cloud :: "KetServer list \<Rightarrow> Cloud" where
  "demo_cloud ss = \<lparr>servers = ss, settings = demo_settings\<rparr>"

text \<open>The running cloud, and a declaration in which \<open>two\<close> takes over the domain that \<open>one\<close> gives up.\<close>

definition demo_old :: Cloud where
  "demo_old = demo_cloud [demo_ready ''one'' 1 ''one.org'' Production, demo_ready ''two'' 2 ''two.org'' Offgrid]"

definition demo_new :: Cloud where
  "demo_new = demo_cloud [demo_ready ''one'' 1 ''a.org'' Production, demo_ready ''two'' 2 ''one.org'' Offgrid]"

definition demo_reconcile :: "ReconMode \<Rightarrow> (Cloud \<times> string option) res \<times> unit" where
  "demo_reconcile mode = reconcile_cloud demo_api (\<lambda>_. Inr ()) (\<lambda>_ _ _. Inr True) (\<lambda>js. js)
     [''one'', ''two''] demo_old demo_new mode None None ()"

lemmas demo_merge_defs = demo_old_def demo_new_def demo_cloud_def demo_ready_def demo_cf_defs

lemma demo_walk: "is_walk [''one'', ''two''] (set (server_names demo_old) \<union> set (server_names demo_new))"
  by (auto simp: is_walk_def demo_merge_defs)

lemma demo_well_formed: "well_formed_cloud demo_old" "well_formed_cloud demo_new"
  by (simp_all add: well_formed_cloud_def well_formed_server_def valid_inbound_set_def unique_servers_def
      valid_inbounds_def inbound_nps_def subdomains_of_def is_proper_def is_proper_subdomain_def alnum_def
      ascii_defs demo_merge_defs super_name_def super_inbound_def reserved_ports_def port_defs
      word_less_nat_alt word_le_nat_alt MIN_MON_INTERVAL_def SVC_MON_INTERVAL_def SVC_TIMEOUT_def)

lemma demo_merge:
  "merge_clouds (\<lambda>_. Inr ()) [''one'', ''two''] Reload demo_old demo_new =
     Inr (demo_cloud [demo_ready ''one'' 1 ''one.org'' Production, demo_ready ''two'' 2 ''one.org'' Offgrid], [])"
  "merge_clouds (\<lambda>_. Inr ()) [''one'', ''two''] Remap demo_old demo_new = Inr (demo_new, [])"
  by (simp_all add: merge_clouds_def delete_round_def update_round_def by_name_def merge_server_def
      reload_merge_def remap_merge_def inbound_nps_def demo_merge_defs super_inbound_def super_name_def)

lemma demo_prepare:
  "\<exists>c. prepare_cloudflare_state demo_api (demo_cloud [demo_ready ''one'' 1 d1 Production,
     demo_ready ''two'' 2 d2 Offgrid]) None () = (Inr (c, None), ())"
  if "d1 \<in> {''one.org'', ''a.org''}" "d2 = ''one.org''"
  using that by (auto simp: cf_defs demo_merge_defs ends_with_def ascii_defs)

lemma demo_reconcile_ok:
  "\<exists>c. demo_reconcile Reload = (Inr (c, None), ())" "\<exists>c. demo_reconcile Remap = (Inr (c, None), ())"
proof -
  have ne: "servers demo_old \<noteq> []" by (simp add: demo_old_def demo_cloud_def)
  show "\<exists>c. demo_reconcile Reload = (Inr (c, None), ())"
    using demo_prepare [of "''one.org''" "''one.org''"]
    by (auto simp: demo_reconcile_def reconcile_cloud_def ne demo_merge via_def pure_def)
  show "\<exists>c. demo_reconcile Remap = (Inr (c, None), ())"
    using demo_prepare [of "''a.org''" "''one.org''", folded demo_new_def]
    by (auto simp: demo_reconcile_def reconcile_cloud_def ne demo_merge via_def pure_def)
qed

theorem reconcile_declared_servers_witness:
  "\<exists>c. demo_reconcile Reload = (Inr (c, None), ()) \<and> settings c = demo_settings
     \<and> distinct (server_names c) \<and> set (server_names c) = {''one'', ''two''}"
proof -
  obtain c where c: "demo_reconcile Reload = (Inr (c, None), ())" using demo_reconcile_ok(1) by blast
  have "distinct (server_names demo_new)" by (simp add: demo_merge_defs)
  from reconcile_declared_servers [OF c [unfolded demo_reconcile_def] demo_walk this] c show ?thesis
    by (auto simp: demo_merge_defs)
qed

lemma demo_old_facts:
  "distinct (server_names demo_old)" "demo_ready ''one'' 1 ''one.org'' Production \<in> set (servers demo_old)"
  "srv_state (demo_ready ''one'' 1 ''one.org'' Production) = Production"
  by (simp_all add: demo_merge_defs)

lemma demo_reload_one:
  obtains c t where "demo_reconcile Reload = (Inr (c, None), ())" "t \<in> set (servers c)"
    "srv_name t = srv_name (demo_ready ''one'' 1 ''one.org'' Production)"
proof -
  obtain c where c: "demo_reconcile Reload = (Inr (c, None), ())" using demo_reconcile_ok(1) by blast
  have ne: "servers demo_old \<noteq> []" by (simp add: demo_old_def demo_cloud_def)
  from reconcile_result [OF c [unfolded demo_reconcile_def] ne demo_walk] obtain m :: Cloud where
    m: "set (server_names m) = set (server_names demo_new)" "list_all2 (linked Reload) (servers m) (servers c)" by blast
  from list_all2_map_eq [OF m(2) linked_fields(1)] m(1) have "''one'' \<in> set (server_names c)"
    by (simp add: demo_merge_defs)
  then obtain t where "t \<in> set (servers c)" "srv_name t = ''one''" by auto
  with c that show ?thesis by (simp add: demo_ready_def demo_server_def)
qed

theorem production_keeps_credentials_witness:
  "\<exists>c t. demo_reconcile Reload = (Inr (c, None), ()) \<and> t \<in> set (servers c)
     \<and> credentials t = credentials (demo_ready ''one'' 1 ''one.org'' Production)"
proof -
  obtain c t where c: "demo_reconcile Reload = (Inr (c, None), ())" and t: "t \<in> set (servers c)"
    "srv_name t = srv_name (demo_ready ''one'' 1 ''one.org'' Production)" by (rule demo_reload_one)
  from production_keeps_credentials [OF c [unfolded demo_reconcile_def] demo_walk demo_old_facts t] c t
  show ?thesis by blast
qed

theorem reload_keeps_production_witness:
  "\<exists>c t. demo_reconcile Reload = (Inr (c, None), ()) \<and> t \<in> set (servers c) \<and> srv_domain t = ''one.org''"
proof -
  obtain c t where c: "demo_reconcile Reload = (Inr (c, None), ())" and t: "t \<in> set (servers c)"
    "srv_name t = srv_name (demo_ready ''one'' 1 ''one.org'' Production)" by (rule demo_reload_one)
  from reload_keeps_production [OF c [unfolded demo_reconcile_def] demo_walk demo_old_facts t] obtain e cf where
    "t = (demo_ready ''one'' 1 ''one.org'' Production)\<lparr>srv_enabled := e, srv_cfstate := cf\<rparr>" by blast
  with c t show ?thesis by (auto simp: demo_merge_defs)
qed

theorem remap_unique_witness:
  "\<exists>c. demo_reconcile Remap = (Inr (c, None), ()) \<and> unique_servers (servers c)"
proof -
  obtain c where c: "demo_reconcile Remap = (Inr (c, None), ())" using demo_reconcile_ok(2) by blast
  have "unique_servers (servers demo_new)" using demo_well_formed(2) by (simp add: well_formed_cloud_def)
  from remap_unique [OF c [unfolded demo_reconcile_def] demo_walk this] c show ?thesis by blast
qed

text \<open>
  C39. A Reload can give two servers the same domain: there are a well-formed running cloud and a
  well-formed declaration whose reconciliation succeeds with a cloud in which two servers share
  their domain. Only servers that are new to the cloud are compared with the domains in use; a
  server that stays Offgrid takes its new domain unchecked while a Production server keeps its old one.
\<close>

theorem reload_can_duplicate_domains:
  "well_formed_cloud demo_old \<and> well_formed_cloud demo_new
   \<and> (\<exists>c. reconcile_cloud demo_api (\<lambda>_. Inr ()) (\<lambda>_ _ _. Inr True) (\<lambda>js. js) [''one'', ''two'']
            demo_old demo_new Reload None None () = (Inr (c, None), ())
       \<and> map srv_domain (servers c) = [''one.org'', ''one.org''])"
proof (intro conjI demo_well_formed)
  obtain c where c: "demo_reconcile Reload = (Inr (c, None), ())" using demo_reconcile_ok(1) by blast
  have ne: "servers demo_old \<noteq> []" by (simp add: demo_old_def demo_cloud_def)
  from c have "prepare_cloudflare_state demo_api (demo_cloud [demo_ready ''one'' 1 ''one.org'' Production,
      demo_ready ''two'' 2 ''one.org'' Offgrid]) None () = (Inr (c, None), ())"
    by (simp add: demo_reconcile_def reconcile_cloud_def ne demo_merge result_simps)
  from prepare_ready [OF this] have "list_all2 (linked Reload) [demo_ready ''one'' 1 ''one.org'' Production,
      demo_ready ''two'' 2 ''one.org'' Offgrid] (servers c)"
    by (auto elim!: list_all2_mono simp: demo_cloud_def linked_def cf_ready_keeps)
  from list_all2_map_eq [OF this linked_fields(2)] have "map srv_domain (servers c) = [''one.org'', ''one.org'']"
    by (simp add: demo_merge_defs)
  with c show "\<exists>c. reconcile_cloud demo_api (\<lambda>_. Inr ()) (\<lambda>_ _ _. Inr True) (\<lambda>js. js) [''one'', ''two'']
            demo_old demo_new Reload None None () = (Inr (c, None), ())
       \<and> map srv_domain (servers c) = [''one.org'', ''one.org'']"
    by (auto simp: demo_reconcile_def)
qed

end
