(* ===== verification/Rebase_Plan.thy ===== *)
theory Rebase_Plan
  imports Reconcile_Merge "HOL-Library.Multiset"
begin

text \<open>
  The remote side of a Rebase: which actions are planned for a server, that the order in which the
  parallel runs finish does not matter, and what the comparison before a Rebase records.
\<close>

section \<open>Planned actions\<close>

lemma rebase_actions_set:
  assumes "rebase_actions old new rd = Inr acts"
  obtains ocf ncf where "srv_cfstate old = Some ocf" "srv_cfstate new = Some ncf"
    "acts = sort_unique (spec_actions old new @ proxy_actions old new ocf ncf @ inbound_actions rd)"
  using assms by (auto simp: rebase_actions_def cf_of_def)

lemma last_ssh:
  assumes "rebase_actions old new rd = Inr acts"
  shows "SSH \<in> set acts \<longleftrightarrow> srv_ssh_port old \<noteq> srv_ssh_port new" "DestroyServer \<notin> set acts"
    "AddInbound \<in> set acts \<longleftrightarrow> (\<exists>r. rd = Some r \<and> added_inbounds r \<noteq> [])"
    "DelInbound \<in> set acts \<longleftrightarrow> (\<exists>r. rd = Some r \<and> removed_inbounds r \<noteq> [])"
    "Acme \<in> set acts \<longleftrightarrow> srv_domain old \<noteq> srv_domain new"
    "OutblockedUpdate \<in> set acts \<longleftrightarrow> set (srv_outbound_block old) \<noteq> set (srv_outbound_block new)"
  using assms
  by (auto elim!: rebase_actions_set simp: spec_actions_def proxy_actions_def inbound_actions_def
      split: option.splits if_splits)

text \<open>
  When an action is needed, said action by action (the code goes from change to change). A host name
  changes with the domain or with its own label; the way the server is proxied changes with the
  declared flag or with Cloudflare's answer.
\<close>

definition host_changed :: "(KetServer \<Rightarrow> 'a) \<Rightarrow> KetServer \<Rightarrow> KetServer \<Rightarrow> bool" where
  "host_changed label old new \<longleftrightarrow> srv_domain old \<noteq> srv_domain new \<or> label old \<noteq> label new"

definition proxying_changed :: "KetServer \<Rightarrow> KetServer \<Rightarrow> bool" where
  "proxying_changed old new \<longleftrightarrow> srv_cloudflare_proxied old \<noteq> srv_cloudflare_proxied new
     \<or> map_option cloudflare_only (srv_cfstate old) \<noteq> map_option cloudflare_only (srv_cfstate new)"

definition some_host_changed :: "KetServer \<Rightarrow> KetServer \<Rightarrow> bool" where
  "some_host_changed old new \<longleftrightarrow> host_changed srv_dns_subdomain old new
     \<or> host_changed srv_ui_subdomain old new \<or> host_changed srv_sub_subdomain old new"

definition inbounds_added :: "RebaseData option \<Rightarrow> bool" where
  "inbounds_added rd \<longleftrightarrow> (\<exists>r. rd = Some r \<and> added_inbounds r \<noteq> [])"

definition inbounds_removed :: "RebaseData option \<Rightarrow> bool" where
  "inbounds_removed rd \<longleftrightarrow> (\<exists>r. rd = Some r \<and> removed_inbounds r \<noteq> [])"

fun action_due :: "KetServer \<Rightarrow> KetServer \<Rightarrow> RebaseData option \<Rightarrow> AnsibleAction \<Rightarrow> bool" where
  "action_due old new rd PortsCheck \<longleftrightarrow> srv_ssh_port old \<noteq> srv_ssh_port new \<or> inbounds_added rd"
| "action_due old new rd DnsReset \<longleftrightarrow> host_changed srv_dns_subdomain old new"
| "action_due old new rd DoH \<longleftrightarrow> host_changed srv_dns_subdomain old new"
| "action_due old new rd CloudflareDel \<longleftrightarrow> some_host_changed old new"
| "action_due old new rd Cloudflare \<longleftrightarrow> show_ip (srv_ip old) \<noteq> show_ip (srv_ip new)
     \<or> some_host_changed old new \<or> proxying_changed old new"
| "action_due old new rd Acme \<longleftrightarrow> srv_domain old \<noteq> srv_domain new"
| "action_due old new rd NginxSetup \<longleftrightarrow> some_host_changed old new \<or> proxying_changed old new"
| "action_due old new rd OutblockedUpdate \<longleftrightarrow> set (srv_outbound_block old) \<noteq> set (srv_outbound_block new)"
| "action_due old new rd XuiAuth \<longleftrightarrow> srv_sub_subdomain old \<noteq> srv_sub_subdomain new
     \<or> inbounds_added rd \<or> inbounds_removed rd"
| "action_due old new rd DelInbound \<longleftrightarrow> inbounds_removed rd"
| "action_due old new rd AddInbound \<longleftrightarrow> inbounds_added rd"
| "action_due old new rd PanelSettings \<longleftrightarrow> srv_sub_subdomain old \<noteq> srv_sub_subdomain new"
| "action_due old new rd Fail2ban \<longleftrightarrow> srv_ssh_port old \<noteq> srv_ssh_port new \<or> proxying_changed old new"
| "action_due old new rd Firewall \<longleftrightarrow> proxying_changed old new"
| "action_due old new rd SSH \<longleftrightarrow> srv_ssh_port old \<noteq> srv_ssh_port new"
| "action_due old new rd _ \<longleftrightarrow> False"

lemmas due_defs = host_changed_def some_host_changed_def proxying_changed_def inbounds_added_def
  inbounds_removed_def

lemma rebase_action_due:
  assumes "rebase_actions old new rd = Inr acts"
  shows "a \<in> set acts \<longleftrightarrow> action_due old new rd a"
proof -
  from assms obtain ocf ncf where cf: "srv_cfstate old = Some ocf" "srv_cfstate new = Some ncf"
    and acts: "set acts = set (spec_actions old new @ proxy_actions old new ocf ncf @ inbound_actions rd)"
    by (elim rebase_actions_set) simp
  show ?thesis
    unfolding acts
    by (cases a; cases rd) (auto simp: cf due_defs spec_actions_def proxy_actions_def inbound_actions_def)
qed

lemma sort_unique_filter: "sort_unique xs = filter (\<lambda>a. a \<in> set xs) all_actions"
proof (rule sorted_distinct_set_unique)
  have "sorted all_actions \<and> distinct all_actions"
    using all_actions_sorted by (simp add: strict_sorted_iff)
  then show "sorted (filter (\<lambda>a. a \<in> set xs) all_actions)" "distinct (filter (\<lambda>a. a \<in> set xs) all_actions)"
    by (simp_all add: sorted_wrt_filter)
qed (use all_actions_complete in auto)

lemma rebase_actions_filter:
  "rebase_actions old new rd = (if srv_cfstate old = None \<or> srv_cfstate new = None then Inl CfStateMissing
      else Inr (filter (action_due old new rd) all_actions))"
proof (cases "rebase_actions old new rd")
  case (Inl e)
  then show ?thesis
    by (cases "srv_cfstate old"; cases "srv_cfstate new") (auto simp: rebase_actions_def cf_of_def)
next
  case (Inr acts)
  then obtain xs where xs: "acts = sort_unique xs" by (rule rebase_actions_set)
  have "acts = filter (action_due old new rd) all_actions"
    unfolding xs sort_unique_filter using rebase_action_due [OF Inr] xs by (intro filter_cong) simp_all
  moreover have "srv_cfstate old \<noteq> None \<and> srv_cfstate new \<noteq> None"
    using Inr by (auto elim: rebase_actions_set)
  ultimately show ?thesis using Inr by simp
qed

text \<open>
  C7. The remote actions planned for a Rebase are exactly those that the changes need, each once
  and in order of priority: the table above lists every action with the changes that need it, and no other action
  is ever planned. The SSH setup is planned exactly when the SSH port changes and then comes
  last, so a failure before it cannot lock the daemon out. Without the state of Cloudflare on both
  sides there is no plan.
\<close>

theorem rebase_actions_plan:
  "rebase_actions old new rd = (if srv_cfstate old = None \<or> srv_cfstate new = None then Inl CfStateMissing
      else Inr (filter (action_due old new rd) all_actions))
   \<and> sorted_wrt (\<lambda>a b. action_id a < action_id b) (filter (action_due old new rd) all_actions)
   \<and> (if srv_ssh_port old \<noteq> srv_ssh_port new then last (filter (action_due old new rd) all_actions) = SSH
      else SSH \<notin> set (filter (action_due old new rd) all_actions))"
proof -
  let ?acts = "filter (action_due old new rd) all_actions"
  have sorted: "sorted_wrt (\<lambda>a b. action_id a < action_id b) ?acts"
    using all_actions_sorted by (simp add: sorted_wrt_filter less_AnsibleAction_def [abs_def])
  have "last ?acts = SSH" if "srv_ssh_port old \<noteq> srv_ssh_port new"
    using that by (simp add: all_actions_def)
  then show ?thesis
    using sorted by (simp add: rebase_actions_filter)
qed

text \<open>A server whose declaration did not change needs no remote action.\<close>

lemma rebase_actions_unchanged:
  assumes "rebase_actions old new None = Inr acts" "show_ip (srv_ip new) = show_ip (srv_ip old)"
    "srv_domain new = srv_domain old" "subdomains_of new = subdomains_of old"
    "srv_ssh_port new = srv_ssh_port old" "srv_cloudflare_proxied new = srv_cloudflare_proxied old"
    "set (srv_outbound_block new) = set (srv_outbound_block old)" "srv_cfstate new = srv_cfstate old"
  shows "acts = []"
  using assms by (auto elim!: rebase_actions_set simp: spec_actions_def proxy_actions_def inbound_actions_def
      subdomains_of_def sort_unique_def)

section \<open>Disabled servers\<close>

text \<open>
  A Rebase of a Production server that the declaration disables keeps the server's
  specification, and yet the inbounds recorded from the declaration are added on (or deleted from) the
  remote machine: the planned actions contain the inbound action although the merged server keeps
  its old inbounds.
\<close>

lemma rebase_touches_disabled:
  assumes "srv_state old = Production" "srv_state new = Production" "\<not> srv_enabled new"
    and "rebase_merge old new = Inr m" "srv_cfstate old \<noteq> None" "added_inbounds rd \<noteq> []"
  shows "srv_inbounds m = srv_inbounds old \<and> \<not> srv_enabled m
    \<and> (\<exists>acts. rebase_actions old (m\<lparr>srv_cfstate := Some cf\<rparr>) (Some rd) = Inr acts \<and> AddInbound \<in> set acts)"
proof -
  have m: "m = old\<lparr>srv_enabled := False\<rparr>"
    using assms(1-4) by (simp add: rebase_merge_iff)
  from assms(5) obtain acts where acts: "rebase_actions old (m\<lparr>srv_cfstate := Some cf\<rparr>) (Some rd) = Inr acts"
    by (auto simp: rebase_actions_def cf_of_def)
  from last_ssh(3) [OF acts] assms(6) have "AddInbound \<in> set acts" by simp
  with acts show ?thesis by (simp add: m)
qed

section \<open>The order in which runs finish\<close>

definition job_conn :: "RebaseJob \<Rightarrow> AnsibleConn option" where
  "job_conn job = map_option (\<lambda>conn. \<lparr>ansible_host = ansible_host conn,
     ansible_port = Some (srv_ssh_port (job_server job)), ansible_user = ansible_user conn,
     ansible_connection = None\<rparr>) (srv_ansible_conn (job_server job))"

definition job_ok :: "RemoteRun \<Rightarrow> RebaseJob \<Rightarrow> bool" where
  "job_ok run job \<longleftrightarrow> run (job_server job) (job_actions job) (job_data job) = Inr True
     \<and> srv_ansible_conn (job_server job) \<noteq> None"

definition apply_jobs :: "RebaseJob list \<Rightarrow> Cloud \<Rightarrow> Cloud" where
  "apply_jobs jobs c = c\<lparr>servers := map (\<lambda>s. case find (\<lambda>j. srv_name (job_server j) = srv_name s) jobs of
     None \<Rightarrow> s | Some j \<Rightarrow> s\<lparr>srv_ansible_conn := job_conn j\<rparr>) (servers c)\<rparr>"

lemma finish_job_iff:
  "finish_job run c job = Inr c' \<longleftrightarrow> job_ok run job
     \<and> c' = update_server (srv_name (job_server job)) (\<lambda>t. t\<lparr>srv_ansible_conn := job_conn job\<rparr>) c"
  by (auto simp: finish_job_def job_ok_def job_conn_def Let_def)

lemma finish_jobs_iff:
  assumes "distinct (map (\<lambda>j. srv_name (job_server j)) jobs)"
  shows "try_fold (finish_job run) c jobs = Inr c' \<longleftrightarrow> list_all (job_ok run) jobs \<and> c' = apply_jobs jobs c"
  using assms
proof (induction jobs arbitrary: c)
  case Nil
  show ?case by (auto simp: apply_jobs_def)
next
  case (Cons j jobs)
  let ?c1 = "update_server (srv_name (job_server j)) (\<lambda>t. t\<lparr>srv_ansible_conn := job_conn j\<rparr>) c"
  have none: "find (\<lambda>x. srv_name (job_server x) = srv_name (job_server j)) jobs = None"
    using Cons.prems by (simp add: find_key_None)
  have "apply_jobs jobs ?c1 = apply_jobs (j # jobs) c"
    using none by (auto simp: apply_jobs_def update_server_def split: option.split)
  then show ?case using Cons by (auto simp: finish_job_iff)
qed

lemma find_perm:
  assumes "mset xs = mset ys" "distinct (map f xs)"
  shows "find (\<lambda>x. f x = k) xs = find (\<lambda>x. f x = k) ys"
proof -
  have d: "distinct (map f ys)" using assms by (metis mset_eq_imp_distinct_iff mset_map)
  have set: "set xs = set ys" using assms(1) by (rule mset_eq_setD)
  show ?thesis
  proof (cases "find (\<lambda>x. f x = k) xs")
    case None
    then show ?thesis using find_key_None set by metis
  next
    case (Some x)
    from find_Some_in [OF Some] set have x: "x \<in> set ys" "k = f x" by auto
    then show ?thesis using Some find_unique [OF d x(1)] by simp
  qed
qed

lemma apply_jobs_perm:
  "mset xs = mset ys \<Longrightarrow> distinct (map (\<lambda>j. srv_name (job_server j)) xs) \<Longrightarrow> apply_jobs xs c = apply_jobs ys c"
  by (simp add: apply_jobs_def find_perm [of xs ys])

lemma distinct_drop_mid: "distinct (A @ x # B) \<Longrightarrow> distinct (A @ B) \<and> distinct ((A @ [x]) @ B)"
  by auto

lemma plan_jobs_distinct:
  assumes "try_fold (plan_job hm c) jobs olds = Inr jobs'"
    and "distinct (map (\<lambda>j. srv_name (job_server j)) jobs @ map srv_name olds)"
  shows "distinct (map (\<lambda>j. srv_name (job_server j)) jobs')"
  using assms
proof (induction olds arbitrary: jobs)
  case (Cons x olds)
  then obtain jobs1 where step: "plan_job hm c jobs x = Inr jobs1"
    and rest: "try_fold (plan_job hm c) jobs1 olds = Inr jobs'" by auto
  let ?nm = "map (\<lambda>j. srv_name (job_server j))"
  from step have "?nm jobs1 = ?nm jobs \<or> ?nm jobs1 = ?nm jobs @ [srv_name x]"
    by (auto simp: plan_job_def split: option.splits if_splits dest: find_server_Some)
  moreover have "distinct (?nm jobs @ srv_name x # map srv_name olds)" using Cons.prems(2) by simp
  ultimately have "distinct (?nm jobs1 @ map srv_name olds)"
    using distinct_drop_mid [of "?nm jobs" "srv_name x" "map srv_name olds"] by metis
  with Cons.IH [OF rest] show ?case by blast
qed simp

text \<open>
  C8. The outcome of the parallel runs of a Rebase does not depend on the order in which they
  finish: if the deployment succeeds in one order, it succeeds in every order, with the same cloud.
\<close>

theorem deploy_order_irrelevant:
  assumes dep: "deploy_rebase run sched olds hm c = Inr c'"
    and "\<And>js. mset (sched js) = mset js" "\<And>js. mset (sched' js) = mset js"
    and "distinct (map srv_name olds)"
  shows "deploy_rebase run sched' olds hm c = Inr c'"
proof -
  from dep obtain jobs where jobs: "try_fold (plan_job hm c) [] olds = Inr jobs"
    and fin: "try_fold (finish_job run) c (sched jobs) = Inr c'" by (auto simp: deploy_rebase_def)
  have d: "distinct (map (\<lambda>j. srv_name (job_server j)) jobs)"
    using plan_jobs_distinct [OF jobs] assms(4) by simp
  have d12: "distinct (map (\<lambda>j. srv_name (job_server j)) (sched jobs))"
    "distinct (map (\<lambda>j. srv_name (job_server j)) (sched' jobs))"
    using d assms(2,3) by (metis mset_eq_imp_distinct_iff mset_map)+
  have perm: "mset (sched jobs) = mset (sched' jobs)" using assms(2,3) by simp
  have "list_all (job_ok run) (sched' jobs) \<longleftrightarrow> list_all (job_ok run) (sched jobs)"
    using mset_eq_setD [OF perm] by (simp add: list_all_iff)
  then have "try_fold (finish_job run) c (sched' jobs) = Inr c'"
    using fin finish_jobs_iff [OF d12(1)] finish_jobs_iff [OF d12(2)] apply_jobs_perm [OF perm d12(1)] by auto
  then show ?thesis using jobs by (simp add: deploy_rebase_def)
qed

section \<open>What the comparison records\<close>

text \<open>
  If the walk over the declared servers starts with one that the running cloud does not have,
  the comparison fails, so adding a server together with a Rebase fails or not depending on the
  order of a hash table.
\<close>

lemma new_server_first_fails:
  assumes "find_server nm curr_cloud = None" "find_server nm new_cloud \<noteq> None"
  shows "create_rebase_data forced (nm # order) iorder curr_cloud new_cloud = Inl RebaseDomainMissing"
  using assms by (auto simp: create_rebase_data_def compare_server_def)

lemma compare_inbounds_fold:
  assumes "try_fold (compare_inbound forced cur new) (added, removed) nms = Inr (added', removed')"
  shows "added' = added @ map (\<lambda>nm. the (inbounds_by_name new nm))
      (filter (\<lambda>nm. inbounds_by_name cur nm = None \<and> inbounds_by_name new nm \<noteq> None) nms)
    \<and> removed' = removed @ map (\<lambda>nm. the (inbounds_by_name cur nm))
      (filter (\<lambda>nm. inbounds_by_name cur nm \<noteq> None \<and> inbounds_by_name new nm = None) nms)
    \<and> (\<forall>nm \<in> set nms. inbounds_by_name cur nm \<noteq> None \<longrightarrow> inbounds_by_name new nm \<noteq> None \<longrightarrow>
         inbounds_by_name cur nm = inbounds_by_name new nm)
    \<and> (forced \<or> (\<forall>nm \<in> set nms. inbounds_by_name cur nm \<noteq> None \<longrightarrow> inbounds_by_name new nm \<noteq> None))"
  using assms
proof (induction nms arbitrary: added removed)
  case (Cons nm nms)
  then obtain a1 r1 where step: "compare_inbound forced cur new (added, removed) nm = Inr (a1, r1)"
    and rest: "try_fold (compare_inbound forced cur new) (a1, r1) nms = Inr (added', removed')" by auto
  show ?case
    using step Cons.IH [OF rest]
    by (cases "inbounds_by_name cur nm"; cases "inbounds_by_name new nm")
      (auto simp: compare_inbound_def split: if_splits)
qed simp

text \<open>The record that the comparison of one pair of servers yields.\<close>

definition compared ::
  "bool \<Rightarrow> (string \<Rightarrow> string list) \<Rightarrow> KetServer \<Rightarrow> KetServer \<Rightarrow> string \<Rightarrow> RebaseData \<Rightarrow> bool" where
  "compared forced iorder cur new nm rd \<longleftrightarrow>
     try_fold (compare_inbound forced cur new) ([], []) (iorder nm) = Inr (added_inbounds rd, removed_inbounds rd)
     \<and> rebase_domain_of cur new = Inr (rebase_domain rd)"

lemma compare_server_known:
  assumes "compare_server forced iorder cc nc st nm = Inr st'"
    and "find_server nm cc = Some cur" "find_server nm nc = Some new"
  shows "\<exists>rd. compared forced iorder cur new nm rd \<and> cs_map st' = or_insert (cs_map st) nm rd"
proof -
  from assms obtain a b r where "try_fold (compare_inbound forced cur new) ([], []) (iorder nm) = Inr (a, b)"
    "rebase_domain_of cur new = Inr r"
    "cs_map st' = or_insert (cs_map st) nm \<lparr>added_inbounds = a, removed_inbounds = b, rebase_domain = r\<rparr>"
    by (auto simp: compare_server_def)
  then show ?thesis
    by (intro exI [of _ "\<lparr>added_inbounds = a, removed_inbounds = b, rebase_domain = r\<rparr>"]) (simp add: compared_def)
qed

lemma compare_servers_known:
  assumes "try_fold (compare_server forced iorder cc nc) st order = Inr st'" "distinct order"
    and "\<forall>nm \<in> set order. find_server nm cc \<noteq> None \<and> find_server nm nc \<noteq> None"
    and "\<forall>nm \<in> set order. cs_map st nm = None"
  shows "(\<forall>nm \<in> set order. \<exists>rd. cs_map st' nm = Some rd
      \<and> compared forced iorder (the (find_server nm cc)) (the (find_server nm nc)) nm rd)
    \<and> (\<forall>k. k \<notin> set order \<longrightarrow> cs_map st' k = cs_map st k)"
  using assms
proof (induction order arbitrary: st)
  case (Cons nm order)
  then obtain st1 where step: "compare_server forced iorder cc nc st nm = Inr st1"
    and rest: "try_fold (compare_server forced iorder cc nc) st1 order = Inr st'" by auto
  from Cons.prems(3) obtain cur new where f: "find_server nm cc = Some cur" "find_server nm nc = Some new" by auto
  from compare_server_known [OF step f] obtain rd where
    rd: "compared forced iorder cur new nm rd" "cs_map st1 = or_insert (cs_map st) nm rd" by blast
  have fresh: "\<forall>k \<in> set order. cs_map st1 k = None" using Cons.prems(2,4) rd(2) by auto
  have other: "nm \<notin> set order" "distinct order" using Cons.prems(2) by simp_all
  note IH = Cons.IH [OF rest other(2) _ fresh]
  have "cs_map st' nm = Some rd" using IH Cons.prems(3,4) other(1) rd(2) by simp
  then show ?case using IH Cons.prems(3) other rd f by auto
qed simp

lemma inbounds_by_name_Some:
  "distinct (map inb_name (srv_inbounds s)) \<Longrightarrow>
     inbounds_by_name s nm = Some i \<longleftrightarrow> i \<in> set (srv_inbounds s) \<and> inb_name i = nm"
proof -
  assume d: "distinct (map inb_name (srv_inbounds s))"
  have "map fst (map (\<lambda>i. (inb_name i, i)) (srv_inbounds s)) = map inb_name (srv_inbounds s)" by (simp add: comp_def)
  then show ?thesis
    unfolding inbounds_by_name_def using d by (subst map_of_eq_Some_iff) (auto simp: comp_def)
qed

lemma inbounds_by_name_None:
  "inbounds_by_name s nm = None \<longleftrightarrow> nm \<notin> inb_name ` set (srv_inbounds s)"
  by (auto simp: inbounds_by_name_def map_of_eq_None_iff image_iff)

lemma keyed_select:
  assumes "\<And>i. i \<in> S \<Longrightarrow> the (g (k i)) = i"
  shows "(\<lambda>n. the (g n)) ` {n \<in> k ` S. n \<notin> C} = {i \<in> S. k i \<notin> C}"
proof -
  have "{n \<in> k ` S. n \<notin> C} = k ` {i \<in> S. k i \<notin> C}" by blast
  then show ?thesis using assms by (simp add: image_image)
qed

lemma compared_exact:
  assumes cmp: "compared forced iorder cur new nm rd"
    and walk: "set (iorder nm) = inb_name ` set (srv_inbounds cur) \<union> inb_name ` set (srv_inbounds new)"
    and d: "distinct (map inb_name (srv_inbounds cur))" "distinct (map inb_name (srv_inbounds new))"
  shows "set (added_inbounds rd) = {i \<in> set (srv_inbounds new). inb_name i \<notin> inb_name ` set (srv_inbounds cur)}
    \<and> set (removed_inbounds rd) = {i \<in> set (srv_inbounds cur). inb_name i \<notin> inb_name ` set (srv_inbounds new)}
    \<and> (\<forall>i \<in> set (srv_inbounds cur). \<forall>j \<in> set (srv_inbounds new). inb_name i = inb_name j \<longrightarrow> i = j)
    \<and> (forced \<or> removed_inbounds rd = [])"
proof -
  note fold = compare_inbounds_fold [OF cmp [unfolded compared_def, THEN conjunct1]]
  note byn = inbounds_by_name_Some [OF d(1)] inbounds_by_name_Some [OF d(2)]
  have the_new: "the (inbounds_by_name new (inb_name i)) = i" if "i \<in> set (srv_inbounds new)" for i
    using that byn by (metis option.sel)
  have the_cur: "the (inbounds_by_name cur (inb_name i)) = i" if "i \<in> set (srv_inbounds cur)" for i
    using that byn by (metis option.sel)
  let ?C = "inb_name ` set (srv_inbounds cur)" and ?N = "inb_name ` set (srv_inbounds new)"
  have "set (added_inbounds rd) = (\<lambda>nm. the (inbounds_by_name new nm)) ` {nm \<in> ?N. nm \<notin> ?C}"
    using fold walk by (simp add: inbounds_by_name_None Collect_conj_eq) (rule arg_cong [where f = "image _"], blast)
  also have "\<dots> = {i \<in> set (srv_inbounds new). inb_name i \<notin> ?C}"
    by (rule keyed_select) (rule the_new)
  finally have added: "set (added_inbounds rd) = {i \<in> set (srv_inbounds new). inb_name i \<notin> ?C}" .
  have "set (removed_inbounds rd) = (\<lambda>nm. the (inbounds_by_name cur nm)) ` {nm \<in> ?C. nm \<notin> ?N}"
    using fold walk by (simp add: inbounds_by_name_None Collect_conj_eq) (rule arg_cong [where f = "image _"], blast)
  also have "\<dots> = {i \<in> set (srv_inbounds cur). inb_name i \<notin> ?N}"
    by (rule keyed_select) (rule the_cur)
  finally have removed: "set (removed_inbounds rd) = {i \<in> set (srv_inbounds cur). inb_name i \<notin> ?N}" .
  have "i = j" if ij: "i \<in> set (srv_inbounds cur)" "j \<in> set (srv_inbounds new)" "inb_name i = inb_name j" for i j
  proof -
    have "inbounds_by_name cur (inb_name i) = Some i" "inbounds_by_name new (inb_name i) = Some j"
      using ij byn by auto
    moreover have "inb_name i \<in> set (iorder nm)" using ij(1) walk by blast
    ultimately show ?thesis using fold by (metis option.distinct(1) option.inject)
  qed
  moreover have "forced \<or> removed_inbounds rd = []"
    using fold by (auto simp: filter_empty_conv)
  ultimately show ?thesis using added removed by blast
qed

lemma rebase_domain_of_iff:
  assumes "rebase_domain_of cur new = Inr rd"
  shows "rd_dns rd = (if srv_domain new \<noteq> srv_domain cur \<or> srv_dns_subdomain new \<noteq> srv_dns_subdomain cur
      then Some (dnshostname cur) else None)"
    "rd_ui rd = (if srv_domain new \<noteq> srv_domain cur \<or> srv_ui_subdomain new \<noteq> srv_ui_subdomain cur
      then Some (uihostname cur) else None)"
    "rd_sub rd = (if srv_domain new \<noteq> srv_domain cur \<or> srv_sub_subdomain new \<noteq> srv_sub_subdomain cur
      then Some (subhostname cur) else None)"
  using assms by (auto simp: rebase_domain_of_def Let_def)

text \<open>
  When every declared server is known, the comparison records for each of them exactly what
  changed: the inbounds the declaration adds and those it drops, with every inbound present on
  both sides unchanged; without the force flag nothing is dropped; and exactly the old host names
  that go away because the domain or the subdomain changes.
\<close>

lemma rebase_data_exact:
  assumes res: "create_rebase_data forced order iorder cc nc = Inr hm"
    and walks: "is_walk order (set (server_names nc))"
      "set (iorder nm) = inb_name ` set (srv_inbounds cur) \<union> inb_name ` set (srv_inbounds new)"
    and known: "set (server_names nc) \<subseteq> set (server_names cc)"
    and pair: "find_server nm cc = Some cur" "find_server nm nc = Some new"
    and names: "distinct (map inb_name (srv_inbounds cur))" "distinct (map inb_name (srv_inbounds new))"
  shows "\<exists>rd. hm nm = Some rd
    \<and> set (added_inbounds rd) = {i \<in> set (srv_inbounds new). inb_name i \<notin> inb_name ` set (srv_inbounds cur)}
    \<and> set (removed_inbounds rd) = {i \<in> set (srv_inbounds cur). inb_name i \<notin> inb_name ` set (srv_inbounds new)}
    \<and> (\<forall>i \<in> set (srv_inbounds cur). \<forall>j \<in> set (srv_inbounds new). inb_name i = inb_name j \<longrightarrow> i = j)
    \<and> (forced \<or> removed_inbounds rd = [])
    \<and> rd_dns (rebase_domain rd) = (if srv_domain new \<noteq> srv_domain cur
         \<or> srv_dns_subdomain new \<noteq> srv_dns_subdomain cur then Some (dnshostname cur) else None)
    \<and> rd_ui (rebase_domain rd) = (if srv_domain new \<noteq> srv_domain cur
         \<or> srv_ui_subdomain new \<noteq> srv_ui_subdomain cur then Some (uihostname cur) else None)
    \<and> rd_sub (rebase_domain rd) = (if srv_domain new \<noteq> srv_domain cur
         \<or> srv_sub_subdomain new \<noteq> srv_sub_subdomain cur then Some (subhostname cur) else None)"
proof -
  from res obtain st where st: "try_fold (compare_server forced iorder cc nc)
      \<lparr>cs_map = Map.empty, cs_added = [], cs_removed = [], cs_domain = None\<rparr> order = Inr st" "hm = cs_map st"
    by (auto simp: create_rebase_data_def)
  have "\<forall>k \<in> set order. find_server k cc \<noteq> None \<and> find_server k nc \<noteq> None"
    using walks(1) known by (auto simp: is_walk_def find_server_None)
  note all = compare_servers_known [OF st(1) _ this]
  have "nm \<in> set order" using walks(1) pair(2) by (auto simp: is_walk_def dest: find_server_Some)
  moreover have "distinct order" using walks(1) by (simp add: is_walk_def)
  ultimately obtain rd where rd: "hm nm = Some rd" "compared forced iorder cur new nm rd"
    using all pair st(2) by fastforce
  note exact = compared_exact [OF rd(2) walks(2) names]
  from rd(2) have "rebase_domain_of cur new = Inr (rebase_domain rd)" by (simp add: compared_def)
  note dom = rebase_domain_of_iff [OF this]
  show ?thesis
    using rd(1) exact dom by blast
qed

section \<open>Concrete Rebases\<close>

definition demo_cf :: CFState where
  "demo_cf = \<lparr>zone_name = ''org'', zone_id = ''z'', too_deep = True, cloudflare_only = False, list_data = None\<rparr>"

definition demo_conn :: "u16 \<Rightarrow> AnsibleConn" where
  "demo_conn p = \<lparr>ansible_host = Some ''8.8.8.1'', ansible_port = Some p, ansible_user = Some ROOT_USER,
     ansible_connection = None\<rparr>"

text \<open>A provisioned server, and its declaration with a new SSH port and one more inbound.\<close>

definition demo_cur :: KetServer where
  "demo_cur = (demo_ready ''one'' 1 ''one.org'' Production)\<lparr>srv_cfstate := Some demo_cf,
     srv_ansible_conn := Some (demo_conn SSH_PORT)\<rparr>"

definition demo_next :: KetServer where
  "demo_next = demo_cur\<lparr>srv_ssh_port := 2222,
     srv_inbounds := demo_inbound ''gamma'' 9090 # srv_inbounds demo_cur\<rparr>"

definition demo_rebase :: RebaseData where
  "demo_rebase = \<lparr>added_inbounds = [demo_inbound ''gamma'' 9090], removed_inbounds = [],
     rebase_domain = \<lparr>rd_zone = None, rd_dns = None, rd_ui = None, rd_sub = None\<rparr>\<rparr>"

lemmas demo_rebase_defs = demo_cf_def demo_conn_def demo_cur_def demo_next_def demo_rebase_def demo_merge_defs
  super_inbound_def super_name_def

lemma demo_actions:
  "rebase_actions demo_cur demo_next (Some demo_rebase) = Inr [PortsCheck, XuiAuth, AddInbound, Fail2ban, SSH]"
  by (simp add: rebase_actions_def cf_of_def spec_actions_def proxy_actions_def inbound_actions_def
      sort_unique_def action_order demo_rebase_defs SSH_PORT_def)

theorem rebase_touches_disabled_witness:
  "\<exists>m. rebase_merge demo_cur (demo_next\<lparr>srv_enabled := False\<rparr>) = Inr m \<and> srv_inbounds m = srv_inbounds demo_cur
     \<and> (\<exists>acts. rebase_actions demo_cur (m\<lparr>srv_cfstate := Some demo_cf\<rparr>) (Some demo_rebase) = Inr acts
         \<and> AddInbound \<in> set acts)"
proof -
  let ?new = "demo_next\<lparr>srv_enabled := False\<rparr>"
  have st: "srv_state demo_cur = Production" "srv_state ?new = Production" "\<not> srv_enabled ?new"
    by (simp_all add: demo_rebase_defs)
  then obtain m where m: "rebase_merge demo_cur ?new = Inr m" by (simp add: rebase_merge_iff)
  have "srv_cfstate demo_cur \<noteq> None" "added_inbounds demo_rebase \<noteq> []" by (simp_all add: demo_rebase_defs)
  from rebase_touches_disabled [OF st m this, of demo_cf] m show ?thesis by blast
qed

text \<open>A second provisioned server that changes its SSH port, so that two runs are under way.\<close>

definition demo_cur_two :: KetServer where
  "demo_cur_two = (demo_ready ''two'' 2 ''two.org'' Production)\<lparr>srv_cfstate := Some demo_cf,
     srv_ansible_conn := Some (demo_conn SSH_PORT)\<rparr>"

definition demo_next_two :: KetServer where
  "demo_next_two = demo_cur_two\<lparr>srv_ssh_port := 2200\<rparr>"

definition demo_jobs_cloud :: Cloud where
  "demo_jobs_cloud = demo_cloud [demo_next, demo_next_two]"

lemma demo_actions_two:
  "rebase_actions demo_cur_two demo_next_two None = Inr [PortsCheck, Fail2ban, SSH]"
  by (simp add: rebase_actions_def cf_of_def spec_actions_def proxy_actions_def inbound_actions_def
      sort_unique_def action_order demo_rebase_defs demo_cur_two_def demo_next_two_def SSH_PORT_def)

theorem deploy_order_irrelevant_witness:
  "\<exists>c jobs. try_fold (plan_job [''one'' \<mapsto> demo_rebase] demo_jobs_cloud) [] [demo_cur, demo_cur_two] = Inr jobs
     \<and> map (srv_name \<circ> job_server) jobs = [''one'', ''two'']
     \<and> deploy_rebase (\<lambda>_ _ _. Inr True) rev [demo_cur, demo_cur_two] [''one'' \<mapsto> demo_rebase] demo_jobs_cloud = Inr c
     \<and> map srv_ansible_conn (servers c) = [Some (demo_conn 2222), Some (demo_conn 2200)]"
proof -
  let ?c = "demo_cloud [demo_next\<lparr>srv_ansible_conn := Some (demo_conn 2222)\<rparr>,
    demo_next_two\<lparr>srv_ansible_conn := Some (demo_conn 2200)\<rparr>]"
  let ?jobs = "[\<lparr>job_server = demo_next, job_actions = [PortsCheck, XuiAuth, AddInbound, Fail2ban, SSH],
      job_data = Some demo_rebase\<rparr>,
    \<lparr>job_server = demo_next_two, job_actions = [PortsCheck, Fail2ban, SSH], job_data = None\<rparr>]"
  have plan: "try_fold (plan_job [''one'' \<mapsto> demo_rebase] demo_jobs_cloud) [] [demo_cur, demo_cur_two] = Inr ?jobs"
  proof -
    have "find_server (srv_name demo_cur) demo_jobs_cloud = Some demo_next"
      "find_server (srv_name demo_cur_two) demo_jobs_cloud = Some demo_next_two"
      "srv_name demo_cur = ''one''" "srv_name demo_cur_two = ''two''"
      by (simp_all add: find_server_def demo_jobs_cloud_def demo_rebase_defs demo_cur_two_def demo_next_two_def)
    then show ?thesis using demo_actions demo_actions_two by (simp add: plan_job_def)
  qed
  have fin: "try_fold (finish_job (\<lambda>_ _ _. Inr True)) demo_jobs_cloud ?jobs = Inr ?c"
    by (simp add: finish_job_def update_server_def demo_jobs_cloud_def demo_rebase_defs demo_cur_two_def
        demo_next_two_def)
  have "deploy_rebase (\<lambda>_ _ _. Inr True) (\<lambda>js. js) [demo_cur, demo_cur_two] [''one'' \<mapsto> demo_rebase] demo_jobs_cloud
      = Inr ?c"
    unfolding deploy_rebase_def plan using fin by simp
  then have "deploy_rebase (\<lambda>_ _ _. Inr True) rev [demo_cur, demo_cur_two] [''one'' \<mapsto> demo_rebase] demo_jobs_cloud
      = Inr ?c"
    by (rule deploy_order_irrelevant) (simp_all add: demo_rebase_defs demo_cur_two_def)
  then show ?thesis using plan by (intro exI conjI) (assumption | simp add: demo_rebase_defs demo_next_two_def demo_cur_two_def)+
qed

theorem new_server_first_fails_witness:
  "create_rebase_data False [''two'', ''one''] (\<lambda>_. [''alpha'', ''beta'', ''super'']) (demo_cloud [demo_cur])
     (demo_cloud [demo_cur, demo_ready ''two'' 2 ''two.org'' Offgrid]) = Inl RebaseDomainMissing
   \<and> (\<exists>hm. create_rebase_data False [''one'', ''two''] (\<lambda>_. [''alpha'', ''beta'', ''super'']) (demo_cloud [demo_cur])
     (demo_cloud [demo_cur, demo_ready ''two'' 2 ''two.org'' Offgrid]) = Inr hm)"
proof
  show "create_rebase_data False [''two'', ''one''] (\<lambda>_. [''alpha'', ''beta'', ''super'']) (demo_cloud [demo_cur])
     (demo_cloud [demo_cur, demo_ready ''two'' 2 ''two.org'' Offgrid]) = Inl RebaseDomainMissing"
    by (rule new_server_first_fails) (simp_all add: find_server_def demo_rebase_defs)
  show "\<exists>hm. create_rebase_data False [''one'', ''two''] (\<lambda>_. [''alpha'', ''beta'', ''super'']) (demo_cloud [demo_cur])
     (demo_cloud [demo_cur, demo_ready ''two'' 2 ''two.org'' Offgrid]) = Inr hm"
    by (simp add: create_rebase_data_def compare_server_def find_server_def compare_inbound_def
        inbounds_by_name_def rebase_domain_of_def tls_kind_def demo_rebase_defs)
qed

theorem rebase_data_exact_witness:
  "\<exists>hm rd. create_rebase_data False [''one''] (\<lambda>_. [''alpha'', ''beta'', ''super'', ''gamma''])
       (demo_cloud [demo_cur]) (demo_cloud [demo_next]) = Inr hm
     \<and> hm ''one'' = Some rd \<and> set (added_inbounds rd) = {demo_inbound ''gamma'' 9090}"
proof -
  obtain hm where hm: "create_rebase_data False [''one''] (\<lambda>_. [''alpha'', ''beta'', ''super'', ''gamma''])
       (demo_cloud [demo_cur]) (demo_cloud [demo_next]) = Inr hm"
    by (simp add: create_rebase_data_def compare_server_def find_server_def compare_inbound_def
        inbounds_by_name_def rebase_domain_of_def tls_kind_def demo_rebase_defs)
  have facts: "is_walk [''one''] (set (server_names (demo_cloud [demo_next])))"
    "set [''alpha'', ''beta'', ''super'', ''gamma''] = inb_name ` set (srv_inbounds demo_cur) \<union> inb_name ` set (srv_inbounds demo_next)"
    "set (server_names (demo_cloud [demo_next])) \<subseteq> set (server_names (demo_cloud [demo_cur]))"
    "find_server ''one'' (demo_cloud [demo_cur]) = Some demo_cur"
    "find_server ''one'' (demo_cloud [demo_next]) = Some demo_next"
    "distinct (map inb_name (srv_inbounds demo_cur))" "distinct (map inb_name (srv_inbounds demo_next))"
    by (auto simp: is_walk_def find_server_def demo_rebase_defs)
  from rebase_data_exact [OF hm facts] obtain rd where rd: "hm ''one'' = Some rd"
    "set (added_inbounds rd) = {i \<in> set (srv_inbounds demo_next). inb_name i \<notin> inb_name ` set (srv_inbounds demo_cur)}"
    by blast
  have "{i \<in> set (srv_inbounds demo_next). inb_name i \<notin> inb_name ` set (srv_inbounds demo_cur)} = {demo_inbound ''gamma'' 9090}"
    by (auto simp: demo_rebase_defs)
  with hm rd show ?thesis by metis
qed

end
