(* ===== verification/Ip_Text.thy ===== *)
theory Ip_Text
  imports Net_Addr
begin

text \<open>
  Reading an address back from its text: \<open>str::parse::<IpAddr>\<close> of the standard library, which
  the database loader applies to what \<open>to_string\<close> wrote. The standard library's parser accepts
  the dotted form first and the colon form otherwise; the result here is stated on whole texts
  (pieces between separators) instead of a cursor.
\<close>

section \<open>Parsing\<close>

text \<open>A decimal octet has one to three digits and no leading zero.\<close>

definition parse_octet :: "string \<Rightarrow> u8 option" where
  "parse_octet p =
     (if p = [] \<or> 3 < length p \<or> (1 < length p \<and> hd p = CHR ''0'') then None
      else case read_digits 10 0 p of
             Some n \<Rightarrow> (if n \<le> 255 then Some (of_nat n) else None)
           | None \<Rightarrow> None)"

definition parse_v4 :: "string \<Rightarrow> (u8 \<times> u8 \<times> u8 \<times> u8) option" where
  "parse_v4 s =
     (case map parse_octet (split_at (CHR ''.'') s) of
        [Some a, Some b, Some c, Some d] \<Rightarrow> Some (a, b, c, d)
      | _ \<Rightarrow> None)"

text \<open>A group has one to four hexadecimal digits.\<close>

definition parse_group :: "string \<Rightarrow> u16 option" where
  "parse_group p = (if p = [] \<or> 4 < length p then None else map_option of_nat (read_digits 16 0 p))"

definition v4_groups :: "u8 \<times> u8 \<times> u8 \<times> u8 \<Rightarrow> u16 list" where
  "v4_groups ip = (case ip of (a, b, c, d) \<Rightarrow>
     [of_nat (256 * unat a + unat b), of_nat (256 * unat c + unat d)])"

text \<open>Groups between colons; a dotted address may stand for the last two.\<close>

fun parse_pieces :: "bool \<Rightarrow> string list \<Rightarrow> u16 list option" where
  "parse_pieces dotted [] = Some []"
| "parse_pieces dotted [p] =
     (case parse_group p of
        Some g \<Rightarrow> Some [g]
      | None \<Rightarrow> (if dotted then map_option v4_groups (parse_v4 p) else None))"
| "parse_pieces dotted (p # q # ps) =
     (case parse_group p of
        Some g \<Rightarrow> map_option ((#) g) (parse_pieces dotted (q # ps))
      | None \<Rightarrow> None)"

definition parse_groups :: "bool \<Rightarrow> string \<Rightarrow> u16 list option" where
  "parse_groups dotted s = (if s = [] then Some [] else parse_pieces dotted (split_at (CHR '':'') s))"

fun split_double :: "string \<Rightarrow> (string \<times> string) option" where
  "split_double (c # d # cs) =
     (if c = CHR '':'' \<and> d = CHR '':'' then Some ([], cs)
      else map_option (\<lambda>(h, t). (c # h, t)) (split_double (d # cs)))"
| "split_double _ = None"

definition parse_v6 :: "string \<Rightarrow> u16 list option" where
  "parse_v6 s =
     (case split_double s of
        None \<Rightarrow> (case parse_groups True s of
            Some gs \<Rightarrow> (if length gs = 8 then Some gs else None)
          | None \<Rightarrow> None)
      | Some (h, t) \<Rightarrow> (case (parse_groups False h, parse_groups True t) of
            (Some hs, Some ts) \<Rightarrow>
              (if length hs + length ts \<le> 7
               then Some (hs @ replicate (8 - (length hs + length ts)) 0 @ ts) else None)
          | _ \<Rightarrow> None))"

definition parse_ip :: "string \<Rightarrow> IpAddr option" where
  "parse_ip s =
     (case parse_v4 s of
        Some (a, b, c, d) \<Rightarrow> Some (V4 a b c d)
      | None \<Rightarrow> (case parse_v6 s of
          Some [a, b, c, d, e, f, g, h] \<Rightarrow> Some (V6 a b c d e f g h)
        | _ \<Rightarrow> None))"

section \<open>The dotted form\<close>

lemma digits_length: "n < b ^ Suc k \<Longrightarrow> 2 \<le> b \<Longrightarrow> length (digits b n) \<le> Suc k"
proof (induction k arbitrary: n)
  case 0
  then show ?case by (subst digits.simps) simp
next
  case (Suc k)
  have "n div b < b ^ Suc k" using Suc.prems by (simp add: less_mult_imp_div_less mult.commute)
  from Suc.IH [OF this Suc.prems(2)] show ?case by (subst digits.simps) simp
qed

lemma digits_hd: "0 < n \<Longrightarrow> hd (digits b n) \<noteq> 0"
proof (induction b n rule: digits.induct)
  case (1 b n)
  then show ?case by (subst digits.simps) (auto simp: div_greater_zero_iff)
qed

lemma show_nat_hd: "1 < length (show_nat n) \<Longrightarrow> hd (show_nat n) \<noteq> CHR ''0''"
proof
  assume long: "1 < length (show_nat n)" and zero: "hd (show_nat n) = CHR ''0''"
  have "n \<noteq> 0" using long by (cases n) (auto simp: show_base_def digits.simps [of 10 0])
  then have "hd (digits 10 n) \<noteq> 0" by (simp add: digits_hd)
  moreover have "hd (digits 10 n) < 16" using digits_bound [of 10 "hd (digits 10 n)" n] by simp
  moreover have "hd (show_nat n) = digit_char (hd (digits 10 n))" by (simp add: show_base_def hd_map)
  ultimately have "digit_val (CHR ''0'') = Some (hd (digits 10 n))" using zero digit_val_char by metis
  then show False using \<open>hd (digits 10 n) \<noteq> 0\<close> by (simp add: digit_val_def ascii_defs)
qed

lemma parse_octet_show: "parse_octet (show_nat (unat w)) = Some w"
proof -
  have w: "unat w < 256" using unsigned_less [of w] by simp
  then have "length (show_nat (unat w)) \<le> 3"
    using digits_length [of "unat w" 10 2] by (simp add: show_base_def)
  then show ?thesis using w show_nat_hd [of "unat w"] by (auto simp: parse_octet_def read_show_base)
qed

lemma show_nat_no_sep [simp]: "CHR ''.'' \<notin> set (show_nat n)" "CHR '':'' \<notin> set (show_nat n)"
  by (rule show_base_no_sep; simp add: ascii_defs)+

lemma parse_v4_show: "parse_v4 (show_v4 ip) = Some ip"
proof -
  obtain a b c d where ip: "ip = (a, b, c, d)" by (metis prod_cases4)
  have "split_at (CHR ''.'') (show_v4 ip) = map (\<lambda>w. show_nat (unat w)) [a, b, c, d]"
    unfolding show_v4_def ip prod.case by (rule split_at_join) auto
  then show ?thesis by (simp add: parse_v4_def ip parse_octet_show)
qed

interpretation v4_text: text_codec show_v4 parse_v4
  by unfold_locales (rule parse_v4_show)

section \<open>The colon form\<close>

abbreviation show_group :: "u16 \<Rightarrow> string" where
  "show_group w \<equiv> show_base 16 (unat w)"

lemma parse_group_show: "parse_group (show_group w) = Some w"
proof -
  have "unat w < 16 ^ Suc 3" using unsigned_less [of w] by simp
  from digits_length [OF this] have "length (show_group w) \<le> 4" by (simp add: show_base_def)
  then show ?thesis by (simp add: parse_group_def read_show_base)
qed

lemma show_group_no_sep [simp]: "CHR ''.'' \<notin> set (show_group n)" "CHR '':'' \<notin> set (show_group n)"
  by (rule show_base_no_sep; simp add: ascii_defs)+

lemma parse_pieces_groups: "parse_pieces dotted (map show_group ws) = Some ws"
proof (induction ws rule: induct_list012)
  case (3 v w ws)
  then show ?case by (simp add: parse_group_show)
qed (simp_all add: parse_group_show)

lemma show_segments_Nil [simp]: "show_segments [] = []"
  by (simp add: show_segments_def)

lemma show_segments_Cons:
  "show_segments (w # ws) = (if ws = [] then show_group w else show_group w @ CHR '':'' # show_segments ws)"
  by (cases ws) (simp_all add: show_segments_def)

lemma show_segments_Nil_iff [simp]: "show_segments ws = [] \<longleftrightarrow> ws = []"
  by (cases ws) (simp_all add: show_segments_Cons)

lemma parse_groups_show: "parse_groups dotted (show_segments ws) = Some ws"
proof (cases "ws = []")
  case False
  have "split_at (CHR '':'') (show_segments ws) = map show_group ws"
    unfolding show_segments_def by (rule split_at_join) (use False in auto)
  then show ?thesis by (simp add: parse_groups_def parse_pieces_groups False)
qed (simp add: parse_groups_def)

text \<open>The first double colon of a text.\<close>

lemma split_double_plain: "CHR '':'' \<notin> set p \<Longrightarrow> split_double p = None"
  by (induction p rule: split_double.induct) auto

lemma split_double_step:
  "p \<noteq> [] \<Longrightarrow> CHR '':'' \<notin> set p \<Longrightarrow> split_double (p @ s) = map_option (\<lambda>(h, t). (p @ h, t)) (split_double s)"
  if "s \<noteq> []" for p s
proof (induction p rule: induct_list012)
  case (2 c)
  then show ?case using that by (cases s) auto
next
  case (3 c d cs)
  then show ?case by (cases "split_double s") auto
qed simp

lemma split_double_single:
  "q \<noteq> [] \<Longrightarrow> hd q \<noteq> CHR '':'' \<Longrightarrow>
     split_double (CHR '':'' # q) = map_option (\<lambda>(h, t). (CHR '':'' # h, t)) (split_double q)"
  by (cases q) auto

lemma show_group_hd: "hd (show_group w @ s) \<noteq> CHR '':''"
proof -
  have "hd (show_group w) \<in> set (show_group w)" by simp
  then have "hd (show_group w) \<noteq> CHR '':''" using show_group_no_sep(2) [of w] by metis
  then show ?thesis by (simp add: hd_append)
qed

lemma show_segments_hd: "ws \<noteq> [] \<Longrightarrow> hd (show_segments ws @ s) \<noteq> CHR '':''"
  using show_group_hd by (cases ws) (auto simp: show_segments_Cons)

lemma split_double_segments:
  "split_double (show_segments ws @ CHR '':'' # CHR '':'' # t) = Some (show_segments ws, t)"
proof (induction ws)
  case (Cons w ws)
  show ?case
  proof (cases "ws = []")
    case True
    then show ?thesis by (simp add: show_segments_Cons split_double_step)
  next
    case False
    then show ?thesis
      using Cons show_segments_hd [OF False, of "CHR '':'' # CHR '':'' # t"]
        split_double_single [of "show_segments ws @ CHR '':'' # CHR '':'' # t"]
      by (simp add: show_segments_Cons split_double_step del: hd_append2)
  qed
qed simp

lemma split_double_none: "split_double (show_segments ws) = None"
proof (induction ws)
  case (Cons w ws)
  show ?case
  proof (cases "ws = []")
    case True
    then show ?thesis by (simp add: show_segments_Cons split_double_plain)
  next
    case False
    then show ?thesis
      using Cons show_segments_hd [of ws "[]"]
      by (simp add: show_segments_Cons split_double_step split_double_single)
  qed
qed simp

text \<open>The run that the printer leaves out consists of zeros.\<close>

lemma zero_run_take: "take (zero_run ws) ws = replicate (zero_run ws) 0"
  by (induction ws) auto

lemma zero_run_le: "zero_run ws \<le> length ws"
  by (induction ws) auto

lemma longest_zeros_run:
  assumes "longest_zeros ws = (st, ln)" "0 < ln"
  shows "st + ln \<le> length ws \<and> take ln (drop st ws) = replicate ln 0"
proof -
  let ?f = "\<lambda>(st, ln) i. let r = zero_run (drop i ws) in if ln < r then (i, r) else (st, ln)"
  let ?ok = "\<lambda>p. snd p = zero_run (drop (fst p) ws) \<and> fst p < length ws \<or> snd p = 0"
  have "?ok (?f p i)" if "?ok p" "i < length ws" for p i
    using that by (cases p) (simp add: Let_def)
  then have "?ok p \<Longrightarrow> \<forall>i \<in> set is. i < length ws \<Longrightarrow> ?ok (foldl ?f p is)" for p "is"
    by (induction "is" arbitrary: p) (simp_all only: foldl.simps, simp_all)
  from this [of "(0, 0)" "[0..<length ws]"] assms
  have "ln = zero_run (drop st ws)" "st < length ws" by (auto simp: longest_zeros_def)
  then show ?thesis
    using zero_run_take [of "drop st ws"] zero_run_le [of "drop st ws"] by auto
qed

lemma parse_v6_compressed:
  assumes "st + ln \<le> length ws" "take ln (drop st ws) = replicate ln 0" "1 < ln" "length ws = 8"
  shows "parse_v6 (show_segments (take st ws) @ ''::'' @ show_segments (drop (st + ln) ws)) = Some ws"
proof -
  have lens: "length (take st ws) + length (drop (st + ln) ws) = 8 - ln" using assms by simp
  have "ws = take st ws @ take ln (drop st ws) @ drop (st + ln) ws"
    by (metis append_take_drop_id drop_drop add.commute)
  then have "take st ws @ replicate (8 - (8 - ln)) 0 @ drop (st + ln) ws = ws"
    using assms by simp
  then show ?thesis
    using lens assms(3) unfolding parse_v6_def append.simps split_double_segments
    by (simp add: parse_groups_show)
qed

section \<open>Mapped addresses\<close>

lemma parse_v6_mapped:
  "parse_v6 (''::ffff:'' @ show_v4 ip) = Some ([0, 0, 0, 0, 0, 0xffff] @ v4_groups ip)"
proof -
  obtain a b c d where ip: "ip = (a, b, c, d)" by (metis prod_cases4)
  have nosep: "CHR '':'' \<notin> set (show_v4 ip)"
    by (auto simp: show_v4_def ip)
  have dot: "CHR ''.'' \<in> set (show_v4 ip)" by (simp add: show_v4_def ip)
  have read_dot: "read_digits 16 n s = None" if "CHR ''.'' \<in> set s" for n s
    using that by (induction s arbitrary: n)
      (auto simp: to_digit_def digit_val_def ascii_defs split: option.splits)
  have group: "parse_group (show_v4 ip) = None" by (simp add: parse_group_def read_dot [OF dot])
  have "split_at (CHR '':'') (''ffff:'' @ show_v4 ip) = [''ffff'', show_v4 ip]"
    using split_at_sep [of "CHR '':''" "''ffff''" "show_v4 ip"] split_at_plain [OF nosep] by simp
  moreover have "parse_group ''ffff'' = Some 0xffff"
    by (simp add: parse_group_def to_digit_def digit_val_def ascii_defs)
  ultimately have "parse_groups True (''ffff:'' @ show_v4 ip) = Some (0xffff # v4_groups ip)"
    by (simp add: parse_groups_def group v4_text.dec_enc)
  then show ?thesis by (simp add: parse_v6_def parse_groups_def v4_groups_def ip numeral_eq_Suc)
qed

lemma v4_groups_halves:
  "v4_groups (ucast (drop_bit 8 v), ucast v, ucast (drop_bit 8 w), ucast w) = [v, w]"
proof -
  have half: "of_nat (256 * unat (ucast (drop_bit 8 u) :: u8) + unat (ucast u :: u8)) = u" for u :: u16
  proof -
    have "unat u div 256 < 256" using u16_bound [of u] by (simp add: less_mult_imp_div_less)
    then have "unat (ucast (drop_bit 8 u) :: u8) = unat u div 256"
      by (simp add: unsigned_ucast_eq take_bit_eq_mod drop_bit_eq_div unat_div_distrib)
    moreover have "unat (ucast u :: u8) = unat u mod 256" by (simp add: unsigned_ucast_eq take_bit_eq_mod)
    ultimately have "256 * unat (ucast (drop_bit 8 u) :: u8) + unat (ucast u :: u8) = unat u" by simp
    then show ?thesis by (metis of_nat_unat ucast_id)
  qed
  show ?thesis by (simp only: v4_groups_def prod.case half)
qed

lemma parse_v6_show: "length ws = 8 \<Longrightarrow> parse_v6 (show_v6 ws) = Some ws"
proof -
  assume len: "length ws = 8"
  obtain st ln where z: "longest_zeros ws = (st, ln)" by fastforce
  show ?thesis
  proof (cases "take 6 ws = [0, 0, 0, 0, 0, 0xffff]")
    case True
    have "ws = take 6 ws @ [ws ! 6, ws ! 7]"
      using len by (auto simp: length_Suc_conv numeral_eq_Suc)
    then have "[0, 0, 0, 0, 0, 0xffff] @ [ws ! 6, ws ! 7] = ws" using True by simp
    then show ?thesis
      unfolding show_v6_def if_P [OF True] parse_v6_mapped v4_groups_halves by simp
  next
    case False
    show ?thesis
    proof (cases "1 < ln")
      case True
      then show ?thesis
        using False longest_zeros_run [OF z] parse_v6_compressed [of st ln ws] len
        by (simp add: show_v6_def z)
    next
      case plain: False
      then show ?thesis
        using False len by (simp add: show_v6_def z parse_v6_def split_double_none parse_groups_show)
    qed
  qed
qed

section \<open>Either form\<close>

lemma colon_in_v6: "length ws = 8 \<Longrightarrow> CHR '':'' \<in> set (show_v6 ws)"
proof -
  assume len: "length ws = 8"
  then obtain a b rest where "ws = a # b # rest" by (auto simp: length_Suc_conv numeral_eq_Suc)
  then have "CHR '':'' \<in> set (show_segments ws)" by (simp add: show_segments_Cons)
  then show ?thesis by (cases "longest_zeros ws") (auto simp: show_v6_def)
qed

lemma parse_v4_colon: "CHR '':'' \<in> set s \<Longrightarrow> parse_v4 s = None"
proof -
  assume colon: "CHR '':'' \<in> set s"
  have "c \<in> set s \<Longrightarrow> c \<noteq> sep \<Longrightarrow> \<exists>p \<in> set (split_at sep s). c \<in> set p" for c sep
    by (induction s) (auto split: list.split)
  from this [OF colon, of "CHR ''.''"]
  obtain p where p: "p \<in> set (split_at (CHR ''.'') s)" "CHR '':'' \<in> set p" by auto
  have "read_digits 10 n q = None" if "CHR '':'' \<in> set q" for n q
    using that by (induction q arbitrary: n)
      (auto simp: to_digit_def digit_val_def ascii_defs split: option.splits)
  then have "parse_octet p = None" using p(2) by (simp add: parse_octet_def)
  then have "None \<in> set (map parse_octet (split_at (CHR ''.'') s))" using p(1) by force
  then show ?thesis by (auto simp: parse_v4_def split: list.splits option.splits)
qed

lemma parse_ip_show: "parse_ip (show_ip ip) = Some ip"
  by (cases ip) (simp_all add: parse_ip_def v4_text.dec_enc parse_v6_show parse_v4_colon colon_in_v6)

interpretation ip_text: text_codec show_ip parse_ip
  by unfold_locales (rule parse_ip_show)

end
