(* ===== verification/Database.thy ===== *)
theory Database
  imports Ip_Text Samples
begin

text \<open>
  \<^verbatim>\<open>src/db.rs\<close>: the SQLite database of the daemon.

  A table is a map from its key to the row, which is what the primary keys and the unique names of
  the schema enforce. Statements run in autocommit mode, so an operation is a \<open>call\<close> on the
  database and an error leaves what was written before it. Integer columns hold \<open>int\<close>, text
  columns \<open>string\<close>. The order in which a query without \<open>ORDER BY\<close> returns rows is an argument of
  the loader (\<open>order\<close>, \<open>iorder\<close>). Parsing hosts and country codes and the JSON and TOML texts
  belong to crates: they are the fields of \<open>DbCrates\<close> and \<open>TomlCrate\<close>.
\<close>

section \<open>Tables\<close>

record ServerRow =
  sr_ip :: string
  sr_domain :: string
  sr_region :: string
  sr_state :: string
  sr_quota :: int
  sr_enabled :: int
  sr_ssh_port :: int
  sr_dns :: string
  sr_ui :: string
  sr_sub :: string
  sr_health_path :: string
  sr_doh_endpoint :: string
  sr_xui_username :: string
  sr_xui_password :: string
  sr_xui_token :: "string option"
  sr_xui_webpath :: string
  sr_xui_subpath :: string
  sr_xui_jsubpath :: string
  sr_proxied :: int
  sr_outbound_block :: string

record StatRow =
  st_health :: string
  st_count :: int
  st_since :: int
  st_fix_try :: int

record InboundRow =
  ir_port :: int
  ir_kind :: string
  ir_traffic :: int
  ir_expiry :: int
  ir_comment :: string
  ir_mother_subid :: string
  ir_total :: int

record Db =
  db_options :: "string \<rightharpoonup> string"
  db_servers :: "string \<rightharpoonup> ServerRow"
  db_stats :: "string \<times> string \<rightharpoonup> StatRow"
  db_inbounds :: "string \<times> string \<rightharpoonup> InboundRow"
  db_foreign_keys :: bool

type_synonym 'a query = "(Db, BoxError, 'a) call"

record DbCrates =
  host_parse :: "string \<Rightarrow> Host option"
  for_alpha2 :: "string \<Rightarrow> CountryCode option"
  inbounds_json :: "Inbound list \<Rightarrow> string"
  json_inbounds :: "string \<Rightarrow> Inbound list option"
  countries_json :: "CountryCode list \<Rightarrow> string"
  json_countries :: "string \<Rightarrow> CountryCode list option"

text \<open>\<open>to_sql_err\<close> wraps any error as a conversion failure.\<close>

definition to_sql_err :: "'a option \<Rightarrow> 'a res" where
  "to_sql_err r = ok_or r (External ''FromSqlConversionFailure'')"

section \<open>Statements\<close>

definition insert_option :: "string \<times> string \<Rightarrow> unit query" where
  "insert_option kv db = (Inr (), db\<lparr>db_options := or_insert (db_options db) (fst kv) (snd kv)\<rparr>)"

definition update_option :: "string \<times> string \<Rightarrow> unit query" where
  "update_option kv db =
     (Inr (), if db_options db (fst kv) \<noteq> None then db\<lparr>db_options := (db_options db)(fst kv \<mapsto> snd kv)\<rparr> else db)"

text \<open>Deleting servers takes their statistics and inbounds along when foreign keys are enforced.\<close>

definition delete_servers_except :: "string list \<Rightarrow> unit query" where
  "delete_servers_except keep db =
     (let gone = (\<lambda>nm. nm \<notin> set keep \<and> db_servers db nm \<noteq> None);
          db1 = db\<lparr>db_servers := \<lambda>nm. if nm \<in> set keep then db_servers db nm else None\<rparr>
      in (Inr (), if db_foreign_keys db
            then db1\<lparr>db_stats := \<lambda>k. if gone (fst k) then None else db_stats db k,
                      db_inbounds := \<lambda>k. if gone (fst k) then None else db_inbounds db k\<rparr>
            else db1))"

definition upsert_server :: "string \<Rightarrow> ServerRow \<Rightarrow> unit query" where
  "upsert_server nm row db = (Inr (), db\<lparr>db_servers := (db_servers db)(nm \<mapsto> row)\<rparr>)"

definition foreign_key :: "string \<Rightarrow> unit query" where
  "foreign_key nm db =
     (ensure (db_foreign_keys db \<longrightarrow> db_servers db nm \<noteq> None) (External ''FOREIGN KEY constraint failed''), db)"

definition upsert_inbound :: "string \<Rightarrow> string \<Rightarrow> InboundRow \<Rightarrow> unit query" where
  "upsert_inbound nm grp row =
     via (foreign_key nm) (\<lambda>_ db. (Inr (), db\<lparr>db_inbounds := (db_inbounds db)((nm, grp) \<mapsto> row)\<rparr>))"

definition delete_inbounds_except :: "string \<Rightarrow> string list \<Rightarrow> unit query" where
  "delete_inbounds_except nm keep db =
     (Inr (), db\<lparr>db_inbounds := \<lambda>k. if fst k = nm \<and> snd k \<notin> set keep then None else db_inbounds db k\<rparr>)"

definition fresh_stat :: StatRow where
  "fresh_stat = \<lparr>st_health = ''Unknown'', st_count = 0, st_since = 0, st_fix_try = 0\<rparr>"

definition insert_stat :: "string \<Rightarrow> string \<Rightarrow> unit query" where
  "insert_stat nm svc db =
     (if db_stats db (nm, svc) \<noteq> None then (Inr (), db)
      else via (foreign_key nm) (\<lambda>_ db. (Inr (), db\<lparr>db_stats := (db_stats db)((nm, svc) \<mapsto> fresh_stat)\<rparr>)) db)"

definition delete_stats_except :: "string \<Rightarrow> string list \<Rightarrow> unit query" where
  "delete_stats_except nm keep db =
     (Inr (), db\<lparr>db_stats := \<lambda>k. if fst k = nm \<and> snd k \<notin> set keep then None else db_stats db k\<rparr>)"

section \<open>The schema\<close>

text \<open>Tables that are absent are created empty, so a new file is \<open>empty_db\<close>.\<close>

definition empty_db :: Db where
  "empty_db = \<lparr>db_options = Map.empty, db_servers = Map.empty, db_stats = Map.empty,
     db_inbounds = Map.empty, db_foreign_keys = False\<rparr>"

definition default_options :: "(string \<times> string) list" where
  "default_options = [(''cloud_config'', ''''), (''inbound_set'', ''[]''), (''auto_fix'', ''true''),
     (''fix_threshold'', show_u64 FIX_THRESHOLD), (''monitor_interval'', show_u64 SVC_MON_INTERVAL)]"

definition create_db :: "unit query" where
  "create_db =
     via (via_each (\<lambda>_ kv. insert_option kv) () default_options) (\<lambda>_ db.
     (Inr (), db\<lparr>db_foreign_keys := True\<rparr>))"

section \<open>Writing a cloud\<close>

definition sql_bool :: "bool \<Rightarrow> int" where
  "sql_bool b = (if b then 1 else 0)"

definition server_row :: "DbCrates \<Rightarrow> KetServer \<Rightarrow> ServerRow" where
  "server_row lib s =
     (let sec = srv_secrets s in
      \<lparr>sr_ip = show_ip (srv_ip s), sr_domain = srv_domain s, sr_region = srv_region s,
       sr_state = state_to_string (srv_state s), sr_quota = uint (srv_quota s),
       sr_enabled = sql_bool (srv_enabled s), sr_ssh_port = uint (srv_ssh_port s),
       sr_dns = srv_dns_subdomain s, sr_ui = srv_ui_subdomain s, sr_sub = srv_sub_subdomain s,
       sr_health_path = health_path sec, sr_doh_endpoint = doh_endpoint sec,
       sr_xui_username = xui_username sec, sr_xui_password = xui_password sec,
       sr_xui_token = xui_token sec, sr_xui_webpath = xui_webpath sec, sr_xui_subpath = xui_subpath sec,
       sr_xui_jsubpath = xui_jsubpath sec, sr_proxied = sql_bool (srv_cloudflare_proxied s),
       sr_outbound_block = countries_json lib (srv_outbound_block s)\<rparr>)"

definition inbound_row :: "Inbound \<Rightarrow> string \<Rightarrow> InboundRow" where
  "inbound_row inb subid =
     \<lparr>ir_port = uint (inb_port inb), ir_kind = kind_to_string (inb_kind inb),
      ir_traffic = uint (inb_traffic inb), ir_expiry = uint (inb_expiry inb),
      ir_comment = inb_comment inb, ir_mother_subid = subid, ir_total = uint (inb_total inb)\<rparr>"

definition cloud_options :: "DbCrates \<Rightarrow> string \<Rightarrow> CloudSettings \<Rightarrow> (string \<times> string) list" where
  "cloud_options lib cloud_config st =
     [(''cloud_config'', cloud_config), (''inbound_set'', inbounds_json lib (inbound_set st)),
      (''auto_fix'', show_bool (auto_fix st)), (''fix_threshold'', show_u64 (fix_threshold st)),
      (''monitor_interval'', show_u64 (monitor_interval st))]"

definition write_inbound :: "KetServer \<Rightarrow> Inbound \<Rightarrow> unit query" where
  "write_inbound s inb =
     via (pure (ok_or (mother_subids (srv_secrets s) (inb_name inb))
                  (MotherSubidMissing (srv_name s) (inb_name inb)))) (\<lambda>subid.
     upsert_inbound (srv_name s) (inb_name inb) (inbound_row inb subid))"

definition write_server_groups :: "KetServer \<Rightarrow> unit query" where
  "write_server_groups s =
     via (delete_inbounds_except (srv_name s) (map inb_name (srv_inbounds s))) (\<lambda>_.
     via (via_each (\<lambda>_ inb. write_inbound s inb) () (srv_inbounds s)) (\<lambda>_.
     via (delete_stats_except (srv_name s) (svc_kinds_string s)) (\<lambda>_.
     via_each (\<lambda>_ svc. insert_stat (srv_name s) svc) () (svc_kinds_string s))))"

definition update_db :: "DbCrates \<Rightarrow> string res \<Rightarrow> Cloud \<Rightarrow> unit query" where
  "update_db lib config_file cloud =
     via (pure config_file) (\<lambda>cloud_config.
     via (via_each (\<lambda>_ kv. update_option kv) () (cloud_options lib cloud_config (settings cloud))) (\<lambda>_.
     via (delete_servers_except (server_names cloud)) (\<lambda>_.
     via (via_each (\<lambda>_ s. upsert_server (srv_name s) (server_row lib s)) () (servers cloud)) (\<lambda>_.
     via_each (\<lambda>_ s. write_server_groups s) () (servers cloud)))))"

section \<open>Loading a cloud\<close>

definition load_inbound :: "string \<Rightarrow> InboundRow \<Rightarrow> Inbound res" where
  "load_inbound nm row =
     and_then (to_sql_err (kind_from_str (ir_kind row))) (\<lambda>kind.
     Inr \<lparr>inb_name = nm, inb_port = word_of_int (ir_port row), inb_kind = kind,
          inb_total = word_of_int (ir_total row), inb_traffic = word_of_int (ir_traffic row),
          inb_expiry = word_of_int (ir_expiry row), inb_comment = ir_comment row\<rparr>)"

text \<open>One round of the loop over the rows of the inbounds: the sub-identifier goes to the side.\<close>

definition load_inbound_row ::
  "(Inbound list \<times> (string \<rightharpoonup> string)) \<Rightarrow> string \<times> InboundRow \<Rightarrow> (Inbound list \<times> (string \<rightharpoonup> string)) res" where
  "load_inbound_row acc nr =
     (let (nm, row) = nr; (inbounds, ids) = acc in
      and_then (load_inbound nm row) (\<lambda>inb.
      Inr (inbounds @ [inb], or_insert ids nm (ir_mother_subid row))))"

definition load_server ::
  "DbCrates \<Rightarrow> string \<Rightarrow> ServerRow \<Rightarrow> (string \<times> InboundRow) list \<Rightarrow> KetServer res" where
  "load_server lib nm row inb_rows =
     and_then (to_sql_err (parse_ip (sr_ip row))) (\<lambda>ip.
     and_then (to_sql_err (host_parse lib (sr_domain row))) (\<lambda>domain.
     and_then (to_sql_err (for_alpha2 lib (sr_region row))) (\<lambda>region.
     and_then (to_sql_err (state_from_str (sr_state row))) (\<lambda>state.
     and_then (to_sql_err (json_countries lib (sr_outbound_block row))) (\<lambda>block.
     and_then (try_fold load_inbound_row ([], Map.empty) inb_rows) (\<lambda>(inbounds, ids).
     let ssh_port = word_of_int (sr_ssh_port row) in
     Inr \<lparr>srv_name = nm, srv_ip = ip, srv_domain = domain, srv_region = region, srv_state = state,
          srv_quota = word_of_int (sr_quota row), srv_enabled = (sr_enabled row = 1),
          srv_ssh_port = ssh_port, srv_dns_subdomain = sr_dns row, srv_ui_subdomain = sr_ui row,
          srv_sub_subdomain = sr_sub row, srv_cloudflare_proxied = (sr_proxied row = 1),
          srv_inbounds = inbounds, srv_outbound_block = block,
          srv_ansible_conn = Some \<lparr>ansible_host = Some (sr_ip row), ansible_port = Some ssh_port,
            ansible_user = Some ROOT_USER, ansible_connection = None\<rparr>,
          srv_secrets = \<lparr>health_path = sr_health_path row, doh_endpoint = sr_doh_endpoint row,
            xui_username = sr_xui_username row, xui_password = sr_xui_password row,
            xui_token = sr_xui_token row, xui_webpath = sr_xui_webpath row,
            xui_subpath = sr_xui_subpath row, xui_jsubpath = sr_xui_jsubpath row, mother_subids = ids\<rparr>,
          srv_cfstate = None, srv_xui = None\<rparr>))))))"

definition get_option :: "string \<Rightarrow> (string \<Rightarrow> 'a option) \<Rightarrow> Db \<Rightarrow> 'a res" where
  "get_option key parse db =
     and_then (ok_or (db_options db key) (External ''QueryReturnedNoRows'')) (\<lambda>v. to_sql_err (parse v))"

definition load_settings :: "DbCrates \<Rightarrow> Db \<Rightarrow> CloudSettings res" where
  "load_settings lib db =
     and_then (get_option ''inbound_set'' (json_inbounds lib) db) (\<lambda>ins.
     and_then (get_option ''auto_fix'' parse_bool db) (\<lambda>fix.
     and_then (get_option ''fix_threshold'' parse_u64 db) (\<lambda>threshold.
     and_then (get_option ''monitor_interval'' parse_u64 db) (\<lambda>interval.
     Inr \<lparr>inbound_set = ins, auto_fix = fix, fix_threshold = threshold, monitor_interval = interval\<rparr>))))"

text \<open>The rows a query returns, for keys in the order in which it returns them.\<close>

definition rows :: "('k \<rightharpoonup> 'r) \<Rightarrow> 'k list \<Rightarrow> ('k \<times> 'r) list" where
  "rows m ks = map (\<lambda>k. (k, the (m k))) (filter (\<lambda>k. m k \<noteq> None) ks)"

definition load_cloud :: "DbCrates \<Rightarrow> string list \<Rightarrow> (string \<Rightarrow> string list) \<Rightarrow> Db \<Rightarrow> Cloud res" where
  "load_cloud lib order iorder db =
     and_then (try_map (\<lambda>(nm, row). load_server lib nm row (rows (\<lambda>g. db_inbounds db (nm, g)) (iorder nm)))
                 (rows (db_servers db) order)) (\<lambda>ss.
     and_then (load_settings lib db) (\<lambda>st. Inr \<lparr>servers = ss, settings = st\<rparr>))"

section \<open>Provisioned and destroyed servers\<close>

text \<open>
  The server in memory (a shared cell), the database, the text of the configuration file and the
  directories of the servers, which one operation changes in turn. A TOML document is what the
  code reads of it: the tables of the array \<open>servers\<close> with their names and states.
\<close>

datatype TomlValue = TStr string | TOther

record TomlServer =
  ts_name :: "TomlValue option"
  ts_state :: "TomlValue option"
  ts_rest :: string

record TomlDoc =
  td_servers :: "TomlServer list option"
  td_rest :: string

record TomlCrate =
  toml_parse :: "string \<Rightarrow> TomlDoc res"
  toml_print :: "TomlDoc \<Rightarrow> string"

record Site =
  site_server :: KetServer
  site_db :: Db
  site_config :: "string res"
  site_dirs :: "string list"

type_synonym 'a site_call = "(Site, BoxError, 'a) call"

text \<open>Indexing a table with a key it lacks panics, which ends the task like an error.\<close>

fun set_toml_state :: "string \<Rightarrow> string \<Rightarrow> TomlServer list \<Rightarrow> TomlServer list res" where
  "set_toml_state nm st [] = Inr []"
| "set_toml_state nm st (t # ts) =
     (case ts_name t of
        None \<Rightarrow> Inl (External ''index not found'')
      | Some v \<Rightarrow> (if v = TStr nm then Inr (t\<lparr>ts_state := Some (TStr st)\<rparr> # ts)
                  else and_then (set_toml_state nm st ts) (\<lambda>ts'. Inr (t # ts'))))"

definition mark_config :: "TomlCrate \<Rightarrow> string \<Rightarrow> string \<Rightarrow> unit site_call" where
  "mark_config toml nm st w =
     via (pure (site_config w)) (\<lambda>text.
     via (pure (toml_parse toml text)) (\<lambda>doc.
     via (pure (ok_or (td_servers doc) (External ''servers must be an array of tables''))) (\<lambda>ts.
     via (pure (set_toml_state nm st ts)) (\<lambda>ts' w.
     (Inr (), w\<lparr>site_config := Inr (toml_print toml (doc\<lparr>td_servers := Some ts'\<rparr>))\<rparr>))))) w"

definition store_server :: "(KetServer \<Rightarrow> KetServer) \<Rightarrow> unit site_call" where
  "store_server f w = (Inr (), w\<lparr>site_server := f (site_server w)\<rparr>)"

text \<open>\<open>UPDATE servers SET state = .., xui_token = .. WHERE name = ..\<close>\<close>

definition update_state_row :: "string \<Rightarrow> string \<Rightarrow> string option \<Rightarrow> unit query" where
  "update_state_row nm st token db =
     (Inr (), db\<lparr>db_servers := (db_servers db)(nm := map_option
        (\<lambda>row. row\<lparr>sr_state := st, sr_xui_token := token\<rparr>) (db_servers db nm))\<rparr>)"

definition on_db :: "'a query \<Rightarrow> 'a site_call" where
  "on_db q w = (let (r, db) = q (site_db w) in (r, w\<lparr>site_db := db\<rparr>))"

text \<open>\<open>OnceLock::set\<close> refuses a second value.\<close>

definition set_token :: "string \<Rightarrow> unit site_call" where
  "set_token token w =
     (if xui_token (srv_secrets (site_server w)) = None
      then store_server (\<lambda>s. s\<lparr>srv_secrets := (srv_secrets s)\<lparr>xui_token := Some token\<rparr>\<rparr>) w
      else (Inl TokenAlreadySet, w))"

definition move_conn :: "u16 \<Rightarrow> unit site_call" where
  "move_conn port w =
     via (pure (ok_or (srv_ansible_conn (site_server w)) (ConnMissing (srv_name (site_server w))))) (\<lambda>conn.
     store_server (\<lambda>s. s\<lparr>srv_ansible_conn := Some \<lparr>ansible_host = ansible_host conn, ansible_port = Some port,
       ansible_user = ansible_user conn, ansible_connection = None\<rparr>\<rparr>)) w"

definition mark_server_production :: "TomlCrate \<Rightarrow> string \<Rightarrow> unit site_call" where
  "mark_server_production toml token w =
     (let nm = srv_name (site_server w) in
      via (store_server (\<lambda>s. s\<lparr>srv_state := Production\<rparr>)) (\<lambda>_.
      via (set_token token) (\<lambda>_.
      via (move_conn (srv_ssh_port (site_server w))) (\<lambda>_.
      via (on_db (update_state_row nm (state_to_string Production) (Some token))) (\<lambda>_.
      mark_config toml nm ''Production'')))) w)"

definition remove_server_dir :: "string \<Rightarrow> unit site_call" where
  "remove_server_dir nm w =
     (if nm \<in> set (site_dirs w) then (Inr (), w\<lparr>site_dirs := removeAll nm (site_dirs w)\<rparr>)
      else (Inl (External ''No such file or directory''), w))"

definition mark_server_offgrid :: "TomlCrate \<Rightarrow> unit site_call" where
  "mark_server_offgrid toml w =
     (let nm = srv_name (site_server w) in
      via (store_server (\<lambda>s. s\<lparr>srv_state := Offgrid\<rparr>)) (\<lambda>_.
      via (move_conn ANSIBLE_PORT) (\<lambda>_.
      via (on_db (update_state_row nm (state_to_string Offgrid) None)) (\<lambda>_.
      via (mark_config toml nm ''Offgrid'') (\<lambda>_.
      remove_server_dir nm)))) w)"

section \<open>Service statistics\<close>

text \<open>A \<open>u64\<close> beyond the range of the signed column is refused on writing, a negative value on reading.\<close>

definition sql_u64 :: "u64 \<Rightarrow> int res" where
  "sql_u64 w = (if uint w < 2 ^ 63 then Inr (uint w) else Inl (External ''ToSqlConversionFailure''))"

definition unsigned_col :: "nat \<Rightarrow> int \<Rightarrow> int res" where
  "unsigned_col bits n = (if 0 \<le> n \<and> n < 2 ^ bits then Inr n else Inl (External ''IntegralValueOutOfRange''))"

definition write_status :: "SvcEntry \<Rightarrow> unit query" where
  "write_status stat =
     (let k = (srv_name (si_server (se_info stat)), svc_to_string (si_kind (se_info stat)));
          st = se_status stat in
      via (pure (sql_u64 (failed_count st))) (\<lambda>count.
      via (pure (sql_u64 (failed_since st))) (\<lambda>since db.
      (Inr (), db\<lparr>db_stats := (db_stats db)(k := map_option (\<lambda>_. \<lparr>st_health = health_to_string (health st),
        st_count = count, st_since = since, st_fix_try = uint (fix_try st)\<rparr>) (db_stats db k))\<rparr>))))"

definition write_status_data :: "SvcEntry list \<Rightarrow> unit query" where
  "write_status_data stats = via_each (\<lambda>_ stat. write_status stat) () stats"

definition read_status_data :: "SvcInfo \<Rightarrow> Db \<Rightarrow> SvcStatus res" where
  "read_status_data info db =
     and_then (ok_or (db_stats db (srv_name (si_server info), svc_to_string (si_kind info)))
                 (External ''QueryReturnedNoRows'')) (\<lambda>row.
     and_then (unsigned_col 63 (st_count row)) (\<lambda>count.
     and_then (unsigned_col 63 (st_since row)) (\<lambda>since.
     and_then (unsigned_col 8 (st_fix_try row)) (\<lambda>fix.
     and_then (ok_or (health_from_str (st_health row)) (External ''SvcHealth'')) (\<lambda>h.
     Inr \<lparr>health = h, failed_count = word_of_int count, failed_since = word_of_int since,
          fix_try = word_of_int fix\<rparr>)))))"

section \<open>Backup and restoration of the configuration\<close>

text \<open>
  The backup is a copy of the database file and the cloud as TOML. The supervisor inbounds are
  removed from the TOML tables of the servers; serializing is an argument (\<open>to_toml\<close>), so the
  removal is stated on the servers whose tables they are. Fields marked \<open>serde(skip)\<close> are not written.
\<close>

record Backup =
  bk_db :: Db
  bk_toml :: string

definition drop_super :: "KetServer \<Rightarrow> KetServer" where
  "drop_super s = s\<lparr>srv_inbounds := filter (\<lambda>inb. inb_name inb \<noteq> super_name) (srv_inbounds s)\<rparr>"

definition backup_cloud :: "Cloud \<Rightarrow> Cloud" where
  "backup_cloud c = c\<lparr>servers := map drop_super (servers c)\<rparr>"

definition create_backup :: "(Cloud \<Rightarrow> string res) \<Rightarrow> Cloud \<Rightarrow> Db \<Rightarrow> Backup res" where
  "create_backup to_toml c db =
     and_then (to_toml (backup_cloud c)) (\<lambda>txt. Inr \<lparr>bk_db = db, bk_toml = txt\<rparr>)"

definition restore_config :: "unit site_call" where
  "restore_config w =
     via (pure (get_option ''cloud_config'' Some (site_db w))) (\<lambda>cloud_config.
     if trim_ws (str_chars cloud_config) = [] then pure (Inl NoBackup)
     else (\<lambda>w. (Inr (), w\<lparr>site_config := Inr cloud_config\<rparr>))) w"

end
