(* ===== verification/Database_Laws.thy ===== *)
theory Database_Laws
  imports Database
begin

text \<open>
  What the operations of \<open>Database\<close> guarantee: the tables after \<open>update_db\<close> are a function of the
  cloud (and of the statistics kept), loading them gives the cloud back, references stay intact,
  statistics are read as they were written, and a provisioned or destroyed server is stored as such.
\<close>

section \<open>Contents of the tables\<close>

definition server_table :: "DbCrates \<Rightarrow> Cloud \<Rightarrow> string \<rightharpoonup> ServerRow" where
  "server_table lib c nm = map_option (server_row lib) (find_server nm c)"

definition inbound_column :: "KetServer \<Rightarrow> string \<rightharpoonup> InboundRow" where
  "inbound_column s g = (case find (\<lambda>i. inb_name i = g) (srv_inbounds s) of
     None \<Rightarrow> None | Some i \<Rightarrow> map_option (inbound_row i) (mother_subids (srv_secrets s) g))"

definition stat_column :: "KetServer \<Rightarrow> (string \<rightharpoonup> StatRow) \<Rightarrow> string \<rightharpoonup> StatRow" where
  "stat_column s old svc = (if svc \<in> set (svc_kinds_string s)
     then Some (case old svc of None \<Rightarrow> fresh_stat | Some r \<Rightarrow> r) else None)"

text \<open>Every inbound of a server has a sub-identifier, and the names are told apart.\<close>

definition storable :: "KetServer \<Rightarrow> bool" where
  "storable s \<longleftrightarrow> distinct (map inb_name (srv_inbounds s))
     \<and> list_all (\<lambda>i. mother_subids (srv_secrets s) (inb_name i) \<noteq> None) (srv_inbounds s)"

text \<open>The statistics and inbounds refer to stored servers, as the foreign keys demand.\<close>

definition refs_ok :: "Db \<Rightarrow> bool" where
  "refs_ok db \<longleftrightarrow> db_foreign_keys db
     \<and> fst ` dom (db_stats db) \<subseteq> dom (db_servers db) \<and> fst ` dom (db_inbounds db) \<subseteq> dom (db_servers db)"

definition option_keys :: "string list" where
  "option_keys = [''cloud_config'', ''inbound_set'', ''auto_fix'', ''fix_threshold'', ''monitor_interval'']"

definition has_schema :: "Db \<Rightarrow> bool" where
  "has_schema db \<longleftrightarrow> refs_ok db \<and> set option_keys \<subseteq> dom (db_options db)"

section \<open>Loops of statements\<close>

lemma via_each_inv:
  assumes "\<And>u x w. P w \<Longrightarrow> P (snd (f u x w))" "P w"
  shows "P (snd (via_each f u xs w))"
  using assms(2)
proof (induction xs arbitrary: u w)
  case (Cons x xs)
  then show ?case
    using assms(1) [OF Cons.prems, of u x] by (cases "f u x w"; cases "fst (f u x w)") (auto simp: via_def)
qed (simp add: pure_def)

lemma via_inv: "(\<And>w. P w \<Longrightarrow> P (snd (m w))) \<Longrightarrow> (\<And>x w. P w \<Longrightarrow> P (snd (k x w))) \<Longrightarrow> P w \<Longrightarrow> P (snd (via m k w))"
  by (auto simp: via_def split: prod.split sum.split) (metis snd_conv)+

section \<open>The schema\<close>

lemma insert_options:
  "via_each (\<lambda>_ kv. insert_option kv) () kvs db = (Inr (), db\<lparr>db_options := map_of kvs ++ db_options db\<rparr>)"
proof (induction kvs arbitrary: db)
  case (Cons kv kvs)
  have "map_of kvs ++ or_insert m (fst kv) (snd kv) = map_of (kv # kvs) ++ m" for m :: "string \<rightharpoonup> string"
    by (auto simp: fun_eq_iff map_add_def split: option.splits)
  moreover have "insert_option kv db = (Inr (), db\<lparr>db_options := or_insert (db_options db) (fst kv) (snd kv)\<rparr>)"
    by (simp add: insert_option_def)
  ultimately show ?case by (simp add: Cons.IH del: map_of.simps or_insert_apply)
qed (simp add: pure_def)

lemma create_db_result:
  "create_db db = (Inr (), db\<lparr>db_options := map_of default_options ++ db_options db, db_foreign_keys := True\<rparr>)"
  by (simp add: create_db_def insert_options)

lemma create_db_schema:
  "fst ` dom (db_stats db) \<subseteq> dom (db_servers db) \<Longrightarrow> fst ` dom (db_inbounds db) \<subseteq> dom (db_servers db) \<Longrightarrow>
     has_schema (snd (create_db db))"
  by (auto simp: create_db_result has_schema_def refs_ok_def option_keys_def default_options_def)

section \<open>Options and servers\<close>

lemma map_of_rev: "distinct (map fst xs) \<Longrightarrow> map_of (rev xs) = map_of xs"
  by (rule map_of_eqI) (auto simp: rev_map [symmetric] map_of_eq_Some_iff)

lemma update_options:
  assumes "fst ` set kvs \<subseteq> dom (db_options db)"
  shows "via_each (\<lambda>_ kv. update_option kv) () kvs db
     = (Inr (), db\<lparr>db_options := db_options db ++ map_of (rev kvs)\<rparr>)"
  using assms
proof (induction kvs arbitrary: db)
  case (Cons kv kvs)
  let ?db = "db\<lparr>db_options := (db_options db)(fst kv \<mapsto> snd kv)\<rparr>"
  have step: "update_option kv db = (Inr (), ?db)" using Cons.prems by (auto simp: update_option_def)
  have "via_each (\<lambda>_ kv. update_option kv) () (kv # kvs) db = via_each (\<lambda>_ kv. update_option kv) () kvs ?db"
    by (simp add: step)
  also have "\<dots> = (Inr (), ?db\<lparr>db_options := db_options ?db ++ map_of (rev kvs)\<rparr>)"
    by (rule Cons.IH) (use Cons.prems in auto)
  finally show ?case by simp
qed (simp add: pure_def)

lemma write_options:
  assumes "set option_keys \<subseteq> dom (db_options db)"
  shows "via_each (\<lambda>_ kv. update_option kv) () (cloud_options lib text st) db
     = (Inr (), db\<lparr>db_options := db_options db ++ map_of (cloud_options lib text st)\<rparr>)"
proof -
  have keys: "map fst (cloud_options lib text st) = option_keys"
    by (simp add: cloud_options_def option_keys_def)
  then have "distinct (map fst (cloud_options lib text st))" by (simp add: option_keys_def)
  then have "map_of (rev (cloud_options lib text st)) = map_of (cloud_options lib text st)"
    by (rule map_of_rev)
  moreover have "fst ` set (cloud_options lib text st) \<subseteq> dom (db_options db)"
    using assms keys by (metis list.set_map)
  ultimately show ?thesis by (simp add: update_options)
qed

lemma upsert_servers:
  "via_each (\<lambda>_ s. upsert_server (srv_name s) (server_row lib s)) () ss db =
     (Inr (), db\<lparr>db_servers := db_servers db ++ map_of (rev (map (\<lambda>s. (srv_name s, server_row lib s)) ss))\<rparr>)"
proof (induction ss arbitrary: db)
  case (Cons s ss)
  let ?db = "db\<lparr>db_servers := (db_servers db)(srv_name s \<mapsto> server_row lib s)\<rparr>"
  let ?put = "\<lambda>_ s. upsert_server (srv_name s) (server_row lib s)"
  have "via_each ?put () (s # ss) db = via_each ?put () ss ?db"
    by (simp add: upsert_server_def [of "srv_name s" "server_row lib s" db])
  also have "\<dots> = (Inr (), ?db\<lparr>db_servers := db_servers ?db
      ++ map_of (rev (map (\<lambda>s. (srv_name s, server_row lib s)) ss))\<rparr>)"
    by (rule Cons.IH)
  finally show ?case by simp
qed (simp add: pure_def)

lemma map_of_find: "map_of (map (\<lambda>s. (f s, g s)) xs) k = map_option g (find (\<lambda>s. f s = k) xs)"
  by (induction xs) auto

lemma dom_server_table: "dom (server_table lib c) = set (server_names c)"
proof -
  have "server_table lib c k = None \<longleftrightarrow> k \<notin> set (server_names c)" for k
    by (simp add: server_table_def find_server_def find_key_None)
  then show ?thesis by (metis (mono_tags) domIff subsetI subset_antisym)
qed

lemma write_servers:
  assumes "distinct (server_names c)" "dom (db_servers db) \<subseteq> set (server_names c)"
  shows "via_each (\<lambda>_ s. upsert_server (srv_name s) (server_row lib s)) () (servers c) db
     = (Inr (), db\<lparr>db_servers := server_table lib c\<rparr>)"
proof -
  have "map_of (rev (map (\<lambda>s. (srv_name s, server_row lib s)) (servers c))) = server_table lib c"
    using assms(1) by (subst map_of_rev)
      (simp_all add: comp_def fun_eq_iff map_of_find server_table_def find_server_def)
  moreover have "db_servers db ++ server_table lib c = server_table lib c"
  proof
    fix k
    show "(db_servers db ++ server_table lib c) k = server_table lib c k"
      using assms(2) dom_server_table [of lib c]
      by (cases "server_table lib c k") (auto simp: map_add_def domIff dest: subsetD)
  qed
  ultimately show ?thesis by (simp add: upsert_servers)
qed

section \<open>Inbounds and statistics of one server\<close>

lemma write_inbounds_fold:
  assumes "db_foreign_keys db \<longrightarrow> db_servers db (srv_name s) \<noteq> None"
    "list_all (\<lambda>i. mother_subids (srv_secrets s) (inb_name i) \<noteq> None) xs" "distinct (map inb_name xs)"
  shows "via_each (\<lambda>_ inb. write_inbound s inb) () xs db =
     (Inr (), db\<lparr>db_inbounds := \<lambda>k. if fst k = srv_name s \<and> snd k \<in> inb_name ` set xs
        then inbound_column (s\<lparr>srv_inbounds := xs\<rparr>) (snd k) else db_inbounds db k\<rparr>)"
  using assms
proof (induction xs arbitrary: db)
  case (Cons i xs)
  obtain sid where sid: "mother_subids (srv_secrets s) (inb_name i) = Some sid" using Cons.prems by auto
  let ?db = "db\<lparr>db_inbounds := (db_inbounds db)((srv_name s, inb_name i) \<mapsto> inbound_row i sid)\<rparr>"
  have step: "write_inbound s i db = (Inr (), ?db)"
    using Cons.prems(1) sid by (simp add: write_inbound_def upsert_inbound_def foreign_key_def)
  have "inb_name i \<notin> inb_name ` set xs" using Cons.prems(3) by simp
  then have "(\<lambda>k. if fst k = srv_name s \<and> snd k \<in> inb_name ` set xs
        then inbound_column (s\<lparr>srv_inbounds := xs\<rparr>) (snd k) else db_inbounds ?db k)
     = (\<lambda>k. if fst k = srv_name s \<and> snd k \<in> inb_name ` set (i # xs)
        then inbound_column (s\<lparr>srv_inbounds := i # xs\<rparr>) (snd k) else db_inbounds db k)"
    by (auto simp: fun_eq_iff inbound_column_def sid cong: option.case_cong)
  then show ?case using Cons.IH [of ?db] Cons.prems step by simp
qed (simp add: pure_def)

lemma insert_stats_fold:
  assumes "db_foreign_keys db \<longrightarrow> db_servers db nm \<noteq> None"
  shows "via_each (\<lambda>_ svc. insert_stat nm svc) () svcs db =
     (Inr (), db\<lparr>db_stats := \<lambda>k. if fst k = nm \<and> snd k \<in> set svcs \<and> db_stats db k = None
        then Some fresh_stat else db_stats db k\<rparr>)"
  using assms
proof (induction svcs arbitrary: db)
  case (Cons svc svcs)
  let ?db = "db\<lparr>db_stats := or_insert (db_stats db) (nm, svc) fresh_stat\<rparr>"
  have "insert_stat nm svc db = (Inr (), ?db)"
    using Cons.prems by (auto simp: insert_stat_def foreign_key_def or_insert_def split: option.splits)
  moreover have "(\<lambda>k. if fst k = nm \<and> snd k \<in> set svcs \<and> db_stats ?db k = None then Some fresh_stat else db_stats ?db k)
      = (\<lambda>k. if fst k = nm \<and> snd k \<in> set (svc # svcs) \<and> db_stats db k = None then Some fresh_stat else db_stats db k)"
    by (auto simp: fun_eq_iff)
  ultimately show ?case using Cons.IH [of ?db] Cons.prems by simp
qed (simp add: pure_def)

definition server_groups :: "KetServer \<Rightarrow> Db \<Rightarrow> Db" where
  "server_groups s db = db\<lparr>
     db_inbounds := \<lambda>k. if fst k = srv_name s then inbound_column s (snd k) else db_inbounds db k,
     db_stats := \<lambda>k. if fst k = srv_name s then stat_column s (\<lambda>svc. db_stats db (srv_name s, svc)) (snd k)
                  else db_stats db k\<rparr>"

lemma write_server_groups_ok:
  assumes "db_foreign_keys db \<longrightarrow> db_servers db (srv_name s) \<noteq> None" "storable s"
  shows "write_server_groups s db = (Inr (), server_groups s db)"
proof -
  let ?db1 = "db\<lparr>db_inbounds := \<lambda>k. if fst k = srv_name s \<and> snd k \<notin> inb_name ` set (srv_inbounds s)
     then None else db_inbounds db k\<rparr>"
  let ?ib = "\<lambda>k. if fst k = srv_name s then inbound_column s (snd k) else db_inbounds db k"
  have "inbound_column s g = None" if "g \<notin> inb_name ` set (srv_inbounds s)" for g
    using that by (auto simp: inbound_column_def find_key_None [symmetric])
  then have inb: "via_each (\<lambda>_ inb. write_inbound s inb) () (srv_inbounds s) ?db1 = (Inr (), db\<lparr>db_inbounds := ?ib\<rparr>)"
    using write_inbounds_fold [of ?db1 s "srv_inbounds s"] assms by (auto simp: storable_def fun_eq_iff)
  let ?db2 = "db\<lparr>db_inbounds := ?ib, db_stats := \<lambda>k. if fst k = srv_name s \<and> snd k \<notin> set (svc_kinds_string s)
     then None else db_stats db k\<rparr>"
  have "via_each (\<lambda>_ svc. insert_stat (srv_name s) svc) () (svc_kinds_string s) ?db2 = (Inr (), server_groups s db)"
    using insert_stats_fold [of ?db2 "srv_name s" "svc_kinds_string s"] assms(1)
    by (auto simp: server_groups_def stat_column_def fun_eq_iff split: option.split)
  then show ?thesis using inb
    by (simp add: write_server_groups_def delete_inbounds_except_def delete_stats_except_def cong: if_cong)
qed

section \<open>The tables after an update\<close>

definition all_groups :: "KetServer list \<Rightarrow> Db \<Rightarrow> Db" where
  "all_groups ss db = db\<lparr>
     db_inbounds := \<lambda>k. case find (\<lambda>s. srv_name s = fst k) ss of
        None \<Rightarrow> db_inbounds db k | Some s \<Rightarrow> inbound_column s (snd k),
     db_stats := \<lambda>k. case find (\<lambda>s. srv_name s = fst k) ss of
        None \<Rightarrow> db_stats db k
      | Some s \<Rightarrow> stat_column s (\<lambda>svc. db_stats db (srv_name s, svc)) (snd k)\<rparr>"

lemma db_eqI:
  assumes "\<And>k. db_stats a k = db_stats b k" "\<And>k. db_inbounds a k = db_inbounds b k"
    "db_options a = db_options b" "db_servers a = db_servers b" "db_foreign_keys a = db_foreign_keys b"
  shows "a = (b :: Db)"
  using assms by (intro Db.equality) auto

lemma all_groups_Cons:
  assumes "srv_name s \<notin> srv_name ` set ss"
  shows "all_groups ss (server_groups s db) = all_groups (s # ss) db"
proof -
  have none: "find (\<lambda>t. srv_name t = srv_name s) ss = None" using assms by (simp add: find_key_None)
  have other: "srv_name t \<noteq> srv_name s" if "find (\<lambda>t. srv_name t = nm) ss = Some t" for t nm
    using find_Some_in [OF that] assms by (metis image_eqI)
  show ?thesis
  proof (rule db_eqI)
    fix k
    show "db_stats (all_groups ss (server_groups s db)) k = db_stats (all_groups (s # ss) db) k"
    proof (cases "fst k = srv_name s")
      case False
      then show ?thesis using other by (cases "find (\<lambda>t. srv_name t = fst k) ss")
        (auto simp: all_groups_def server_groups_def)
    qed (simp add: all_groups_def server_groups_def none)
    show "db_inbounds (all_groups ss (server_groups s db)) k = db_inbounds (all_groups (s # ss) db) k"
    proof (cases "fst k = srv_name s")
      case False
      then show ?thesis by (auto simp: all_groups_def server_groups_def split: option.split)
    qed (simp add: all_groups_def server_groups_def none)
  qed (simp_all add: all_groups_def server_groups_def)
qed

lemma write_all_groups:
  assumes "distinct (map srv_name ss)" "list_all storable ss" "srv_name ` set ss \<subseteq> dom (db_servers db)"
  shows "via_each (\<lambda>_ s. write_server_groups s) () ss db = (Inr (), all_groups ss db)"
  using assms
proof (induction ss arbitrary: db)
  case Nil
  then show ?case by (simp add: pure_def all_groups_def)
next
  case (Cons s ss)
  have step: "write_server_groups s db = (Inr (), server_groups s db)"
    using Cons.prems by (intro write_server_groups_ok) auto
  have "db_servers (server_groups s db) = db_servers db" by (simp add: server_groups_def)
  then have "via_each (\<lambda>_ s. write_server_groups s) () ss (server_groups s db)
      = (Inr (), all_groups ss (server_groups s db))"
    using Cons.prems by (intro Cons.IH) auto
  then show ?case using Cons.prems(1) by (simp add: step all_groups_Cons)
qed

text \<open>The database as a function of the cloud, the configuration text and the statistics kept.\<close>

definition stored :: "DbCrates \<Rightarrow> string \<Rightarrow> Cloud \<Rightarrow> Db \<Rightarrow> Db" where
  "stored lib text c db =
     \<lparr>db_options = db_options db ++ map_of (cloud_options lib text (settings c)),
      db_servers = server_table lib c,
      db_stats = \<lambda>k. case find_server (fst k) c of None \<Rightarrow> None
        | Some s \<Rightarrow> stat_column s (\<lambda>svc. db_stats db (fst k, svc)) (snd k),
      db_inbounds = \<lambda>k. case find_server (fst k) c of None \<Rightarrow> None | Some s \<Rightarrow> inbound_column s (snd k),
      db_foreign_keys = True\<rparr>"

lemma stored_schema: "has_schema db \<Longrightarrow> has_schema (stored lib text c db)"
  by (auto simp: has_schema_def refs_ok_def stored_def server_table_def split: option.splits)

definition storable_cloud :: "Cloud \<Rightarrow> bool" where
  "storable_cloud c \<longleftrightarrow> distinct (server_names c) \<and> list_all storable (servers c)"

text \<open>What the statements before the loop over the groups leave.\<close>

definition servers_stored :: "DbCrates \<Rightarrow> string \<Rightarrow> Cloud \<Rightarrow> Db \<Rightarrow> Db" where
  "servers_stored lib text c db = db\<lparr>
     db_options := db_options db ++ map_of (cloud_options lib text (settings c)),
     db_servers := server_table lib c,
     db_stats := \<lambda>k. if fst k \<in> set (server_names c) then db_stats db k else None,
     db_inbounds := \<lambda>k. if fst k \<in> set (server_names c) then db_inbounds db k else None\<rparr>"

lemma update_db_unfold:
  assumes "has_schema db" "distinct (server_names c)"
  shows "update_db lib (Inr text) c db =
    via_each (\<lambda>_ s. write_server_groups s) () (servers c) (servers_stored lib text c db)"
proof -
  let ?o = "db_options db ++ map_of (cloud_options lib text (settings c))"
  let ?names = "set (server_names c)"
  have fk: "db_foreign_keys db" and opts: "set option_keys \<subseteq> dom (db_options db)"
    using assms(1) by (auto simp: has_schema_def refs_ok_def)
  have gone: "db_stats db k = None \<and> db_inbounds db k = None" if "db_servers db (fst k) = None" for k
    using assms(1) that unfolding has_schema_def refs_ok_def by (metis domIff image_subset_iff)
  let ?db2 = "snd (delete_servers_except (server_names c) (db\<lparr>db_options := ?o\<rparr>))"
  have "delete_servers_except (server_names c) (db\<lparr>db_options := ?o\<rparr>) = (Inr (), ?db2)"
    by (simp add: delete_servers_except_def Let_def)
  moreover have "dom (db_servers ?db2) \<subseteq> ?names"
    by (auto simp: delete_servers_except_def Let_def split: if_splits)
  moreover have "?db2\<lparr>db_servers := server_table lib c\<rparr> = servers_stored lib text c db"
    using gone fk by (intro db_eqI) (auto simp: delete_servers_except_def servers_stored_def Let_def)
  ultimately show ?thesis
    using write_options [OF opts] write_servers [OF assms(2), of ?db2 lib] by (simp add: update_db_def)
qed

lemma update_db_stored:
  assumes "has_schema db" "storable_cloud c"
  shows "update_db lib (Inr text) c db = (Inr (), stored lib text c db)"
proof -
  have d: "distinct (server_names c)" and st: "list_all storable (servers c)"
    using assms(2) by (auto simp: storable_cloud_def)
  have fk: "db_foreign_keys db" using assms(1) by (simp add: has_schema_def refs_ok_def)
  have "find_server (fst k) c = None \<longleftrightarrow> fst k \<notin> set (server_names c)" for k :: "string \<times> string"
    by (simp add: find_server_def find_key_None)
  moreover have "srv_name s = nm \<and> nm \<in> set (server_names c)" if "find_server nm c = Some s" for s nm
    using find_Some_in [of _ _ s] that by (auto simp: find_server_def)
  ultimately have "all_groups (servers c) (servers_stored lib text c db) = stored lib text c db"
    using fk by (intro db_eqI) (auto simp: all_groups_def servers_stored_def stored_def
        find_server_def [symmetric] split: option.split)
  moreover have "dom (db_servers (servers_stored lib text c db)) = set (server_names c)"
    by (simp add: servers_stored_def dom_server_table)
  ultimately show ?thesis
    using update_db_unfold [OF assms(1) d] write_all_groups [OF d st] by simp
qed

section \<open>Loading what was stored\<close>

text \<open>The texts of a cloud that crates write are read back by them.\<close>

definition texts_ok :: "DbCrates \<Rightarrow> Cloud \<Rightarrow> bool" where
  "texts_ok lib c \<longleftrightarrow>
     list_all (\<lambda>s. host_parse lib (srv_domain s) = Some (srv_domain s)
       \<and> for_alpha2 lib (srv_region s) = Some (srv_region s)
       \<and> json_countries lib (countries_json lib (srv_outbound_block s)) = Some (srv_outbound_block s)) (servers c)
     \<and> json_inbounds lib (inbounds_json lib (inbound_set (settings c))) = Some (inbound_set (settings c))"

text \<open>A server as the loader rebuilds it: connection data from the row, no run-time state.\<close>

definition named_inbound :: "KetServer \<Rightarrow> string \<Rightarrow> Inbound" where
  "named_inbound s g = the (find (\<lambda>i. inb_name i = g) (srv_inbounds s))"

definition reloaded :: "string list \<Rightarrow> KetServer \<Rightarrow> KetServer" where
  "reloaded gs s = s\<lparr>srv_inbounds := map (named_inbound s) gs,
     srv_ansible_conn := Some \<lparr>ansible_host = Some (show_ip (srv_ip s)), ansible_port = Some (srv_ssh_port s),
       ansible_user = Some ROOT_USER, ansible_connection = None\<rparr>,
     srv_secrets := (srv_secrets s)\<lparr>mother_subids := mother_subids (srv_secrets s) |` set gs\<rparr>,
     srv_cfstate := None, srv_xui := None\<rparr>"

lemma sql_bool_eq [simp]: "sql_bool b = 1 \<longleftrightarrow> b"
  by (simp add: sql_bool_def)

lemma load_inbound_stored: "load_inbound (inb_name i) (inbound_row i sid) = Inr i"
  by (simp add: load_inbound_def inbound_row_def to_sql_err_def kind_text.dec_enc)

lemma named_inbound_props:
  assumes "storable s" "g \<in> inb_name ` set (srv_inbounds s)"
  shows "inb_name (named_inbound s g) = g" "named_inbound s g \<in> set (srv_inbounds s)"
    "inbound_column s g = Some (inbound_row (named_inbound s g) (the (mother_subids (srv_secrets s) g)))"
    "mother_subids (srv_secrets s) g \<noteq> None"
proof -
  obtain i where i: "find (\<lambda>i. inb_name i = g) (srv_inbounds s) = Some i"
    using assms(2) find_key_None [of inb_name g "srv_inbounds s"] by (cases "find (\<lambda>i. inb_name i = g) (srv_inbounds s)") auto
  note in_s = find_Some_in [OF i]
  show "inb_name (named_inbound s g) = g" "named_inbound s g \<in> set (srv_inbounds s)"
    using i in_s by (simp_all add: named_inbound_def)
  show sid: "mother_subids (srv_secrets s) g \<noteq> None"
    using in_s assms(1) by (auto simp: storable_def list_all_iff)
  then show "inbound_column s g = Some (inbound_row (named_inbound s g) (the (mother_subids (srv_secrets s) g)))"
    using i by (auto simp: inbound_column_def named_inbound_def)
qed

lemma load_inbound_rows:
  assumes "storable s" "set gs \<subseteq> inb_name ` set (srv_inbounds s)" "distinct gs" "set gs \<inter> dom ids = {}"
  shows "try_fold load_inbound_row (ins, ids) (rows (inbound_column s) gs)
     = Inr (ins @ map (named_inbound s) gs, ids ++ (mother_subids (srv_secrets s) |` set gs))"
  using assms(2-)
proof (induction gs arbitrary: ins ids)
  case (Cons g gs)
  note props = named_inbound_props [OF assms(1), of g]
  have g: "g \<in> inb_name ` set (srv_inbounds s)" using Cons.prems(1) by simp
  obtain sid where sid: "mother_subids (srv_secrets s) g = Some sid" using props(4) [OF g] by auto
  have row: "inbound_column s g = Some (inbound_row (named_inbound s g) sid)" using props(3) [OF g] sid by simp
  have "load_inbound g (inbound_row (named_inbound s g) sid) = Inr (named_inbound s g)"
    using load_inbound_stored [of "named_inbound s g" sid] props(1) [OF g] by simp
  then have "load_inbound_row (ins, ids) (g, inbound_row (named_inbound s g) sid)
      = Inr (ins @ [named_inbound s g], or_insert ids g sid)"
    by (simp add: load_inbound_row_def inbound_row_def)
  moreover have "ids g = None" using Cons.prems(3) by auto
  then have "or_insert ids g sid ++ (mother_subids (srv_secrets s) |` set gs)
      = ids ++ (mother_subids (srv_secrets s) |` set (g # gs))"
    using Cons.prems(2) sid by (auto simp: fun_eq_iff map_add_def restrict_map_def split: option.split)
  moreover have "set gs \<inter> dom (or_insert ids g sid) = {}" using Cons.prems(2,3) by auto
  ultimately show ?case
    using Cons.prems row Cons.IH [of "or_insert ids g sid" "ins @ [named_inbound s g]"]
    by (simp add: rows_def del: or_insert_apply)
qed (simp add: rows_def)

lemma load_server_stored:
  assumes "storable s" "is_walk gs (inb_name ` set (srv_inbounds s))"
    "host_parse lib (srv_domain s) = Some (srv_domain s)" "for_alpha2 lib (srv_region s) = Some (srv_region s)"
    "json_countries lib (countries_json lib (srv_outbound_block s)) = Some (srv_outbound_block s)"
  shows "load_server lib (srv_name s) (server_row lib s) (rows (inbound_column s) gs) = Inr (reloaded gs s)"
proof -
  have "try_fold load_inbound_row ([], Map.empty) (rows (inbound_column s) gs)
      = Inr (map (named_inbound s) gs, mother_subids (srv_secrets s) |` set gs)"
    using load_inbound_rows [OF assms(1), of gs Map.empty "[]"] assms(2) by (simp add: is_walk_def)
  then show ?thesis
    using assms(3-) by (simp add: load_server_def server_row_def to_sql_err_def Let_def ip_text.dec_enc
        state_text.dec_enc reloaded_def)
qed

lemma load_settings_stored:
  assumes "json_inbounds lib (inbounds_json lib (inbound_set (settings c))) = Some (inbound_set (settings c))"
  shows "load_settings lib (stored lib text c db) = Inr (settings c)"
  by (simp add: load_settings_def get_option_def stored_def cloud_options_def to_sql_err_def assms
      bool_text.dec_enc u64_text.dec_enc)

lemma load_cloud_stored:
  assumes c: "storable_cloud c" "texts_ok lib c" and walk: "is_walk order (set (server_names c))"
    and iwalk: "\<And>s. s \<in> set (servers c) \<Longrightarrow> is_walk (iorder (srv_name s)) (inb_name ` set (srv_inbounds s))"
  shows "load_cloud lib order iorder (stored lib text c db)
    = Inr \<lparr>servers = map (\<lambda>nm. reloaded (iorder nm) (the (find_server nm c))) order, settings = settings c\<rparr>"
proof -
  let ?db = "stored lib text c db"
  let ?load = "\<lambda>(nm, row). load_server lib nm row (rows (\<lambda>g. db_inbounds ?db (nm, g)) (iorder nm))"
  have found: "\<exists>s. find_server nm c = Some s \<and> s \<in> set (servers c) \<and> srv_name s = nm" if "nm \<in> set order" for nm
  proof -
    have "find_server nm c \<noteq> None"
      using that walk by (simp add: is_walk_def find_server_def find_key_None)
    then show ?thesis using find_Some_in by (fastforce simp: find_server_def)
  qed
  then have in_table: "nm \<in> set order \<Longrightarrow> server_table lib c nm \<noteq> None" for nm
    by (fastforce simp: server_table_def)
  have "?load (nm, the (server_table lib c nm)) = Inr (reloaded (iorder nm) (the (find_server nm c)))"
    if nm: "nm \<in> set order" for nm
  proof -
    obtain s where s: "find_server nm c = Some s" "s \<in> set (servers c)" "srv_name s = nm"
      using found [OF nm] by auto
    then have "(\<lambda>g. db_inbounds ?db (nm, g)) = inbound_column s" by (simp add: stored_def fun_eq_iff)
    then show ?thesis
      using load_server_stored [OF _ iwalk [OF s(2)], of lib] c s
      by (simp add: server_table_def storable_cloud_def texts_ok_def list_all_iff)
  qed
  then have "try_map ?load (rows (server_table lib c) order)
      = Inr (map (\<lambda>nm. reloaded (iorder nm) (the (find_server nm c))) order)"
    using in_table by (auto simp: try_map_Inr_iff rows_def list_all2_conv_all_nth)
  moreover have "db_servers ?db = server_table lib c" by (simp add: stored_def)
  ultimately show ?thesis
    using load_settings_stored [of lib c "text" db] c(2) by (simp add: load_cloud_def texts_ok_def)
qed

end
