(* ===== verification/Database_Props.thy ===== *)
theory Database_Props
  imports Database_Laws Cloud_Config
begin

text \<open>
  Properties of the database operations: a stored cloud is loaded back, statistics survive an
  update and are read as written, an inbound without a sub-identifier stops the update half way,
  and provisioning and destroying a server are recorded.
\<close>

section \<open>Storing and loading a cloud\<close>

text \<open>
  C9. Round trip: storing a cloud whose server and inbound names are told apart and whose inbounds
  all have a sub-identifier succeeds on a database with the schema, and loading it gives, in
  whatever order the queries return rows, the same settings and the same servers. Run-time state
  is not stored: the connection is rebuilt with the server's own SSH port, and sub-identifiers of
  names without an inbound are lost.
\<close>

theorem db_round_trip:
  assumes "has_schema db" "storable_cloud c" "texts_ok lib c" "is_walk order (set (server_names c))"
    and "\<forall>s \<in> set (servers c). is_walk (iorder (srv_name s)) (inb_name ` set (srv_inbounds s))"
  shows "\<exists>db'. update_db lib (Inr text) c db = (Inr (), db')
    \<and> load_cloud lib order iorder db'
        = Inr \<lparr>servers = map (\<lambda>nm. reloaded (iorder nm) (the (find_server nm c))) order, settings = settings c\<rparr>"
  using update_db_stored [OF assms(1,2)] load_cloud_stored [OF assms(2,3,4)] assms(5) by blast

text \<open>
  C10. An update keeps the schema and the references, the statistics of every service the cloud
  still has, starts new services as unknown with zero counts, and drops every other row.
\<close>

theorem update_db_statistics:
  assumes "has_schema db" "storable_cloud c"
  shows "\<exists>db'. update_db lib (Inr text) c db = (Inr (), db') \<and> has_schema db'
    \<and> (\<forall>nm svc. db_stats db' (nm, svc) =
         (if \<exists>s \<in> set (servers c). srv_name s = nm \<and> svc \<in> set (svc_kinds_string s)
          then Some (case db_stats db (nm, svc) of None \<Rightarrow> fresh_stat | Some row \<Rightarrow> row) else None))"
proof -
  let ?db = "stored lib text c db"
  have d: "distinct (server_names c)" using assms(2) by (simp add: storable_cloud_def)
  have "db_stats ?db (nm, svc) =
      (if \<exists>s \<in> set (servers c). srv_name s = nm \<and> svc \<in> set (svc_kinds_string s)
       then Some (case db_stats db (nm, svc) of None \<Rightarrow> fresh_stat | Some row \<Rightarrow> row) else None)" for nm svc
  proof (cases "find_server nm c")
    case None
    then have "nm \<notin> srv_name ` set (servers c)" by (simp add: find_server_def find_key_None)
    then show ?thesis using None by (auto simp: stored_def)
  next
    case (Some s)
    then have s: "s \<in> set (servers c)" "srv_name s = nm"
      using find_Some_in [of "\<lambda>s. srv_name s = nm" "servers c" s] by (simp_all add: find_server_def)
    have "t = s" if "t \<in> set (servers c)" "srv_name t = nm" for t
      using distinct_map_inj [OF d that(1) s(1)] that(2) s(2) by simp
    then have "(\<exists>t \<in> set (servers c). srv_name t = nm \<and> svc \<in> set (svc_kinds_string t))
        \<longleftrightarrow> svc \<in> set (svc_kinds_string s)" using s by blast
    then show ?thesis using Some by (simp add: stored_def stat_column_def)
  qed
  with stored_schema [OF assms(1)] show ?thesis using update_db_stored [OF assms] by blast
qed

section \<open>A missing sub-identifier\<close>

lemma via_each_fails:
  assumes "x \<in> set xs" "\<And>u y w. P w \<Longrightarrow> P (snd (f u y w))" "\<And>u w. P w \<Longrightarrow> \<exists>e. fst (f u x w) = Inl e" "P w"
  shows "\<exists>e w'. via_each f u xs w = (Inl e, w') \<and> P w'"
  using assms(1,4)
proof (induction xs arbitrary: u w)
  case (Cons y ys)
  have keep: "P (snd (f u y w))" using assms(2) Cons.prems(2) .
  show ?case
  proof (cases "fst (f u y w)")
    case (Inl e)
    then show ?thesis using keep by (cases "f u y w") (auto simp: via_def)
  next
    case (Inr v)
    then have "x \<in> set ys" using Cons.prems assms(3) by auto (metis Inr_Inl_False)
    then have "\<exists>e w'. via_each f v ys (snd (f u y w)) = (Inl e, w') \<and> P w'" using Cons.IH keep by blast
    then show ?thesis using Inr by (cases "f u y w") (auto simp: via_def)
  qed
qed simp

lemma group_writes_keep:
  "db_servers (snd (write_server_groups s db)) = db_servers db \<and> db_options (snd (write_server_groups s db)) = db_options db"
  (is "?keep (snd (write_server_groups s db))")
  unfolding write_server_groups_def
  by (intro via_inv [where P = ?keep] via_each_inv [where P = ?keep])
    (auto simp: delete_inbounds_except_def write_inbound_def upsert_inbound_def foreign_key_def
      delete_stats_except_def insert_stat_def via_def pure_def ensure_def ok_or_def split: option.splits)

lemma write_server_groups_fails:
  assumes "i \<in> set (srv_inbounds s)" "mother_subids (srv_secrets s) (inb_name i) = None"
  shows "\<exists>e. fst (write_server_groups s db) = Inl e"
proof -
  let ?db = "snd (delete_inbounds_except (srv_name s) (map inb_name (srv_inbounds s)) db)"
  have "\<exists>e w'. via_each (\<lambda>_ inb. write_inbound s inb) () (srv_inbounds s) ?db = (Inl e, w') \<and> True"
    by (rule via_each_fails [OF assms(1)]) (simp_all add: write_inbound_def assms(2) via_def pure_def)
  then show ?thesis
    by (auto simp: write_server_groups_def delete_inbounds_except_def via_def)
qed

text \<open>
  If an inbound of the cloud has no sub-identifier, the update fails, and it fails after the
  options and the table of servers have been replaced: there is no transaction around it.
\<close>

lemma missing_subid_half_update:
  assumes "has_schema db" "distinct (server_names c)" "s \<in> set (servers c)"
    "i \<in> set (srv_inbounds s)" "mother_subids (srv_secrets s) (inb_name i) = None"
  shows "\<exists>e db'. update_db lib (Inr text) c db = (Inl e, db')
    \<and> db_servers db' = server_table lib c
    \<and> db_options db' = db_options db ++ map_of (cloud_options lib text (settings c))"
proof -
  let ?w = "servers_stored lib text c db"
  let ?P = "\<lambda>w. db_servers w = db_servers ?w \<and> db_options w = db_options ?w"
  have "\<exists>e w'. via_each (\<lambda>_ s. write_server_groups s) () (servers c) ?w = (Inl e, w') \<and> ?P w'"
    by (rule via_each_fails [OF assms(3)])
      (use group_writes_keep write_server_groups_fails [OF assms(4,5)] in auto)
  then show ?thesis
    using update_db_unfold [OF assms(1,2)] by (auto simp: servers_stored_def)
qed

section \<open>Statistics\<close>

definition stat_key :: "SvcInfo \<Rightarrow> string \<times> string" where
  "stat_key i = (srv_name (si_server i), svc_to_string (si_kind i))"

definition in_columns :: "SvcStatus \<Rightarrow> bool" where
  "in_columns st \<longleftrightarrow> unat (failed_count st) < 2 ^ 63 \<and> unat (failed_since st) < 2 ^ 63"

definition stat_row :: "SvcStatus \<Rightarrow> StatRow" where
  "stat_row st = \<lparr>st_health = health_to_string (health st), st_count = uint (failed_count st),
     st_since = uint (failed_since st), st_fix_try = uint (fix_try st)\<rparr>"

lemma uint_columns: "in_columns st \<Longrightarrow> uint (failed_count st) < 2 ^ 63 \<and> uint (failed_since st) < 2 ^ 63"
  by (metis in_columns_def of_nat_less_numeral_power_cancel_iff uint_nat)

lemma write_status_ok:
  assumes "in_columns (se_status e)"
  shows "write_status e db = (Inr (), db\<lparr>db_stats := (db_stats db)(stat_key (se_info e) :=
     map_option (\<lambda>_. stat_row (se_status e)) (db_stats db (stat_key (se_info e))))\<rparr>)"
  using uint_columns [OF assms]
  by (simp add: write_status_def sql_u64_def stat_key_def stat_row_def Let_def)

lemma read_stat_row:
  assumes "db_stats db (stat_key info) = Some (stat_row st)" "in_columns st"
  shows "read_status_data info db = Inr st"
proof -
  have "uint (fix_try st) < 2 ^ 8" using unsigned_less [of "fix_try st"] by simp
  then show ?thesis
    using assms(1) uint_columns [OF assms(2)]
    by (simp add: read_status_data_def stat_key_def stat_row_def unsigned_col_def health_text.dec_enc)
qed

lemma write_statuses:
  assumes "list_all (\<lambda>e. in_columns (se_status e)) es"
  shows "\<exists>db'. write_status_data es db = (Inr (), db') \<and> dom (db_stats db') = dom (db_stats db)
    \<and> (\<forall>k. db_stats db' k = (case find (\<lambda>e. stat_key (se_info e) = k) (rev es) of
         None \<Rightarrow> db_stats db k | Some e \<Rightarrow> map_option (\<lambda>_. stat_row (se_status e)) (db_stats db k)))"
  using assms
proof (induction es arbitrary: db)
  case (Cons e es)
  let ?k = "stat_key (se_info e)"
  let ?db = "db\<lparr>db_stats := (db_stats db)(?k := map_option (\<lambda>_. stat_row (se_status e)) (db_stats db ?k))\<rparr>"
  have step: "write_status e db = (Inr (), ?db)" using Cons.prems by (simp add: write_status_ok)
  have dom: "dom (db_stats ?db) = dom (db_stats db)" by (auto simp: domIff split: if_splits)
  obtain db' where db': "write_status_data es ?db = (Inr (), db')" "dom (db_stats db') = dom (db_stats ?db)"
    "\<And>k. db_stats db' k = (case find (\<lambda>e. stat_key (se_info e) = k) (rev es) of
         None \<Rightarrow> db_stats ?db k | Some e \<Rightarrow> map_option (\<lambda>_. stat_row (se_status e)) (db_stats ?db k))"
    using Cons.IH [of ?db] Cons.prems by (metis list.pred_inject(2))
  have "find P (xs @ [x]) = (case find P xs of None \<Rightarrow> if P x then Some x else None | r \<Rightarrow> r)"
    for P xs and x :: SvcEntry
    by (induction xs) auto
  then have "db_stats db' k = (case find (\<lambda>e. stat_key (se_info e) = k) (rev (e # es)) of
         None \<Rightarrow> db_stats db k | Some e \<Rightarrow> map_option (\<lambda>_. stat_row (se_status e)) (db_stats db k))" for k
    using db'(3) [of k] by (cases "db_stats db k") (auto split: option.split)
  then show ?case using db'(1,2) step dom by (auto simp: write_status_data_def)
qed (simp add: write_status_data_def pure_def)

text \<open>
  A batch of statistics within the range of the columns is written without an error, and then
  a service that has a row reads the last status written for it; no row is created or removed.
\<close>

lemma status_read_after_write:
  assumes "list_all (\<lambda>e. in_columns (se_status e)) es" "stat_key info \<in> dom (db_stats db)"
    "find (\<lambda>e. stat_key (se_info e) = stat_key info) (rev es) = Some e"
  shows "\<exists>db'. write_status_data es db = (Inr (), db') \<and> dom (db_stats db') = dom (db_stats db)
    \<and> read_status_data info db' = Inr (se_status e)"
proof -
  have e: "in_columns (se_status e)"
    using find_Some_in [OF assms(3)] assms(1) by (auto simp: list_all_iff)
  obtain row where "db_stats db (stat_key info) = Some row" using assms(2) by blast
  then obtain db' where
    db': "write_status_data es db = (Inr (), db')" "dom (db_stats db') = dom (db_stats db)"
      "db_stats db' (stat_key info) = Some (stat_row (se_status e))"
    using write_statuses [OF assms(1), of db] assms(3) by fastforce
  show ?thesis using db' read_stat_row [OF db'(3) e] by blast
qed

section \<open>Provisioned and destroyed servers\<close>

definition conn_on :: "u16 \<Rightarrow> AnsibleConn \<Rightarrow> AnsibleConn" where
  "conn_on port conn = conn\<lparr>ansible_port := Some port, ansible_connection := None\<rparr>"

lemma move_conn_ok:
  "srv_ansible_conn (site_server w) = Some conn \<Longrightarrow> move_conn port w =
     (Inr (), w\<lparr>site_server := (site_server w)\<lparr>srv_ansible_conn := Some (conn_on port conn)\<rparr>\<rparr>)"
  by (cases conn) (simp add: move_conn_def store_server_def conn_on_def)

text \<open>The configuration file can be edited: it is there, it is TOML, and its tables have names.\<close>

definition editable :: "TomlCrate \<Rightarrow> string res \<Rightarrow> TomlDoc \<Rightarrow> TomlServer list \<Rightarrow> bool" where
  "editable toml file doc ts \<longleftrightarrow> (\<exists>txt. file = Inr txt \<and> toml_parse toml txt = Inr doc)
     \<and> td_servers doc = Some ts \<and> list_all (\<lambda>t. ts_name t \<noteq> None) ts"

fun with_state :: "string \<Rightarrow> string \<Rightarrow> TomlServer list \<Rightarrow> TomlServer list" where
  "with_state nm st [] = []"
| "with_state nm st (t # ts) =
     (if ts_name t = Some (TStr nm) then t\<lparr>ts_state := Some (TStr st)\<rparr> # ts else t # with_state nm st ts)"

lemma set_toml_state_ok: "list_all (\<lambda>t. ts_name t \<noteq> None) ts \<Longrightarrow> set_toml_state nm st ts = Inr (with_state nm st ts)"
  by (induction ts) (auto split: option.splits)

lemma mark_config_ok:
  assumes "editable toml (site_config w) doc ts"
  shows "mark_config toml nm st w =
     (Inr (), w\<lparr>site_config := Inr (toml_print toml (doc\<lparr>td_servers := Some (with_state nm st ts)\<rparr>))\<rparr>)"
  using assms by (auto simp: editable_def mark_config_def set_toml_state_ok)

text \<open>
  A server that is provisioned for the first time is recorded in all three places: the server
  in memory becomes Production with the token and connects on its own SSH port, its row (and no
  other) is stored as Production with the token, and the configuration file declares it so.
\<close>

lemma mark_production_recorded:
  assumes "xui_token (srv_secrets (site_server w)) = None" "srv_ansible_conn (site_server w) = Some conn"
    "db_servers (site_db w) (srv_name (site_server w)) = Some row" "editable toml (site_config w) doc ts"
  shows "let s = site_server w; nm = srv_name s in
    mark_server_production toml token w =
      (Inr (), w\<lparr>site_server := s\<lparr>srv_state := Production,
             srv_secrets := (srv_secrets s)\<lparr>xui_token := Some token\<rparr>,
             srv_ansible_conn := Some (conn_on (srv_ssh_port s) conn)\<rparr>,
         site_db := (site_db w)\<lparr>db_servers := (db_servers (site_db w))
             (nm \<mapsto> row\<lparr>sr_state := state_to_string Production, sr_xui_token := Some token\<rparr>)\<rparr>,
         site_config := Inr (toml_print toml (doc\<lparr>td_servers := Some (with_state nm ''Production'' ts)\<rparr>))\<rparr>)"
  using assms by (simp add: mark_server_production_def store_server_def set_token_def move_conn_ok on_db_def
      update_state_row_def mark_config_ok Let_def)

text \<open>
  Destroying a server empties its token in the database only. If the same server is provisioned
  again before a reload has replaced it in memory, marking it fails because the token in memory is
  already set, after the remote setup has run: the server in memory says Production while its row
  still says Offgrid.
\<close>

lemma reprovision_before_reload_fails:
  assumes "xui_token (srv_secrets (site_server w)) = Some old" "srv_ansible_conn (site_server w) = Some conn"
    "db_servers (site_db w) (srv_name (site_server w)) = Some row" "editable toml (site_config w) doc ts"
    "srv_name (site_server w) \<in> set (site_dirs w)"
  shows "\<exists>w1 w2. mark_server_offgrid toml w = (Inr (), w1)
    \<and> mark_server_production toml token w1 = (Inl TokenAlreadySet, w2)
    \<and> srv_state (site_server w2) = Production
    \<and> db_servers (site_db w2) (srv_name (site_server w))
        = Some (row\<lparr>sr_state := state_to_string Offgrid, sr_xui_token := None\<rparr>)"
proof -
  let ?s = "(site_server w)\<lparr>srv_state := Offgrid, srv_ansible_conn := Some (conn_on ANSIBLE_PORT conn)\<rparr>"
  let ?nm = "srv_name (site_server w)"
  let ?w1 = "w\<lparr>site_server := ?s, site_db := (site_db w)\<lparr>db_servers := (db_servers (site_db w))
        (?nm \<mapsto> row\<lparr>sr_state := state_to_string Offgrid, sr_xui_token := None\<rparr>)\<rparr>,
      site_config := Inr (toml_print toml (doc\<lparr>td_servers := Some (with_state ?nm ''Offgrid'' ts)\<rparr>)),
      site_dirs := removeAll ?nm (site_dirs w)\<rparr>"
  have "mark_server_offgrid toml w = (Inr (), ?w1)"
    using assms by (simp add: mark_server_offgrid_def store_server_def move_conn_ok on_db_def
      update_state_row_def mark_config_ok remove_server_dir_def Let_def)
  moreover have "mark_server_production toml token ?w1
      = (Inl TokenAlreadySet, ?w1\<lparr>site_server := ?s\<lparr>srv_state := Production\<rparr>\<rparr>)"
    using assms(1) by (simp add: mark_server_production_def store_server_def set_token_def Let_def)
  ultimately show ?thesis by fastforce
qed

section \<open>Backup and restoration\<close>

text \<open>
  The configuration text of the last stored cloud is restored as it was: after a successful or
  a failed update, restoring writes that text back unless it is blank.
\<close>

lemma restore_after_update:
  assumes "has_schema db" "trim_ws (str_chars txt) \<noteq> []" "distinct (server_names c)"
  shows "restore_config (w\<lparr>site_db := snd (update_db lib (Inr txt) c db)\<rparr>)
    = (Inr (), w\<lparr>site_db := snd (update_db lib (Inr txt) c db), site_config := Inr txt\<rparr>)"
proof -
  let ?w = "servers_stored lib txt c db"
  have "db_options (snd (update_db lib (Inr txt) c db)) = db_options ?w"
    unfolding update_db_unfold [OF assms(1,3)]
    by (rule via_each_inv [where P = "\<lambda>w. db_options w = db_options ?w"]) (simp_all add: group_writes_keep)
  then have "db_options (snd (update_db lib (Inr txt) c db)) ''cloud_config'' = Some txt"
    by (simp add: servers_stored_def cloud_options_def)
  then show ?thesis using assms(2) by (simp add: restore_config_def get_option_def to_sql_err_def)
qed

lemma well_formed_inbounds:
  assumes "well_formed_server st s"
  obtains ins where "srv_inbounds s = ins @ [super_inbound]" "ins \<noteq> []" "valid_inbounds (inbound_set st) ins"
  using assms that [of "butlast (srv_inbounds s)"] append_butlast_last_id [of "srv_inbounds s"]
  by (simp add: well_formed_server_def)

text \<open>
  A backup of a well-formed cloud declares a valid configuration: the supervisor inbounds are
  gone, everything else is declared as it runs, and the parser accepts it.
\<close>

lemma backup_is_accepted:
  assumes "well_formed_cloud c"
  shows "valid_config (backup_cloud c) \<and> (\<exists>c'. build_cloud lib rng pos (backup_cloud c) = Inr c')"
proof -
  have "valid_server (settings c) (drop_super s)" if "s \<in> set (servers c)" for s
  proof -
    have wf: "well_formed_server (settings c) s" using assms that by (simp add: well_formed_cloud_def list_all_iff)
    from well_formed_inbounds [OF wf] obtain ins where "srv_inbounds s = ins @ [super_inbound]" "ins \<noteq> []"
      "valid_inbounds (inbound_set (settings c)) ins" .
    moreover from this have "srv_inbounds (drop_super s) = ins"
      by (auto simp: drop_super_def super_inbound_def valid_inbounds_def filter_id_conv rev_image_eqI)
    ultimately show ?thesis
      using wf by (simp add: well_formed_server_def valid_server_def effective_inbounds_def
          subdomains_of_def drop_super_def)
  qed
  moreover have "unique_servers (map drop_super (servers c))"
    using assms by (simp add: well_formed_cloud_def unique_servers_def drop_super_def comp_def)
  ultimately have "valid_config (backup_cloud c)"
    using assms by (simp add: valid_config_def backup_cloud_def well_formed_cloud_def list_all_iff)
  then show ?thesis using build_cloud_iff by blast
qed

text \<open>A cloud fresh from the parser can be stored.\<close>

lemma built_cloud_storable:
  assumes "build_cloud lib rng pos t = Inr c"
  shows "storable_cloud c"
proof -
  note res = build_cloud_result [OF assms]
  have "storable s" if s: "s \<in> set (servers c)" for s
  proof -
    have wf: "well_formed_server (settings c) s" using res(3) s by (simp add: well_formed_cloud_def list_all_iff)
    from well_formed_inbounds [OF wf] obtain ins where "srv_inbounds s = ins @ [super_inbound]"
      "valid_inbounds (inbound_set (settings c)) ins" .
    then have "distinct (map inb_name (srv_inbounds s))" by (simp add: valid_inbounds_def super_inbound_def)
    moreover obtain d where "ready_server lib (settings t) d s"
      using res(1) s by (metis list_all2_conv_all_nth in_set_conv_nth)
    then have "dom (mother_subids (srv_secrets s)) = inb_name ` set (srv_inbounds s)" by (simp add: ready_server_def)
    then have "mother_subids (srv_secrets s) (inb_name i) \<noteq> None" if "i \<in> set (srv_inbounds s)" for i
      using that by (metis domIff image_eqI)
    ultimately show ?thesis by (simp add: storable_def list_all_iff)
  qed
  then show ?thesis
    using res(3) by (simp add: storable_cloud_def well_formed_cloud_def unique_servers_def list_all_iff)
qed

section \<open>Concrete instances\<close>

definition demo_db_crates :: DbCrates where
  "demo_db_crates = \<lparr>host_parse = Some, for_alpha2 = Some, inbounds_json = (\<lambda>ins. join '','' (map inb_name ins)),
     json_inbounds = (\<lambda>txt. Some (map (\<lambda>nm. demo_inbound nm (if nm = ''alpha'' then 2053 else 8080)) (split_at (CHR '','') txt))),
     countries_json = join '','', json_countries = (\<lambda>txt. Some (split_at (CHR '','') txt))\<rparr>"

definition demo_db :: Db where
  "demo_db = snd (create_db empty_db)"

definition demo_stored_server :: KetServer where
  "demo_stored_server = (demo_server ''one'' 1 ''one.org'' Offgrid)\<lparr>srv_inbounds := demo_set,
     srv_secrets := empty_secrets\<lparr>mother_subids := [''alpha'' \<mapsto> ''a1'', ''beta'' \<mapsto> ''b1'']\<rparr>\<rparr>"

definition demo_stored_cloud :: Cloud where
  "demo_stored_cloud = \<lparr>servers = [demo_stored_server], settings = demo_settings\<rparr>"

lemmas demo_db_defs = demo_stored_server_def demo_stored_cloud_def demo_defs

lemma demo_db_schema: "has_schema demo_db"
  unfolding demo_db_def by (rule create_db_schema) (simp_all add: empty_db_def)

lemma demo_storable: "storable_cloud demo_stored_cloud"
  by (simp add: storable_cloud_def storable_def demo_db_defs)

lemma demo_texts: "texts_ok demo_db_crates demo_stored_cloud"
  by (simp add: texts_ok_def demo_db_crates_def demo_db_defs)

theorem db_round_trip_witness:
  "\<exists>db'. update_db demo_db_crates (Inr ''txt'') demo_stored_cloud demo_db = (Inr (), db')
    \<and> load_cloud demo_db_crates [''one''] (\<lambda>_. [''beta'', ''alpha'']) db'
        = Inr \<lparr>servers = [reloaded [''beta'', ''alpha''] demo_stored_server], settings = demo_settings\<rparr>"
  using db_round_trip [OF demo_db_schema demo_storable demo_texts, of "[''one'']" "\<lambda>_. [''beta'', ''alpha'']" "''txt''"]
  by (simp add: is_walk_def demo_stored_cloud_def find_server_def)
    (simp add: demo_db_defs insert_commute)

theorem update_db_statistics_witness:
  "\<exists>db'. update_db demo_db_crates (Inr ''txt'') demo_stored_cloud demo_db = (Inr (), db')
    \<and> has_schema db' \<and> db_stats db' (''one'', ''ssh'') = Some fresh_stat"
proof -
  have "\<exists>s \<in> set (servers demo_stored_cloud). srv_name s = ''one'' \<and> ''ssh'' \<in> set (svc_kinds_string s)"
    by (simp add: demo_db_defs svc_kinds_string_def svc_kinds_def)
  moreover have "db_stats demo_db (''one'', ''ssh'') = None"
    by (simp add: demo_db_def create_db_result empty_db_def)
  ultimately show ?thesis
    using update_db_statistics [OF demo_db_schema demo_storable, of demo_db_crates "''txt''"] by fastforce
qed

theorem missing_subid_half_update_witness:
  "\<exists>e db'. update_db demo_db_crates (Inr ''txt'')
       \<lparr>servers = [demo_stored_server\<lparr>srv_secrets := empty_secrets\<rparr>], settings = demo_settings\<rparr> demo_db = (Inl e, db')
     \<and> db_servers db' ''one'' \<noteq> None"
proof -
  let ?s = "demo_stored_server\<lparr>srv_secrets := empty_secrets\<rparr>"
  let ?c = "\<lparr>servers = [?s], settings = demo_settings\<rparr>"
  have "distinct (server_names ?c)" "?s \<in> set (servers ?c)" "demo_inbound ''alpha'' 2053 \<in> set (srv_inbounds ?s)"
    "mother_subids (srv_secrets ?s) (inb_name (demo_inbound ''alpha'' 2053)) = None"
    by (simp_all add: demo_db_defs)
  from missing_subid_half_update [OF demo_db_schema this, of demo_db_crates "''txt''"]
  obtain e db' where "update_db demo_db_crates (Inr ''txt'') ?c demo_db = (Inl e, db')"
    "db_servers db' = server_table demo_db_crates ?c" by blast
  moreover have "server_table demo_db_crates ?c ''one'' \<noteq> None"
    by (simp add: server_table_def find_server_def demo_db_defs)
  ultimately show ?thesis by metis
qed

definition demo_info :: SvcInfo where
  "demo_info = \<lparr>si_server = demo_stored_server, si_port = 443, si_kind = Nginx, si_link = None\<rparr>"

definition demo_entry :: SvcEntry where
  "demo_entry = \<lparr>se_info = demo_info,
     se_status = \<lparr>health = Sick, failed_count = 3, failed_since = 77, fix_try = 1\<rparr>\<rparr>"

theorem status_read_after_write_witness:
  "\<exists>db'. write_status_data [demo_entry] (demo_db\<lparr>db_stats := [stat_key demo_info \<mapsto> fresh_stat]\<rparr>) = (Inr (), db')
     \<and> read_status_data demo_info db' = Inr \<lparr>health = Sick, failed_count = 3, failed_since = 77, fix_try = 1\<rparr>"
  using status_read_after_write [of "[demo_entry]" demo_info
      "demo_db\<lparr>db_stats := [stat_key demo_info \<mapsto> fresh_stat]\<rparr>" demo_entry]
  by (auto simp: demo_entry_def in_columns_def)

definition demo_toml :: TomlCrate where
  "demo_toml = \<lparr>toml_parse = (\<lambda>txt. Inr \<lparr>td_servers = Some [\<lparr>ts_name = Some (TStr txt), ts_state = None, ts_rest = []\<rparr>],
     td_rest = []\<rparr>), toml_print = (\<lambda>doc. ''one'')\<rparr>"

definition demo_site :: "string option \<Rightarrow> Site" where
  "demo_site token =
     (let s = build_inventory (demo_stored_server\<lparr>srv_secrets := empty_secrets\<lparr>xui_token := token\<rparr>\<rparr>) in
      \<lparr>site_server = s, site_db = demo_db\<lparr>db_servers := [''one'' \<mapsto> server_row demo_db_crates s]\<rparr>,
       site_config = Inr ''one'', site_dirs = [''one'']\<rparr>)"

lemma demo_editable:
  "editable demo_toml (site_config (demo_site token))
     \<lparr>td_servers = Some [\<lparr>ts_name = Some (TStr ''one''), ts_state = None, ts_rest = []\<rparr>], td_rest = []\<rparr>
     [\<lparr>ts_name = Some (TStr ''one''), ts_state = None, ts_rest = []\<rparr>]"
  by (simp add: editable_def demo_toml_def demo_site_def Let_def)

theorem mark_production_recorded_witness:
  "\<exists>w'. mark_server_production demo_toml ''tok'' (demo_site None) = (Inr (), w')
     \<and> srv_state (site_server w') = Production
     \<and> map_option sr_xui_token (db_servers (site_db w') ''one'') = Some (Some ''tok'')"
proof -
  have "xui_token (srv_secrets (site_server (demo_site None))) = None" "srv_name (site_server (demo_site None)) = ''one''"
    by (simp_all add: demo_site_def build_inventory_def demo_db_defs Let_def)
  moreover obtain conn row where "srv_ansible_conn (site_server (demo_site None)) = Some conn"
    "db_servers (site_db (demo_site None)) ''one'' = Some row"
    by (simp add: demo_site_def build_inventory_def Let_def)
  ultimately show ?thesis
    using mark_production_recorded [of "demo_site None" conn row demo_toml, OF _ _ _ demo_editable, of "''tok''"]
    by (simp add: Let_def)
qed

theorem reprovision_before_reload_fails_witness:
  "\<exists>w1 w2. mark_server_offgrid demo_toml (demo_site (Some ''old'')) = (Inr (), w1)
    \<and> mark_server_production demo_toml ''tok'' w1 = (Inl TokenAlreadySet, w2)
    \<and> srv_state (site_server w2) = Production"
proof -
  let ?w = "demo_site (Some ''old'')"
  have "xui_token (srv_secrets (site_server ?w)) = Some ''old''" "srv_name (site_server ?w) = ''one''"
    "''one'' \<in> set (site_dirs ?w)"
    by (simp_all add: demo_site_def build_inventory_def demo_db_defs Let_def)
  moreover obtain conn row where "srv_ansible_conn (site_server ?w) = Some conn"
    "db_servers (site_db ?w) ''one'' = Some row"
    by (simp add: demo_site_def build_inventory_def Let_def)
  ultimately show ?thesis
    using reprovision_before_reload_fails [of ?w "''old''" conn row demo_toml, OF _ _ _ demo_editable, of "''tok''"]
    by auto
qed

theorem restore_after_update_witness:
  "site_config (snd (restore_config ((demo_site None)\<lparr>site_db :=
     snd (update_db demo_db_crates (Inr ''txt'') demo_stored_cloud demo_db)\<rparr>))) = Inr ''txt''"
proof -
  have "trim_ws (str_chars ''txt'') \<noteq> []"
    by (simp add: trim_ws_def str_chars_def utf8_chars.simps white_space_def)
  moreover have "distinct (server_names demo_stored_cloud)" by (simp add: demo_stored_cloud_def)
  ultimately show ?thesis
    using restore_after_update [OF demo_db_schema, where w = "demo_site None" and lib = demo_db_crates] by simp
qed

theorem backup_is_accepted_witness:
  "\<exists>c. build_cloud demo_crates demo_rng 0 demo_config = Inr c \<and> valid_config (backup_cloud c)"
proof -
  obtain c where c: "build_cloud demo_crates demo_rng 0 demo_config = Inr c"
    using build_cloud_iff demo_config_valid by blast
  show ?thesis using c backup_is_accepted [OF build_cloud_result(3) [OF c]] by blast
qed

end
