(* ===== verification/Aggregator.thy ===== *)
theory Aggregator
  imports Database_Props
begin

text \<open>
  The aggregator \<open>run_aggregator\<close> of \<^verbatim>\<open>src/cloud/service.rs\<close>: it collects the statistics that the monitors
  send and writes them to the database in batches.

  One step is one arm of its \<open>select!\<close>. What the connection answers to the write of that step comes
  with the event: \<open>None\<close> if the connection works, \<open>Some (k, e)\<close> if it fails with \<open>e\<close> after the
  statements of the first \<open>k\<close> statistics. The rows are written one by one, outside any transaction. An
  error ends the task: it has a value in \<open>ag_end\<close>, and nothing is received any more.
\<close>

section \<open>Model\<close>

type_synonym WriteFault = "(nat \<times> BoxError) option"

definition write_batch :: "WriteFault \<Rightarrow> SvcEntry list \<Rightarrow> unit query" where
  "write_batch fault stats =
     (case fault of
        None \<Rightarrow> write_status_data stats
      | Some (k, e) \<Rightarrow> via (write_status_data (take k stats)) (\<lambda>_. pure (Inl e)))"

datatype AggrEvent = Stat nat SvcEntry | Timeout

record Aggr =
  ag_vec :: "SvcEntry list"
  ag_db :: Db
  ag_end :: "BoxError option"
  ag_written :: "SvcEntry list list"
  ag_lost :: "SvcEntry list"

text \<open>
  \<open>ag_written\<close> and \<open>ag_lost\<close> record the batches handed to the database: those that were
  written, and the one whose write failed.
\<close>

definition aggr_start :: "Db \<Rightarrow> Aggr" where
  "aggr_start db = \<lparr>ag_vec = [], ag_db = db, ag_end = None, ag_written = [], ag_lost = []\<rparr>"

definition aggr_flush :: "WriteFault \<Rightarrow> SvcEntry list \<Rightarrow> Aggr \<Rightarrow> Aggr" where
  "aggr_flush fault batch st =
     (case write_batch fault batch (ag_db st) of
        (Inr _, db) \<Rightarrow> st\<lparr>ag_vec := [], ag_db := db, ag_written := ag_written st @ [batch]\<rparr>
      | (Inl e, db) \<Rightarrow> st\<lparr>ag_vec := [], ag_db := db, ag_end := Some e, ag_lost := batch\<rparr>)"

definition aggr_step :: "Aggr \<Rightarrow> WriteFault \<times> AggrEvent \<Rightarrow> Aggr" where
  "aggr_step st ev =
     (if ag_end st \<noteq> None then st else
      case ev of
        (fault, Stat nstats stat) \<Rightarrow>
          (let vec = ag_vec st @ [stat] in
           if length vec \<ge> nstats then aggr_flush fault vec st else st\<lparr>ag_vec := vec\<rparr>)
      | (fault, Timeout) \<Rightarrow>
          (if ag_vec st \<noteq> [] then aggr_flush fault (ag_vec st) st else st))"

section \<open>Batches\<close>

fun stat_of :: "AggrEvent \<Rightarrow> SvcEntry list" where
  "stat_of (Stat _ e) = [e]"
| "stat_of Timeout = []"

definition stats_of :: "AggrEvent list \<Rightarrow> SvcEntry list" where
  "stats_of evs = concat (map stat_of evs)"

text \<open>
  What a batch is, without the aggregator: a stretch of events is due for writing when it ends with a timeout,
  or with a statistic that makes it as large as this statistic announces. A batch is a stretch that
  is due for the first time with its last event.
\<close>

definition due :: "AggrEvent list \<Rightarrow> bool" where
  "due evs \<longleftrightarrow> evs \<noteq> [] \<and> (case last evs of Timeout \<Rightarrow> True | Stat n _ \<Rightarrow> n \<le> length (stats_of evs))"

definition collecting :: "AggrEvent list \<Rightarrow> bool" where
  "collecting evs \<longleftrightarrow> list_all (\<lambda>k. \<not> due (take k evs)) [0..<Suc (length evs)]"

definition one_batch :: "AggrEvent list \<Rightarrow> bool" where
  "one_batch evs \<longleftrightarrow> due evs \<and> collecting (butlast evs)"

lemma collecting_Nil: "collecting []"
  by (simp add: collecting_def due_def)

lemma collecting_snoc: "collecting (evs @ [ev]) \<longleftrightarrow> collecting evs \<and> \<not> due (evs @ [ev])"
  by (auto simp: collecting_def list_all_iff)

lemma stats_of_simps [simp]: "stats_of [] = []" "stats_of (xs @ ys) = stats_of xs @ stats_of ys"
  "stats_of [ev] = stat_of ev"
  by (simp_all add: stats_of_def)

section \<open>Writes\<close>

lemma write_status_data_append:
  "write_status_data (xs @ ys) = via (write_status_data xs) (\<lambda>_. write_status_data ys)"
proof (induction xs)
  case Nil
  then show ?case by (auto simp: write_status_data_def via_def pure_def)
next
  case (Cons x xs)
  then show ?case
    by (auto simp: write_status_data_def via_def fun_eq_iff split: prod.split sum.split)
qed

lemma write_status_error: "write_status e db = (Inl err, db') \<Longrightarrow> db' = db"
  by (auto simp: write_status_def via_Inl_iff Let_def)

lemma write_status_data_prefix:
  "\<exists>k r. write_status_data (take k es) db = (Inr r, snd (write_status_data es db))"
proof (induction es arbitrary: db)
  case Nil
  show ?case by (intro exI [of _ 0]) (simp add: write_status_data_def pure_def)
next
  case (Cons e es)
  show ?case
  proof (cases "write_status e db")
    case (Pair r db1)
    show ?thesis
    proof (cases r)
      case (Inl err)
      then have "db1 = db" using Pair write_status_error by simp
      then show ?thesis
        using Pair Inl by (intro exI [of _ 0]) (simp add: write_status_data_def pure_def)
    next
      case (Inr u)
      obtain k r where "write_status_data (take k es) db1 = (Inr r, snd (write_status_data es db1))"
        using Cons.IH by blast
      then show ?thesis
        using Pair Inr by (intro exI [of _ "Suc k"]) (simp add: write_status_data_def)
    qed
  qed
qed

lemma write_batch_prefix:
  "\<exists>k r. write_status_data (take k es) db = (Inr r, snd (write_batch fault es db))"
proof (cases fault)
  case None
  then show ?thesis using write_status_data_prefix by (simp add: write_batch_def)
next
  case (Some f)
  obtain n e where f: "f = (n, e)" by fastforce
  obtain k r where "write_status_data (take k (take n es)) db = (Inr r, snd (write_status_data (take n es) db))"
    using write_status_data_prefix by blast
  moreover have "snd (write_batch fault es db) = snd (write_status_data (take n es) db)"
    by (simp add: write_batch_def Some f via_def pure_def split: prod.split sum.split)
  ultimately show ?thesis by (metis take_take)
qed

lemma write_batch_ok: "write_batch fault es db = (Inr r, db') \<Longrightarrow> write_status_data es db = (Inr r, db')"
  by (cases fault) (auto simp: write_batch_def via_Inr_iff)

section \<open>The run of the aggregator\<close>

definition nonempty :: "'a list list \<Rightarrow> 'a list list" where
  "nonempty = filter (\<lambda>b. b \<noteq> [])"

text \<open>How the state of the aggregator reads off the events it was given.\<close>

definition accounts :: "Db \<Rightarrow> AggrEvent list \<Rightarrow> Aggr \<Rightarrow> bool" where
  "accounts db evs st \<longleftrightarrow>
     (case ag_end st of
        None \<Rightarrow> (\<exists>batches rest. evs = concat batches @ rest \<and> list_all one_batch batches \<and> collecting rest
          \<and> ag_vec st = stats_of rest \<and> ag_written st = nonempty (map stats_of batches)
          \<and> write_status_data (concat (ag_written st)) db = (Inr (), ag_db st))
      | Some e \<Rightarrow> (\<exists>batches failed rest k. evs = concat batches @ failed @ rest
          \<and> list_all one_batch batches \<and> one_batch failed
          \<and> ag_lost st = stats_of failed \<and> ag_lost st \<noteq> [] \<and> ag_vec st = []
          \<and> ag_written st = nonempty (map stats_of batches)
          \<and> write_status_data (concat (ag_written st) @ take k (ag_lost st)) db = (Inr (), ag_db st)))"

lemma accounts_runs:
  assumes "ag_end st = None" "evs = concat batches @ rest" "list_all one_batch batches" "collecting rest"
    "ag_vec st = stats_of rest" "ag_written st = nonempty (map stats_of batches)"
    "write_status_data (concat (ag_written st)) db = (Inr (), ag_db st)"
  shows "accounts db evs st"
  unfolding accounts_def assms(1) option.case by (intro exI conjI) (rule assms)+

lemma accounts_fails:
  assumes "ag_end st = Some e" "evs = concat batches @ failed @ rest" "list_all one_batch batches" "one_batch failed"
    "ag_lost st = stats_of failed" "ag_lost st \<noteq> []" "ag_vec st = []"
    "ag_written st = nonempty (map stats_of batches)"
    "write_status_data (concat (ag_written st) @ take k (ag_lost st)) db = (Inr (), ag_db st)"
  shows "accounts db evs st"
  unfolding accounts_def assms(1) option.case by (intro exI conjI) (rule assms)+

lemma nonempty_snoc: "nonempty (xs @ [x]) = nonempty xs @ (if x = [] then [] else [x])"
  by (simp add: nonempty_def)

lemma flush_accounts:
  assumes st: "ag_end st = None"
    and pre: "evs = concat batches @ rest" "list_all one_batch batches" "collecting rest"
      "ag_written st = nonempty (map stats_of batches)"
      "write_status_data (concat (ag_written st)) db = (Inr (), ag_db st)"
    and full: "due (rest @ [ev])" "vec = stats_of (rest @ [ev])" "vec \<noteq> []"
  shows "accounts db (evs @ [ev]) (aggr_flush fault vec st)"
proof (cases "write_batch fault vec (ag_db st)")
  case (Pair r db1)
  have b: "one_batch (rest @ [ev])" using full pre(3) by (simp add: one_batch_def)
  show ?thesis
  proof (cases r)
    case (Inr u)
    let ?bs = "batches @ [rest @ [ev]]"
    have "write_status_data vec (ag_db st) = (Inr (), db1)" using write_batch_ok Pair Inr by simp
    then have "write_status_data (concat (ag_written st @ [vec])) db = (Inr (), db1)"
      using pre(5) by (simp add: write_status_data_append)
    moreover have "nonempty (map stats_of ?bs) = ag_written st @ [vec]"
      using full(2,3) pre(4) by (simp add: nonempty_snoc)
    moreover have "evs @ [ev] = concat ?bs @ []" "list_all one_batch ?bs" using pre(1,2) b by simp_all
    ultimately show ?thesis
      by (intro accounts_runs [of _ _ ?bs "[]"])
        (simp_all add: aggr_flush_def Pair Inr st collecting_Nil del: map_append concat_append)
  next
    case (Inl e)
    obtain k where "write_status_data (take k vec) (ag_db st) = (Inr (), db1)"
      using write_batch_prefix [of vec "ag_db st" fault] Pair by auto
    then have "write_status_data (concat (ag_written st) @ take k vec) db = (Inr (), db1)"
      using pre(5) by (simp add: write_status_data_append)
    moreover have "evs @ [ev] = concat batches @ (rest @ [ev]) @ []" using pre(1) by simp
    ultimately show ?thesis
      by (intro accounts_fails [of _ e _ batches "rest @ [ev]" "[]" k])
        (use Pair Inl st b pre(2,4) full(2,3) in \<open>simp_all add: aggr_flush_def del: take_append\<close>)
  qed
qed

lemma aggr_step_accounts:
  assumes acc: "accounts db evs st"
  shows "accounts db (evs @ [ev]) (aggr_step st (fault, ev))"
proof (cases "ag_end st")
  case (Some e)
  then obtain batches failed rest k where "evs = concat batches @ failed @ rest"
      "list_all one_batch batches" "one_batch failed" "ag_lost st = stats_of failed" "ag_lost st \<noteq> []" "ag_vec st = []"
      "ag_written st = nonempty (map stats_of batches)"
      "write_status_data (concat (ag_written st) @ take k (ag_lost st)) db = (Inr (), ag_db st)"
    using acc by (auto simp: accounts_def)
  then show ?thesis
    using Some by (intro accounts_fails [of _ e _ batches failed "rest @ [ev]" k]) (simp_all add: aggr_step_def)
next
  case None
  then obtain batches rest where pre: "evs = concat batches @ rest" "list_all one_batch batches" "collecting rest"
      "ag_vec st = stats_of rest" "ag_written st = nonempty (map stats_of batches)"
      "write_status_data (concat (ag_written st)) db = (Inr (), ag_db st)"
    using acc by (auto simp: accounts_def)
  note flush = flush_accounts [OF None pre(1-3) pre(5,6)]
  show ?thesis
  proof (cases "due (rest @ [ev]) \<and> stats_of (rest @ [ev]) \<noteq> []")
    case True
    then have "aggr_step st (fault, ev) = aggr_flush fault (stats_of (rest @ [ev])) st"
      using None pre(4) by (cases ev) (auto simp: aggr_step_def due_def Let_def)
    then show ?thesis using flush True by simp
  next
    case False
    then have keep: "aggr_step st (fault, ev) = st\<lparr>ag_vec := stats_of (rest @ [ev])\<rparr>"
      using None pre(4) by (cases ev) (auto simp: aggr_step_def due_def Let_def)
    show ?thesis
    proof (cases "due (rest @ [ev])")
      case True
      then have e: "stats_of (rest @ [ev]) = []" using False by simp
      let ?bs = "batches @ [rest @ [ev]]"
      have "one_batch (rest @ [ev])" using True pre(3) by (simp add: one_batch_def)
      moreover have "nonempty (map stats_of ?bs) = nonempty (map stats_of batches)"
        using e by (simp add: nonempty_snoc)
      ultimately show ?thesis
        unfolding keep using None pre collecting_Nil e
        by (intro accounts_runs [of _ _ ?bs "[]"]) simp_all
    next
      case f: False
      then have "collecting (rest @ [ev])" using pre(3) by (simp add: collecting_snoc)
      then show ?thesis
        unfolding keep using None pre by (intro accounts_runs [of _ _ batches "rest @ [ev]"]) simp_all
    qed
  qed
qed

lemma aggr_run_accounts: "accounts db (map snd es) (foldl aggr_step (aggr_start db) es)"
proof (induction es rule: rev_induct)
  case Nil
  show ?case
    by (rule accounts_runs [of _ _ "[]" "[]"])
      (simp_all add: collecting_Nil aggr_start_def nonempty_def write_status_data_def)
next
  case (snoc x xs)
  then show ?case using aggr_step_accounts [OF snoc] by (cases x) simp
qed

section \<open>Properties\<close>

text \<open>
  C25. The aggregator writes what it receives, in order and without loss or repetition, in exactly the
  batches that are due: the events split into batches, each ending with a timeout or with the
  statistic that makes it as large as announced, and a rest that is still collecting; the non-empty
  batches have been written, in order, the database is the old one updated with exactly these statistics,
  and the rest alone is still held back. The only loss is a failed write: then the task has ended, the
  batches before it are in the database, followed by a prefix of the failed batch, and the remainder of
  that batch and everything received later is lost.
\<close>

theorem aggregator_lossless:
  "let st = foldl aggr_step (aggr_start db) es in
     case ag_end st of
       None \<Rightarrow> \<exists>batches rest. map snd es = concat batches @ rest \<and> list_all one_batch batches \<and> collecting rest
         \<and> ag_vec st = stats_of rest \<and> ag_written st = nonempty (map stats_of batches)
         \<and> write_status_data (concat (ag_written st)) db = (Inr (), ag_db st)
     | Some e \<Rightarrow> \<exists>batches failed rest k. map snd es = concat batches @ failed @ rest
         \<and> list_all one_batch batches \<and> one_batch failed
         \<and> ag_lost st = stats_of failed \<and> ag_lost st \<noteq> [] \<and> ag_vec st = []
         \<and> ag_written st = nonempty (map stats_of batches)
         \<and> write_status_data (concat (ag_written st) @ take k (ag_lost st)) db = (Inr (), ag_db st)"
  using aggr_run_accounts [of db es] by (simp only: accounts_def Let_def)

lemma aggr_step_runs:
  assumes "ag_end st = None" "list_all (in_columns \<circ> se_status) (ag_vec st)"
    "fst ev = None" "list_all (in_columns \<circ> se_status) (stat_of (snd ev))"
  shows "ag_end (aggr_step st ev) = None \<and> list_all (in_columns \<circ> se_status) (ag_vec (aggr_step st ev))"
proof -
  have ok: "ag_end (aggr_flush None es st) = None \<and> ag_vec (aggr_flush None es st) = []"
    if "list_all (in_columns \<circ> se_status) es" for es
    using write_statuses [of es "ag_db st"] that assms(1) by (auto simp: comp_def aggr_flush_def write_batch_def)
  obtain e where "ev = (None, e)" using assms(3) by (cases ev) simp
  then show ?thesis
    using assms ok [of "ag_vec st"] ok [of "ag_vec st @ stat_of e"]
    by (cases e) (simp_all add: aggr_step_def Let_def)
qed

text \<open>While the connection works and the values fit their columns, the aggregator never ends.\<close>

lemma aggregator_keeps_running:
  assumes "list_all (\<lambda>ev. fst ev = None \<and> list_all (in_columns \<circ> se_status) (stat_of (snd ev))) es"
  shows "ag_end (foldl aggr_step (aggr_start db) es) = None"
proof -
  have "ag_end (foldl aggr_step st es) = None"
    if "ag_end st = None" "list_all (in_columns \<circ> se_status) (ag_vec st)" for st
    using assms that by (induction es arbitrary: st) (use aggr_step_runs in auto)
  then show ?thesis by (simp add: aggr_start_def)
qed

text \<open>After a failed write nothing is received or written any more.\<close>

lemma aggregator_stays_down: "ag_end st = Some e \<Longrightarrow> foldl aggr_step st es = st"
  by (induction es) (simp_all add: aggr_step_def)

end
