(* ===== verification/Monitor.thy ===== *)
theory Monitor
  imports Samples
begin

text \<open>
  \<open>handle_response\<close> and \<open>super_xray_actions\<close> of \<^verbatim>\<open>src/cloud/service.rs\<close>: what follows from the
  outcome of one health check, with the ladder of corrective actions.

  The shared registry \<open>action_map\<close> is an association list in the order its iterator visits; a
  spawned Ansible run is a \<open>FixJob\<close> that is running or done with its result (an error result is
  an \<open>Err\<close> of the run or a panic of its task). What the handler spawns is appended to \<open>effects\<close>.
  The clock and the answer whether a backup of the panel database exists are arguments.
\<close>

datatype FixJob = Running AnsibleAction | Done AnsibleAction "unit res"

fun is_finished :: "FixJob \<Rightarrow> bool" where
  "is_finished (Running _) = False"
| "is_finished (Done _ _) = True"

record DashAction =
  da_health :: SvcHealth
  da_fix_try :: u8
  da_fix_action :: "FixJob option"

definition default_action :: DashAction where
  "default_action = \<lparr>da_health = Unknown, da_fix_try = 0, da_fix_action = None\<rparr>"

type_synonym ActionMap = "(TaskEntry \<times> DashAction) list"

datatype Effect = SpawnFix TaskEntry AnsibleAction | SpawnBackup string

record Registry =
  action_map :: ActionMap
  effects :: "Effect list"

type_synonym 'a monitored = "(Registry, BoxError, 'a) call"

section \<open>Access to the registry\<close>

definition get_action :: "TaskEntry \<Rightarrow> Registry \<Rightarrow> DashAction option" where
  "get_action k r = map_of (action_map r) k"

text \<open>\<open>if let Some(mut action) = action_map.get_mut(k)\<close>\<close>

definition modify_action :: "TaskEntry \<Rightarrow> (DashAction \<Rightarrow> DashAction) \<Rightarrow> unit monitored" where
  "modify_action k f r =
     (Inr (), r\<lparr>action_map := map (\<lambda>(k', a). (k', if k' = k then f a else a)) (action_map r)\<rparr>)"

definition fetch_action :: "TaskEntry \<Rightarrow> DashAction monitored" where
  "fetch_action k r = (ok_or (get_action k r) ActionMissing, r)"

definition emit :: "Effect \<Rightarrow> unit monitored" where
  "emit e r = (Inr (), r\<lparr>effects := effects r @ [e]\<rparr>)"

definition sibling_key :: "SvcInfo \<Rightarrow> SvcKind \<Rightarrow> TaskEntry \<Rightarrow> bool" where
  "sibling_key info sibling k =
     (case (sibling, k) of
        (Ssh, SshMonitor svc) \<Rightarrow> key_server svc = srv_name (si_server info)
      | (Nginx, NginxMonitor svc) \<Rightarrow> key_server svc = srv_name (si_server info)
      | (Xray _, XrayMonitor svc) \<Rightarrow> key_server svc = srv_name (si_server info) \<and> key_kind svc = super_xray
      | _ \<Rightarrow> False)"

definition sibling_health_check :: "SvcInfo \<Rightarrow> ActionMap \<Rightarrow> SvcKind \<Rightarrow> bool" where
  "sibling_health_check info m sibling =
     (case find (\<lambda>(k, a). sibling_key info sibling k) m of
        None \<Rightarrow> False
      | Some (k, a) \<Rightarrow> da_health a = HOk)"

definition super_sibling_fixtry :: "SvcInfo \<Rightarrow> ActionMap \<Rightarrow> u8 res" where
  "super_sibling_fixtry info m =
     ok_or (map_option (\<lambda>(k, a). da_fix_try a) (find (\<lambda>(k, a). sibling_key info super_xray k) m))
       SuperSiblingMissing"

definition check_super_xray :: "SvcInfo \<Rightarrow> ActionMap \<Rightarrow> unit res" where
  "check_super_xray info m =
     try_fold (\<lambda>_ (k, a). case k of
         XrayMonitor svc \<Rightarrow>
           (if key_kind svc \<noteq> si_kind info \<and> key_server svc = srv_name (si_server info) \<and> da_health a \<noteq> HOk
            then Inl (External ''one or more unhealthy inbounds'') else Inr ())
       | _ \<Rightarrow> Inr ()) () m"

section \<open>Fixing actions\<close>

definition jh_state :: "DashAction \<Rightarrow> bool \<times> bool" where
  "jh_state a = (case da_fix_action a of Some jh \<Rightarrow> (False, is_finished jh) | None \<Rightarrow> (True, False))"

definition with_fix_try :: "(u8 \<Rightarrow> u8) \<Rightarrow> SvcEntry \<Rightarrow> SvcEntry" where
  "with_fix_try f svc = svc\<lparr>se_status := (se_status svc)\<lparr>fix_try := f (fix_try (se_status svc))\<rparr>\<rparr>"

text \<open>
  Taking a finished handle out of the registry and awaiting it: the handle is gone whatever the
  result; the level counts up, but an error result leaves the handler and the count is lost.
\<close>

definition take_finished :: "TaskEntry \<Rightarrow> SvcEntry \<Rightarrow> (SvcEntry \<times> bool) monitored" where
  "take_finished k svc =
     via (fetch_action k) (\<lambda>a.
     via (modify_action k (\<lambda>a. a\<lparr>da_fix_action := None\<rparr>)) (\<lambda>_.
     case da_fix_action a of
       Some (Done _ r) \<Rightarrow> via (pure r) (\<lambda>_. pure (Inr (with_fix_try (\<lambda>n. n + 1) svc, True)))
     | _ \<Rightarrow> pure (Inr (svc, False))))"

definition nginx_choice :: "u8 \<Rightarrow> AnsibleAction option" where
  "nginx_choice n = (if n = 0 then Some NginxRestart else if n = 1 then Some NginxRestoreConfig else None)"

definition xray_choice :: "u8 \<Rightarrow> AnsibleAction option" where
  "xray_choice n = (if n = 0 then Some XrayRestart else if n = 1 then Some XrayRestoreDB else None)"

text \<open>Spawning the run and the handle to store for it.\<close>

definition spawn_fix :: "TaskEntry \<Rightarrow> AnsibleAction option \<Rightarrow> FixJob option monitored" where
  "spawn_fix k choice =
     (case choice of
        None \<Rightarrow> pure (Inr None)
      | Some act \<Rightarrow> via (emit (SpawnFix k act)) (\<lambda>_. pure (Inr (Some (Running act)))))"

definition nginx_actions :: "SvcEntry \<Rightarrow> (SvcEntry \<times> AnsibleAction option) monitored" where
  "nginx_actions svc r0 =
     (let key = svc_task (se_info svc) in
      if sibling_health_check (se_info svc) (action_map r0) Ssh
      then if fix_try (se_status svc) < 2
        then via (fetch_action key) (\<lambda>a.
             let (jh_none0, jh_finished) = jh_state a in
             via (if jh_finished then take_finished key svc else pure (Inr (svc, False))) (\<lambda>(svc', _).
             let jh_none = (jh_none0 \<or> jh_finished);
                 choice = nginx_choice (fix_try (se_status svc')) in
             if jh_none
             then via (spawn_fix key choice) (\<lambda>jh.
                  via (modify_action key (\<lambda>_. \<lparr>da_health = health (se_status svc'),
                    da_fix_try = fix_try (se_status svc'), da_fix_action = jh\<rparr>)) (\<lambda>_.
                  pure (Inr (svc', choice))))
             else pure (Inr (svc', choice)))) r0
        else pure (Inr (svc, None)) r0
      else pure (Inr (svc, None)) r0)"

definition super_sick_actions :: "bool res \<Rightarrow> SvcEntry \<Rightarrow> (SvcEntry \<times> AnsibleAction option) monitored" where
  "super_sick_actions last_db svc r0 =
     (let key = XrayMonitor (svc_key (se_info svc)) in
      if sibling_health_check (se_info svc) (action_map r0) Ssh
         \<and> sibling_health_check (se_info svc) (action_map r0) Nginx
      then if fix_try (se_status svc) < 2
        then via (fetch_action key) (\<lambda>a.
             let (jh_none, jh_finished) = jh_state a in
             via (if jh_finished
                  then via (take_finished key svc) (\<lambda>(svc1, taken).
                       if taken \<and> fix_try (se_status svc1) = 1
                       then via (pure last_db) (\<lambda>exists.
                            pure (Inr (if exists then svc1 else with_fix_try (\<lambda>n. n + 1) svc1)))
                       else pure (Inr svc1))
                  else pure (Inr svc)) (\<lambda>svc'.
             let choice = (if jh_none then xray_choice (fix_try (se_status svc')) else None) in
             if jh_none
             then via (spawn_fix key choice) (\<lambda>jh.
                  via (modify_action key (\<lambda>a. a\<lparr>da_fix_action := jh, da_fix_try := fix_try (se_status svc')\<rparr>)) (\<lambda>_.
                  pure (Inr (svc', choice))))
             else pure (Inr (svc', choice)))) r0
        else pure (Inr (svc, None)) r0
      else pure (Inr (svc, None)) r0)"

definition super_xray_actions :: "bool res \<Rightarrow> SvcEntry \<Rightarrow> (SvcEntry \<times> AnsibleAction option) monitored" where
  "super_xray_actions last_db svc =
     (case health (se_status svc) of
        HOk \<Rightarrow> via (emit (SpawnBackup (srv_name (si_server (se_info svc))))) (\<lambda>_. pure (Inr (svc, None)))
      | Sick \<Rightarrow> super_sick_actions last_db svc
      | Unknown \<Rightarrow> pure (Inr (svc, None)))"

section \<open>The response of a check\<close>

definition reset_status :: "SvcStatus \<Rightarrow> SvcStatus" where
  "reset_status st = (if failed_count st > 0 \<or> health st \<noteq> HOk
     then st\<lparr>health := HOk, failed_count := 0, fix_try := 0\<rparr> else st)"

definition handle_ok :: "bool res \<Rightarrow> SvcEntry \<Rightarrow> SvcEntry monitored" where
  "handle_ok last_db svc0 =
     via (pure (case si_kind (se_info svc0) of
         Xray inb \<Rightarrow>
           (if inb = super_name then Inr ()
            else and_then (ok_or (find (\<lambda>i. inb_name i = inb) (srv_inbounds (si_server (se_info svc0))))
                   (InboundNotFound inb)) (\<lambda>_. Inr ()))
       | _ \<Rightarrow> Inr ())) (\<lambda>_.
     let svc = svc0\<lparr>se_status := reset_status (se_status svc0)\<rparr> in
     if si_kind (se_info svc) = super_xray
     then via (super_xray_actions last_db svc) (\<lambda>(svc', _). pure (Inr svc'))
     else via (modify_action (svc_task (se_info svc))
            (\<lambda>a. \<lparr>da_health = HOk, da_fix_try = 0, da_fix_action = None\<rparr>)) (\<lambda>_. pure (Inr svc)))"

definition count_failure :: "u64 \<Rightarrow> SvcStatus \<Rightarrow> SvcStatus" where
  "count_failure now st =
     (let n = failed_count st + 1 in
      st\<lparr>failed_count := n, failed_since := (if n = 1 then now else failed_since st), health := Sick\<rparr>)"

definition ssh_escalation :: "SvcEntry \<Rightarrow> SvcEntry monitored" where
  "ssh_escalation svc =
     (let svc' = with_fix_try (\<lambda>_. 1) svc in
      via (modify_action (svc_task (se_info svc)) (\<lambda>_. \<lparr>da_health = health (se_status svc'),
        da_fix_try = fix_try (se_status svc'), da_fix_action = None\<rparr>)) (\<lambda>_. pure (Inr svc')))"

definition inbound_escalation :: "SvcEntry \<Rightarrow> SvcEntry monitored" where
  "inbound_escalation svc r0 =
     via (pure (super_sibling_fixtry (se_info svc) (action_map r0))) (\<lambda>n.
     let svc' = with_fix_try (\<lambda>_. n) svc in
     via (modify_action (svc_task (se_info svc)) (\<lambda>_. \<lparr>da_health = health (se_status svc'),
       da_fix_try = n, da_fix_action = None\<rparr>)) (\<lambda>_. pure (Inr svc'))) r0"

definition escalate :: "bool res \<Rightarrow> SvcEntry \<Rightarrow> SvcEntry monitored" where
  "escalate last_db svc =
     (case si_kind (se_info svc) of
        Ssh \<Rightarrow> ssh_escalation svc
      | Nginx \<Rightarrow> via (nginx_actions svc) (\<lambda>(svc', _). pure (Inr svc'))
      | Xray inb \<Rightarrow>
          (if inb = super_name then via (super_xray_actions last_db svc) (\<lambda>(svc', _). pure (Inr svc'))
           else inbound_escalation svc))"

definition handle_err :: "u64 \<Rightarrow> bool res \<Rightarrow> bool \<Rightarrow> u64 \<Rightarrow> SvcEntry \<Rightarrow> SvcEntry monitored" where
  "handle_err now last_db autofix threshold svc0 =
     (let svc = svc0\<lparr>se_status := count_failure now (se_status svc0)\<rparr> in
      via (modify_action (svc_task (se_info svc)) (\<lambda>a. a\<lparr>da_health := Sick\<rparr>)) (\<lambda>_.
      if autofix \<and> failed_count (se_status svc) \<ge> threshold then escalate last_db svc
      else pure (Inr svc)))"

text \<open>The outcome of a check: \<open>Inr\<close> for a healthy service, \<open>Inl\<close> for a failed one.\<close>

definition handle_response ::
  "u64 \<Rightarrow> bool res \<Rightarrow> bool \<Rightarrow> u64 \<Rightarrow> SvcEntry + SvcEntry \<Rightarrow> SvcEntry monitored" where
  "handle_response now last_db autofix threshold res =
     (case res of Inr svc \<Rightarrow> handle_ok last_db svc | Inl svc \<Rightarrow> handle_err now last_db autofix threshold svc)"

end
