(* ===== verification/Fix_Ladder.thy ===== *)
theory Fix_Ladder
  imports Monitor
begin

text \<open>
  The ladder of corrective actions over a whole failure episode. The contract \<open>fix_ladder\<close> is
  about any step system with a level, a pending run, a count of started runs and the events at which a
  started run is lost without being counted; it is interpreted on
  the episodes of Nginx and of the Xray supervisor, stepped by the program's own response handler.
\<close>

section \<open>The contract\<close>

locale fix_ladder = step_system step inv allowed
  for step :: "'s \<Rightarrow> 'e \<Rightarrow> 's" and inv :: "'s \<Rightarrow> bool" and allowed :: "'e \<Rightarrow> bool" +
  fixes level :: "'s \<Rightarrow> nat" and pending :: "'s \<Rightarrow> nat" and started :: "'s \<Rightarrow> nat" and loses :: "'e \<Rightarrow> bool"
  assumes top: "inv s \<Longrightarrow> level s + pending s \<le> 2"
    and progress: "inv s \<Longrightarrow> allowed e \<Longrightarrow>
      started (step s e) + (level s + pending s)
        \<le> started s + (if loses e then 1 else 0) + (level (step s e) + pending (step s e))"
begin

lemma run_progress:
  "inv s \<Longrightarrow> list_all allowed es \<Longrightarrow>
     started (foldl step s es) + (level s + pending s)
       \<le> started s + length (filter loses es) + (level (foldl step s es) + pending (foldl step s es))"
proof (induction es arbitrary: s)
  case (Cons e es)
  have "inv (step s e)" using Cons.prems step_inv by simp
  from Cons.IH [OF this] Cons.prems progress [of s e] show ?case by (simp split: if_splits)
qed simp

lemma starts_bounded:
  "inv s \<Longrightarrow> list_all allowed es \<Longrightarrow>
     started (foldl step s es) \<le> started s + length (filter loses es) + (2 - (level s + pending s))"
  using run_progress [of s es] top [OF run_inv, of s es] by linarith

end

section \<open>Registry lemmas\<close>

definition job_of :: "TaskEntry \<Rightarrow> Registry \<Rightarrow> FixJob option" where
  "job_of k r = (case get_action k r of None \<Rightarrow> None | Some a \<Rightarrow> da_fix_action a)"

definition starts :: "TaskEntry \<Rightarrow> Registry \<Rightarrow> nat" where
  "starts k r = length (filter (\<lambda>e. case e of SpawnFix k' _ \<Rightarrow> k' = k | _ \<Rightarrow> False) (effects r))"

text \<open>A run that is under way or that returned counts as pending; one that ended in an error is lost.\<close>

definition pend :: "TaskEntry \<Rightarrow> Registry \<Rightarrow> nat" where
  "pend k r = (case job_of k r of None \<Rightarrow> 0 | Some (Done _ (Inl _)) \<Rightarrow> 0 | Some _ \<Rightarrow> 1)"

definition lvl :: "SvcEntry \<Rightarrow> nat" where
  "lvl svc = unat (fix_try (se_status svc))"

lemma map_of_map_key: "map_of (map (\<lambda>(k', a). (k', if k' = k then f a else a)) xs) j
    = (if j = k then map_option f (map_of xs j) else map_of xs j)"
  by (induction xs) auto

definition modified :: "TaskEntry \<Rightarrow> (DashAction \<Rightarrow> DashAction) \<Rightarrow> Registry \<Rightarrow> Registry" where
  "modified k f r = r\<lparr>action_map := map (\<lambda>(k', a). (k', if k' = k then f a else a)) (action_map r)\<rparr>"

lemma modify_action_run [svc_simps]: "modify_action k f r = (Inr (), modified k f r)"
  by (simp add: modify_action_def modified_def)

lemma fetch_action_run [svc_simps]: "get_action k r = Some a \<Longrightarrow> fetch_action k r = (Inr a, r)"
  by (simp add: fetch_action_def)

lemma get_modified [simp]:
  "get_action j (modified k f r) = (if j = k then map_option f (get_action j r) else get_action j r)"
  by (simp add: modified_def get_action_def map_of_map_key)

lemma effects_modified [simp]: "effects (modified k f r) = effects r"
  by (simp add: modified_def)

lemma keys_modified [simp]: "map fst (action_map (modified k f r)) = map fst (action_map r)"
  by (auto simp: modified_def)

lemma get_action_effects [simp]: "get_action k (r\<lparr>effects := es\<rparr>) = get_action k r"
  by (simp add: get_action_def)

lemmas run_simps = svc_simps via_def pure_def emit_def

lemma job_of_get: "get_action k r = Some a \<Longrightarrow> job_of k r = da_fix_action a"
  by (simp add: job_of_def)

lemma starts_effects: "starts k (r\<lparr>effects := effects r @ [SpawnFix k a]\<rparr>) = Suc (starts k r)"
  by (simp add: starts_def)

lemma u8_below_2: "(n :: u8) < 2 \<longleftrightarrow> n = 0 \<or> n = 1"
proof
  assume "n < 2"
  then have "unat n < 2" by (simp add: word_less_nat_alt)
  then have "unat n = 0 \<or> unat n = 1" by linarith
  then show "n = 0 \<or> n = 1" by (auto simp: word_unat_eq_iff)
qed auto

section \<open>One step of the two ladders\<close>

text \<open>What one handled failure does to the level, the pending run and the count of started runs.\<close>

definition climbs :: "nat \<Rightarrow> TaskEntry \<Rightarrow> SvcEntry \<Rightarrow> Registry \<Rightarrow> SvcEntry \<Rightarrow> Registry \<Rightarrow> bool" where
  "climbs lost k svc r svc' r' \<longleftrightarrow> se_info svc' = se_info svc
     \<and> get_action k r' \<noteq> None
     \<and> starts k r' + (lvl svc + pend k r) \<le> starts k r + lost + (lvl svc' + pend k r')
     \<and> lvl svc' + pend k r' \<le> 2"

text \<open>A handler that fails leaves the entry as it was.\<close>

definition kept :: "SvcEntry \<Rightarrow> SvcEntry res \<Rightarrow> SvcEntry" where
  "kept svc res = (case res of Inl _ \<Rightarrow> svc | Inr svc' \<Rightarrow> svc')"

lemma climbs_same:
  "get_action k r = Some a \<Longrightarrow> lvl svc + pend k r \<le> 2 \<Longrightarrow> climbs lost k svc r svc r"
  by (simp add: climbs_def)

lemma lvl_up: "fix_try (se_status svc) < 2 \<Longrightarrow> lvl (with_fix_try (\<lambda>n. n + 1) svc) = Suc (lvl svc)"
  by (auto simp: u8_below_2 lvl_def with_fix_try_def)

lemma lvl_below: "fix_try (se_status svc) < 2 \<Longrightarrow> lvl svc \<le> 1"
  by (auto simp: u8_below_2 lvl_def)

lemma with_fix_try_info [simp]: "se_info (with_fix_try f svc) = se_info svc"
  by (simp add: with_fix_try_def)

text \<open>The registry after a run was spawned, or not, and its handle stored.\<close>

definition store_fix :: "TaskEntry \<Rightarrow> AnsibleAction option \<Rightarrow> (FixJob option \<Rightarrow> DashAction \<Rightarrow> DashAction) \<Rightarrow> Registry \<Rightarrow> Registry" where
  "store_fix k choice f r =
     modified k (f (map_option Running choice))
       (case choice of None \<Rightarrow> r | Some c \<Rightarrow> r\<lparr>effects := effects r @ [SpawnFix k c]\<rparr>)"

lemma spawn_store:
  "via (spawn_fix k choice) (\<lambda>jh. via (modify_action k (f jh)) (\<lambda>_. pure (Inr x))) r = (Inr x, store_fix k choice f r)"
  by (cases choice) (simp_all add: spawn_fix_def store_fix_def run_simps)

lemma store_fix_facts:
  assumes "get_action k r = Some a" "\<And>jh b. da_fix_action (f jh b) = jh"
  shows "get_action k (store_fix k choice f r) \<noteq> None"
    "job_of k (store_fix k choice f r) = map_option Running choice"
    "starts k (store_fix k choice f r) = starts k r + (if choice = None then 0 else 1)"
  using assms by (cases choice; simp add: store_fix_def job_of_def starts_def)+

lemma fix_job_cases:
  obtains "j = None" | c where "j = Some (Running c)" | c e where "j = Some (Done c (Inl e))"
    | c where "j = Some (Done c (Inr ()))"
  by (metis FixJob.exhaust old.unit.exhaust option.exhaust sum.exhaust)

lemma take_finished_run:
  assumes "get_action k r = Some a" "da_fix_action a = Some (Done c res)"
  shows "take_finished k svc r = (case res of Inl e \<Rightarrow> (Inl e, modified k (\<lambda>a. a\<lparr>da_fix_action := None\<rparr>) r)
     | Inr _ \<Rightarrow> (Inr (with_fix_try (\<lambda>n. n + 1) svc, True), modified k (\<lambda>a. a\<lparr>da_fix_action := None\<rparr>) r))"
  using assms by (cases res) (simp_all add: take_finished_def run_simps)

lemma taken_facts:
  "get_action k r = Some a \<Longrightarrow> get_action k (modified k (\<lambda>a. a\<lparr>da_fix_action := None\<rparr>) r) = Some (a\<lparr>da_fix_action := None\<rparr>)"
  "starts k (modified k f r) = starts k r"
  by (simp_all add: starts_def)

definition nginx_store :: "SvcEntry \<Rightarrow> FixJob option \<Rightarrow> DashAction \<Rightarrow> DashAction" where
  "nginx_store svc jh b = \<lparr>da_health = health (se_status svc), da_fix_try = fix_try (se_status svc), da_fix_action = jh\<rparr>"

lemma nginx_actions_run:
  assumes key: "k = svc_task (se_info svc)" and a: "get_action k r = Some a"
    and ok: "sibling_health_check (se_info svc) (action_map r) Ssh" "fix_try (se_status svc) < 2"
  shows "nginx_actions svc r = (case da_fix_action a of
      None \<Rightarrow> (Inr (svc, nginx_choice (fix_try (se_status svc))),
        store_fix k (nginx_choice (fix_try (se_status svc))) (nginx_store svc) r)
    | Some (Running _) \<Rightarrow> (Inr (svc, nginx_choice (fix_try (se_status svc))), r)
    | Some (Done _ (Inl e)) \<Rightarrow> (Inl e, modified k (\<lambda>a. a\<lparr>da_fix_action := None\<rparr>) r)
    | Some (Done _ (Inr _)) \<Rightarrow>
        (let svc' = with_fix_try (\<lambda>n. n + 1) svc; choice = nginx_choice (fix_try (se_status svc')) in
         (Inr (svc', choice), store_fix k choice (nginx_store svc') (modified k (\<lambda>a. a\<lparr>da_fix_action := None\<rparr>) r))))"
proof -
  have store: "via (spawn_fix k ch) (\<lambda>jh. via (modify_action k (\<lambda>_. \<lparr>da_health = health (se_status t),
      da_fix_try = fix_try (se_status t), da_fix_action = jh\<rparr>)) (\<lambda>_. pure (Inr x))) q
      = (Inr x, store_fix k ch (nginx_store t) q)" for ch t x q
    using spawn_store [of k ch "nginx_store t" x q] by (simp add: nginx_store_def [abs_def])
  show ?thesis
    using ok
    by (cases "da_fix_action a" rule: fix_job_cases)
      (simp_all add: nginx_actions_def key [symmetric] jh_state_def Let_def take_finished_run [OF a]
        via_def [of "fetch_action k"] via_def [of "take_finished k svc"] via_def [of "pure _"]
        fetch_action_run [OF a] store store [unfolded pure_def] pure_def)
qed

lemma nginx_choice_None: "fix_try (se_status svc) < 2 \<Longrightarrow> nginx_choice (fix_try (se_status svc)) \<noteq> None"
  by (auto simp: nginx_choice_def u8_below_2)

lemma nginx_choice_up:
  "fix_try (se_status svc) < 2 \<Longrightarrow>
     nginx_choice (fix_try (se_status (with_fix_try (\<lambda>n. n + 1) svc))) = None \<longleftrightarrow> lvl svc = 1"
  by (auto simp: nginx_choice_def u8_below_2 with_fix_try_def lvl_def)

lemma nginx_climbs:
  assumes key: "k = svc_task (se_info svc)" and a: "get_action k r = Some a"
    and top: "lvl svc + pend k r \<le> 2"
  shows "\<exists>res r'. nginx_actions svc r = (res, r') \<and> climbs 0 k svc r (kept svc (map_sum id fst res)) r'"
proof (cases "sibling_health_check (se_info svc) (action_map r) Ssh \<and> fix_try (se_status svc) < 2")
  case False
  then have "\<exists>c. nginx_actions svc r = (Inr (svc, c), r)"
    by (auto simp: nginx_actions_def pure_def Let_def)
  with climbs_same [OF a top] show ?thesis by (auto simp: kept_def)
next
  case True
  note run = nginx_actions_run [OF key a True [THEN conjunct1] True [THEN conjunct2]]
  note low = lvl_below [OF True [THEN conjunct2]]
  note store = store_fix_facts [OF a, where f = "nginx_store svc"]
  show ?thesis
  proof (cases "da_fix_action a" rule: fix_job_cases)
    case 1
    with run store a low nginx_choice_None [OF True [THEN conjunct2]] show ?thesis
      by (auto simp: climbs_def pend_def job_of_get nginx_store_def kept_def)
  next
    case (2 c)
    with run climbs_same [OF a top] show ?thesis by (auto simp: kept_def)
  next
    case (3 c e)
    with run a top job_of_get [OF taken_facts(1) [OF a]] show ?thesis
      by (auto simp: climbs_def pend_def job_of_get taken_facts kept_def)
  next
    case (4 c)
    let ?svc = "with_fix_try (\<lambda>n. n + 1) svc" and ?r = "modified k (\<lambda>a. a\<lparr>da_fix_action := None\<rparr>) r"
    note store' = store_fix_facts [OF taken_facts(1) [OF a], where f = "nginx_store ?svc"]
    from 4 run have "nginx_actions svc r = (Inr (?svc, nginx_choice (fix_try (se_status ?svc))),
        store_fix k (nginx_choice (fix_try (se_status ?svc))) (nginx_store ?svc) ?r)" by (simp add: Let_def)
    moreover have "climbs 0 k svc r ?svc (store_fix k (nginx_choice (fix_try (se_status ?svc))) (nginx_store ?svc) ?r)"
      using 4 a low store' lvl_up [OF True [THEN conjunct2]] nginx_choice_up [OF True [THEN conjunct2]]
      by (auto simp: climbs_def pend_def job_of_get nginx_store_def taken_facts split: option.split)
    ultimately show ?thesis by (auto simp: kept_def)
  qed
qed

definition super_store :: "SvcEntry \<Rightarrow> FixJob option \<Rightarrow> DashAction \<Rightarrow> DashAction" where
  "super_store svc jh b = b\<lparr>da_fix_action := jh, da_fix_try := fix_try (se_status svc)\<rparr>"

text \<open>The entry after a finished run: without a backup the level of the database restore is skipped.\<close>

definition super_taken :: "bool \<Rightarrow> SvcEntry \<Rightarrow> SvcEntry" where
  "super_taken exists svc =
     (let svc1 = with_fix_try (\<lambda>n. n + 1) svc in
      if fix_try (se_status svc1) = 1 \<and> \<not> exists then with_fix_try (\<lambda>n. n + 1) svc1 else svc1)"

lemma super_sick_run:
  assumes key: "k = XrayMonitor (svc_key (se_info svc))" and a: "get_action k r = Some a"
    and ok: "sibling_health_check (se_info svc) (action_map r) Ssh"
      "sibling_health_check (se_info svc) (action_map r) Nginx" "fix_try (se_status svc) < 2"
  shows "super_sick_actions (Inr exists) svc r = (case da_fix_action a of
      None \<Rightarrow> (Inr (svc, xray_choice (fix_try (se_status svc))),
        store_fix k (xray_choice (fix_try (se_status svc))) (super_store svc) r)
    | Some (Running _) \<Rightarrow> (Inr (svc, None), r)
    | Some (Done _ (Inl e)) \<Rightarrow> (Inl e, modified k (\<lambda>a. a\<lparr>da_fix_action := None\<rparr>) r)
    | Some (Done _ (Inr _)) \<Rightarrow> (Inr (super_taken exists svc, None), modified k (\<lambda>a. a\<lparr>da_fix_action := None\<rparr>) r))"
proof -
  have store: "via (spawn_fix k ch) (\<lambda>jh. via (modify_action k (\<lambda>a. a\<lparr>da_fix_action := jh,
      da_fix_try := fix_try (se_status t)\<rparr>)) (\<lambda>_. pure (Inr x))) q = (Inr x, store_fix k ch (super_store t) q)" for ch t x q
    using spawn_store [of k ch "super_store t" x q] by (simp add: super_store_def [abs_def])
  note defs = super_sick_actions_def key [symmetric] jh_state_def Let_def fetch_action_run [OF a] ok
  show ?thesis
  proof (cases "da_fix_action a" rule: fix_job_cases)
    case 1
    then show ?thesis
      by (simp add: defs via_def [of "fetch_action k"] via_def [of "pure _"] store store [unfolded pure_def] pure_def)
  qed (simp_all add: defs take_finished_run [OF a] via_def pure_def super_taken_def)
qed

lemma xray_choice_None: "fix_try (se_status svc) < 2 \<Longrightarrow> xray_choice (fix_try (se_status svc)) \<noteq> None"
  by (auto simp: xray_choice_def u8_below_2)

lemma super_taken_lvl:
  assumes "fix_try (se_status svc) < 2"
  shows "Suc (lvl svc) \<le> lvl (super_taken exists svc)" "lvl (super_taken exists svc) \<le> 2"
    "se_info (super_taken exists svc) = se_info svc"
  using assms by (auto simp: super_taken_def u8_below_2 lvl_def with_fix_try_def Let_def)

text \<open>If the lookup of the backup fails, a run that returned is taken but its level may be lost.\<close>

lemma super_sick_lookup_fails:
  assumes key: "k = XrayMonitor (svc_key (se_info svc))" and a: "get_action k r = Some a"
    and ok: "sibling_health_check (se_info svc) (action_map r) Ssh"
      "sibling_health_check (se_info svc) (action_map r) Nginx" "fix_try (se_status svc) < 2"
    and job: "da_fix_action a = Some (Done c (Inr ()))"
  shows "\<exists>res. super_sick_actions (Inl e) svc r = (res, modified k (\<lambda>a. a\<lparr>da_fix_action := None\<rparr>) r)
    \<and> (res = Inl e \<or> res = Inr (with_fix_try (\<lambda>n. n + 1) svc, None))"
  using job
  by (auto simp: super_sick_actions_def key [symmetric] jh_state_def Let_def fetch_action_run [OF a] ok
      take_finished_run [OF a] via_def pure_def)

lemma super_sick_other:
  assumes key: "k = XrayMonitor (svc_key (se_info svc))" and a: "get_action k r = Some a"
    and job: "\<nexists>c. da_fix_action a = Some (Done c (Inr ()))"
  shows "super_sick_actions last_db svc r = super_sick_actions (Inr True) svc r"
  using job
  by (cases "da_fix_action a" rule: fix_job_cases)
    (simp_all add: super_sick_actions_def key [symmetric] jh_state_def Let_def fetch_action_run [OF a]
      take_finished_run [OF a] via_def pure_def split: if_splits)

lemma super_climbs_found:
  assumes key: "k = XrayMonitor (svc_key (se_info svc))" and a: "get_action k r = Some a"
    and top: "lvl svc + pend k r \<le> 2"
  shows "\<exists>res r'. super_sick_actions (Inr exists) svc r = (res, r') \<and> climbs 0 k svc r (kept svc (map_sum id fst res)) r'"
proof (cases "sibling_health_check (se_info svc) (action_map r) Ssh
    \<and> sibling_health_check (se_info svc) (action_map r) Nginx \<and> fix_try (se_status svc) < 2")
  case False
  then have "\<exists>c. super_sick_actions (Inr exists) svc r = (Inr (svc, c), r)"
    by (auto simp: super_sick_actions_def pure_def Let_def)
  with climbs_same [OF a top] show ?thesis by (auto simp: kept_def)
next
  case True
  then have low: "fix_try (se_status svc) < 2" by blast
  note run = super_sick_run [OF key a True [THEN conjunct1] True [THEN conjunct2, THEN conjunct1] low, of exists]
  show ?thesis
  proof (cases "da_fix_action a" rule: fix_job_cases)
    case 1
    with run store_fix_facts [OF a, where f = "super_store svc"] a lvl_below [OF low] xray_choice_None [OF low]
    show ?thesis by (auto simp: climbs_def pend_def job_of_get super_store_def kept_def)
  next
    case (2 c)
    with run climbs_same [OF a top] show ?thesis by (auto simp: kept_def)
  next
    case (3 c e)
    with run a top job_of_get [OF taken_facts(1) [OF a]] show ?thesis
      by (auto simp: climbs_def pend_def job_of_get taken_facts kept_def)
  next
    case (4 c)
    have "climbs 0 k svc r (super_taken exists svc) (modified k (\<lambda>a. a\<lparr>da_fix_action := None\<rparr>) r)"
      using 4 a super_taken_lvl [OF low, of exists]
      by (auto simp: climbs_def pend_def job_of_get [OF a] job_of_get [OF taken_facts(1) [OF a]] taken_facts)
    with 4 run show ?thesis by (auto simp: kept_def)
  qed
qed

lemma super_climbs:
  assumes key: "k = XrayMonitor (svc_key (se_info svc))" and a: "get_action k r = Some a"
    and top: "lvl svc + pend k r \<le> 2"
  shows "\<exists>res r'. super_sick_actions last_db svc r = (res, r')
    \<and> climbs (if isl last_db then 1 else 0) k svc r (kept svc (map_sum id fst res)) r'"
proof (cases last_db)
  case (Inr b)
  with super_climbs_found [OF assms, of b] show ?thesis by simp
next
  case (Inl e)
  show ?thesis
  proof (cases "(\<exists>c. da_fix_action a = Some (Done c (Inr ()))) \<and> sibling_health_check (se_info svc) (action_map r) Ssh
    \<and> sibling_health_check (se_info svc) (action_map r) Nginx \<and> fix_try (se_status svc) < 2")
    case True
    then obtain c where c: "da_fix_action a = Some (Done c (Inr ()))" by blast
    let ?r = "modified k (\<lambda>a. a\<lparr>da_fix_action := None\<rparr>) r"
    obtain res where res: "super_sick_actions (Inl e) svc r = (res, ?r)"
      "res = Inl e \<or> res = Inr (with_fix_try (\<lambda>n. n + 1) svc, None)"
      using super_sick_lookup_fails [OF key a _ _ _ c] True by blast
    have "climbs 1 k svc r (kept svc (map_sum id fst res)) ?r"
      using res(2) a c lvl_up [of svc] lvl_below [of svc] True
      by (auto simp: climbs_def pend_def job_of_get [OF a] job_of_get [OF taken_facts(1) [OF a]] taken_facts kept_def)
    with res(1) Inl show ?thesis by auto
  next
    case False
    have "super_sick_actions (Inl e) svc r = super_sick_actions (Inr True) svc r"
    proof (cases "\<exists>c. da_fix_action a = Some (Done c (Inr ()))")
      case True
      then show ?thesis using False by (auto simp: super_sick_actions_def pure_def Let_def)
    next
      case no: False
      show ?thesis by (rule super_sick_other [OF key a]) (use no in blast)
    qed
    moreover obtain res r' where "super_sick_actions (Inr True) svc r = (res, r')"
      "climbs 0 k svc r (kept svc (map_sum id fst res)) r'" using super_climbs_found [OF assms, of True] by blast
    moreover have "climbs 0 k svc r t q \<Longrightarrow> climbs 1 k svc r t q" for t q by (simp add: climbs_def)
    ultimately show ?thesis using Inl by auto
  qed
qed

section \<open>Failure episodes\<close>

text \<open>
  A failure episode of one service: checks keep failing, the spawned run returns, and the health
  of other services changes. A failed handler leaves the entry of the service as it was.
\<close>

record Episode =
  ep_svc :: SvcEntry
  ep_reg :: Registry

datatype EpisodeEvent = CheckFails u64 "bool res" | RunReturns "unit res" | SiblingHealth TaskEntry SvcHealth

definition own_key :: "Episode \<Rightarrow> TaskEntry" where
  "own_key ep = svc_task (se_info (ep_svc ep))"

definition run_returns :: "unit res \<Rightarrow> DashAction \<Rightarrow> DashAction" where
  "run_returns res a = (case da_fix_action a of Some (Running c) \<Rightarrow> a\<lparr>da_fix_action := Some (Done c res)\<rparr> | _ \<Rightarrow> a)"

definition episode_step :: "u64 \<Rightarrow> Episode \<Rightarrow> EpisodeEvent \<Rightarrow> Episode" where
  "episode_step threshold ep ev =
     (case ev of
        CheckFails now last_db \<Rightarrow>
          (case handle_response now last_db True threshold (Inl (ep_svc ep)) (ep_reg ep) of
             (Inr svc', r') \<Rightarrow> \<lparr>ep_svc = svc', ep_reg = r'\<rparr>
           | (Inl _, r') \<Rightarrow> ep\<lparr>ep_reg := r'\<rparr>)
      | RunReturns res \<Rightarrow> ep\<lparr>ep_reg := modified (own_key ep) (run_returns res) (ep_reg ep)\<rparr>
      | SiblingHealth k h \<Rightarrow>
          (if k = own_key ep then ep
           else ep\<lparr>ep_reg := modified k (\<lambda>a. a\<lparr>da_health := h\<rparr>) (ep_reg ep)\<rparr>))"

fun returning :: "EpisodeEvent \<Rightarrow> bool" where
  "returning (CheckFails now last_db) = (case last_db of Inr _ \<Rightarrow> True | Inl _ \<Rightarrow> False)"
| "returning (RunReturns res) = (res = Inr ())"
| "returning (SiblingHealth k h) = True"

definition ep_starts :: "Episode \<Rightarrow> nat" where
  "ep_starts ep = starts (own_key ep) (ep_reg ep)"

definition ep_level :: "Episode \<Rightarrow> nat" where
  "ep_level ep = lvl (ep_svc ep)"

definition ep_pending :: "Episode \<Rightarrow> nat" where
  "ep_pending ep = pend (own_key ep) (ep_reg ep)"

definition ep_inv :: "SvcKind \<Rightarrow> Episode \<Rightarrow> bool" where
  "ep_inv kind ep \<longleftrightarrow> si_kind (se_info (ep_svc ep)) = kind \<and> get_action (own_key ep) (ep_reg ep) \<noteq> None
     \<and> ep_level ep + ep_pending ep \<le> 2"

text \<open>
  The events at which a started run may be lost without being counted: it ends in an error, or, for
  the supervisor, the check that would count it cannot look up the database backup.
\<close>

fun run_lost :: "SvcKind \<Rightarrow> EpisodeEvent \<Rightarrow> bool" where
  "run_lost kind (CheckFails now last_db) = (kind \<noteq> Nginx \<and> isl last_db)"
| "run_lost kind (RunReturns res) = isl res"
| "run_lost kind (SiblingHealth k h) = False"

text \<open>Everything the invariant and the progress law need of a step.\<close>

definition ep_ok :: "nat \<Rightarrow> SvcKind \<Rightarrow> Episode \<Rightarrow> Episode \<Rightarrow> bool" where
  "ep_ok lost kind ep ep' \<longleftrightarrow> ep_inv kind ep'
     \<and> ep_starts ep' + (ep_level ep + ep_pending ep) \<le> ep_starts ep + lost + (ep_level ep' + ep_pending ep')"

lemma ep_ok_same:
  assumes "ep_inv kind ep" "se_info (ep_svc ep') = se_info (ep_svc ep)" "ep_level ep' = ep_level ep"
    "get_action (own_key ep) (ep_reg ep') \<noteq> None"
    "pend (own_key ep) (ep_reg ep') \<le> pend (own_key ep) (ep_reg ep)"
    "pend (own_key ep) (ep_reg ep) \<le> pend (own_key ep) (ep_reg ep') + lost"
    "starts (own_key ep) (ep_reg ep') = starts (own_key ep) (ep_reg ep)"
  shows "ep_ok lost kind ep ep'"
  using assms by (simp add: ep_ok_def ep_inv_def ep_pending_def ep_starts_def own_key_def)

lemma climbs_ep_ok:
  assumes inv: "ep_inv kind ep" and c: "climbs lost (own_key ep) svc r svc' r'"
    and svc: "se_info svc = se_info (ep_svc ep)" "lvl svc = lvl (ep_svc ep)"
    and r: "pend (own_key ep) r = pend (own_key ep) (ep_reg ep)" "starts (own_key ep) r = starts (own_key ep) (ep_reg ep)"
    and new: "se_info (ep_svc ep') = se_info svc'" "lvl (ep_svc ep') = lvl svc'" "ep_reg ep' = r'"
  shows "ep_ok lost kind ep ep'"
  using assms
  by (simp add: ep_ok_def ep_inv_def climbs_def ep_pending_def ep_starts_def ep_level_def own_key_def)

definition failed_entry :: "u64 \<Rightarrow> SvcEntry \<Rightarrow> SvcEntry" where
  "failed_entry now svc = svc\<lparr>se_status := count_failure now (se_status svc)\<rparr>"

lemma failed_entry_facts [simp]:
  "se_info (failed_entry now svc) = se_info svc" "lvl (failed_entry now svc) = lvl svc"
  "health (se_status (failed_entry now svc)) = Sick"
  by (simp_all add: failed_entry_def lvl_def count_failure_def Let_def)

lemma handle_err_run:
  "handle_response now last_db True threshold (Inl svc) r =
     (let r1 = modified (svc_task (se_info svc)) (\<lambda>a. a\<lparr>da_health := Sick\<rparr>) r in
      if failed_count (se_status (failed_entry now svc)) \<ge> threshold
      then escalate last_db (failed_entry now svc) r1 else (Inr (failed_entry now svc), r1))"
  by (simp add: handle_response_def handle_err_def failed_entry_def Let_def via_def modify_action_run pure_def)

lemma job_of_health: "(\<And>a. da_fix_action (f a) = da_fix_action a) \<Longrightarrow> job_of j (modified k f r) = job_of j r"
  by (auto simp: job_of_def split: option.split)

lemma starts_modified [simp]: "starts j (modified k f r) = starts j r"
  by (simp add: starts_def)

lemma check_fails_ok:
  assumes inv: "ep_inv kind ep"
    and esc: "\<And>svc r a. si_kind (se_info svc) = kind \<Longrightarrow> health (se_status svc) = Sick \<Longrightarrow>
      get_action (svc_task (se_info svc)) r = Some a \<Longrightarrow> lvl svc + pend (svc_task (se_info svc)) r \<le> 2 \<Longrightarrow>
      \<exists>res r'. escalate last_db svc r = (res, r') \<and> climbs lost (svc_task (se_info svc)) svc r (kept svc res) r'"
  shows "ep_ok lost kind ep (episode_step threshold ep (CheckFails now last_db))"
proof -
  let ?k = "own_key ep" and ?svc = "failed_entry now (ep_svc ep)"
  let ?r = "modified ?k (\<lambda>a. a\<lparr>da_health := Sick\<rparr>) (ep_reg ep)"
  have k: "svc_task (se_info (ep_svc ep)) = ?k" by (simp add: own_key_def)
  have job: "job_of ?k ?r = job_of ?k (ep_reg ep)" by (rule job_of_health) simp
  then have pend: "pend ?k ?r = pend ?k (ep_reg ep)" by (simp add: pend_def)
  obtain a where a: "get_action ?k ?r = Some a" using inv by (auto simp: ep_inv_def)
  show ?thesis
  proof (cases "failed_count (se_status ?svc) \<ge> threshold")
    case False
    then have "episode_step threshold ep (CheckFails now last_db) = \<lparr>ep_svc = ?svc, ep_reg = ?r\<rparr>"
      by (simp add: episode_step_def handle_err_run k Let_def)
    then show ?thesis
      using inv a pend by (intro ep_ok_same [OF inv]) (simp_all add: ep_level_def ep_inv_def)
  next
    case True
    obtain res r' where e: "escalate last_db ?svc ?r = (res, r')" "climbs lost ?k ?svc ?r (kept ?svc res) r'"
      using esc [of ?svc ?r a] a pend inv by (auto simp: k ep_inv_def ep_level_def ep_pending_def)
    have "episode_step threshold ep (CheckFails now last_db)
        = (case res of Inl _ \<Rightarrow> ep\<lparr>ep_reg := r'\<rparr> | Inr svc' \<Rightarrow> \<lparr>ep_svc = svc', ep_reg = r'\<rparr>)"
      using True e(1) by (cases res) (simp_all add: episode_step_def handle_err_run k Let_def)
    then show ?thesis
      by (intro climbs_ep_ok [OF inv e(2)]) (cases res; simp add: pend kept_def)+
  qed
qed

lemma run_returns_pend:
  assumes "get_action k r = Some a"
  shows "pend k (modified k (run_returns res) r) \<le> pend k r"
    "pend k r \<le> pend k (modified k (run_returns res) r) + (if isl res then 1 else 0)"
  using assms
  by (auto simp: pend_def job_of_def run_returns_def isl_def split: option.splits FixJob.splits sum.splits)

lemma other_events_ok:
  assumes inv: "ep_inv kind ep" and ev: "\<nexists>now db. ev = CheckFails now db"
  shows "ep_ok (if run_lost kind ev then 1 else 0) kind ep (episode_step threshold ep ev)"
proof (cases ev)
  case (RunReturns res)
  obtain a where a: "get_action (own_key ep) (ep_reg ep) = Some a" using inv by (auto simp: ep_inv_def)
  note p = run_returns_pend [OF a, of res]
  show ?thesis
    using inv a p
    by (intro ep_ok_same [OF inv]) (auto simp: RunReturns episode_step_def ep_level_def ep_inv_def)
next
  case (SiblingHealth k h)
  let ?r = "modified k (\<lambda>a. a\<lparr>da_health := h\<rparr>) (ep_reg ep)"
  have job: "job_of (own_key ep) ?r = job_of (own_key ep) (ep_reg ep)" by (rule job_of_health) simp
  show ?thesis
    using inv job
    by (intro ep_ok_same [OF inv]) (auto simp: SiblingHealth episode_step_def ep_level_def ep_inv_def pend_def)
qed (use ev in blast)

lemma escalate_climbs:
  assumes kind: "si_kind (se_info svc) = kind" "kind = Nginx \<or> kind = super_xray"
    and sick: "health (se_status svc) = Sick"
    and a: "get_action (svc_task (se_info svc)) r = Some a" "lvl svc + pend (svc_task (se_info svc)) r \<le> 2"
  shows "\<exists>res r'. escalate last_db svc r = (res, r')
    \<and> climbs (if run_lost kind (CheckFails now last_db) then 1 else 0) (svc_task (se_info svc)) svc r (kept svc res) r'"
proof (cases "kind = Nginx")
  case True
  obtain res r' where run: "nginx_actions svc r = (res, r')"
    "climbs 0 (svc_task (se_info svc)) svc r (kept svc (map_sum id fst res)) r'"
    using nginx_climbs [OF refl a] by blast
  have "escalate last_db svc r = (map_sum id fst res, r')"
    using run(1) kind(1) True by (cases res) (auto simp: escalate_def via_def pure_def)
  with run(2) True show ?thesis by auto
next
  case False
  then have x: "si_kind (se_info svc) = Xray super_name" using kind by (simp add: super_xray_def)
  then have key: "svc_task (se_info svc) = XrayMonitor (svc_key (se_info svc))" by (simp add: svc_task_def)
  obtain res r' where run: "super_sick_actions last_db svc r = (res, r')"
    "climbs (if isl last_db then 1 else 0) (svc_task (se_info svc)) svc r (kept svc (map_sum id fst res)) r'"
    using super_climbs [OF key a] by blast
  have "escalate last_db svc r = (map_sum id fst res, r')"
    using run(1) x sick by (cases res) (auto simp: escalate_def super_xray_actions_def via_def pure_def)
  with run(2) False show ?thesis by auto
qed

lemma episode_step_ok:
  assumes "ep_inv kind ep" "kind = Nginx \<or> kind = super_xray"
  shows "ep_ok (if run_lost kind ev then 1 else 0) kind ep (episode_step threshold ep ev)"
proof (cases "\<exists>now db. ev = CheckFails now db")
  case True
  then obtain now db where ev: "ev = CheckFails now db" by blast
  show ?thesis
    unfolding ev by (rule check_fails_ok [OF assms(1)]) (rule escalate_climbs [OF _ assms(2)])
qed (use assms(1) other_events_ok in blast)

lemma ladder_laws:
  assumes "kind = Nginx \<or> kind = super_xray"
  shows "fix_ladder (episode_step threshold) (ep_inv kind) (\<lambda>_. True) ep_level ep_pending ep_starts (run_lost kind)"
  using episode_step_ok [OF _ assms]
  by unfold_locales (auto simp: ep_ok_def ep_inv_def)

interpretation nginx_ladder: fix_ladder "episode_step threshold" "ep_inv Nginx" "\<lambda>_. True" ep_level ep_pending
    ep_starts "run_lost Nginx"
  for threshold
  by (rule ladder_laws) simp

interpretation xray_ladder: fix_ladder "episode_step threshold" "ep_inv super_xray" "\<lambda>_. True" ep_level ep_pending
    ep_starts "run_lost super_xray"
  for threshold
  by (rule ladder_laws) simp

section \<open>Properties of corrective actions\<close>

lemma all_allowed: "list_all (\<lambda>_. True) es"
  by (simp add: list_all_iff)

text \<open>
  C21. However long Nginx keeps failing, the level of its fixes never exceeds two, and at most two
  corrective runs are started for it, plus one for every run that ended in an error (such a run is never
  counted, so the bound is two as long as every run returns an output): over any sequence of failed
  checks, of ends of runs, in success or in an error, and of changes of the other services.
\<close>

theorem nginx_fixes_bounded:
  assumes "ep_inv Nginx ep"
  shows "ep_starts (foldl (episode_step threshold) ep es)
      \<le> ep_starts ep + 2 + length (filter (\<lambda>ev. \<exists>e. ev = RunReturns (Inl e)) es)
    \<and> ep_level (foldl (episode_step threshold) ep es) \<le> 2"
proof -
  have "run_lost Nginx ev = (\<exists>e. ev = RunReturns (Inl e))" for ev
    by (cases ev) (auto simp: isl_def)
  then have "filter (run_lost Nginx) es = filter (\<lambda>ev. \<exists>e. ev = RunReturns (Inl e)) es"
    by (intro filter_cong) simp_all
  with nginx_ladder.starts_bounded [OF assms all_allowed, of threshold es]
    nginx_ladder.top [OF nginx_ladder.run_inv [OF assms all_allowed], of threshold es]
  show ?thesis by simp
qed

text \<open>
  C22. The same for the Xray supervisor: its level never exceeds two, and at most two runs (a
  restart and a restoration of the database) are started in one failure episode, also when a level is
  skipped because no backup exists, plus one for every run that ended in an error and for every check
  that could not look up the database backup; the bound is two as long as neither happens.
\<close>

theorem xray_fixes_bounded:
  assumes "ep_inv super_xray ep"
  shows "ep_starts (foldl (episode_step threshold) ep es)
      \<le> ep_starts ep + 2
        + length (filter (\<lambda>ev. (\<exists>e. ev = RunReturns (Inl e)) \<or> (\<exists>now e. ev = CheckFails now (Inl e))) es)
    \<and> ep_level (foldl (episode_step threshold) ep es) \<le> 2"
proof -
  have "run_lost super_xray ev = ((\<exists>e. ev = RunReturns (Inl e)) \<or> (\<exists>now e. ev = CheckFails now (Inl e)))" for ev
    by (cases ev) (auto simp: isl_def super_xray_def)
  then have "filter (run_lost super_xray) es
      = filter (\<lambda>ev. (\<exists>e. ev = RunReturns (Inl e)) \<or> (\<exists>now e. ev = CheckFails now (Inl e))) es"
    by (intro filter_cong) simp_all
  with xray_ladder.starts_bounded [OF assms all_allowed, of threshold es]
    xray_ladder.top [OF xray_ladder.run_inv [OF assms all_allowed], of threshold es]
  show ?thesis by simp
qed

lemma sibling_modified:
  "\<not> sibling_key info sib k \<Longrightarrow>
     sibling_health_check info (action_map (modified k f r)) sib = sibling_health_check info (action_map r) sib"
proof -
  assume k: "\<not> sibling_key info sib k"
  have "find (\<lambda>(k', a). sibling_key info sib k') (map (\<lambda>(k', a). (k', if k' = k then f a else a)) xs)
      = find (\<lambda>(k', a). sibling_key info sib k') xs" for xs
    using k by (induction xs) auto
  then show ?thesis by (simp add: sibling_health_check_def modified_def)
qed

lemma spawn_cases:
  assumes "escalate last_db svc r = (res, r')" "effects r' \<noteq> effects r"  "health (se_status svc) = Sick"
  shows "sibling_health_check (se_info svc) (action_map r) Ssh \<and> fix_try (se_status svc) < 2
    \<and> (si_kind (se_info svc) = Nginx
       \<or> si_kind (se_info svc) = super_xray \<and> sibling_health_check (se_info svc) (action_map r) Nginx)"
proof (cases "si_kind (se_info svc)")
  case Ssh
  then show ?thesis
    using assms by (auto simp: escalate_def ssh_escalation_def run_simps Let_def)
next
  case Nginx
  then show ?thesis
    using assms(1,2)
    by (auto simp: escalate_def nginx_actions_def via_def pure_def Let_def split: if_splits)
next
  case (Xray inb)
  show ?thesis
  proof (cases "inb = super_name")
    case True
    then show ?thesis
      using assms Xray
      by (auto simp: escalate_def super_xray_actions_def super_sick_actions_def super_xray_def via_def pure_def Let_def
          split: if_splits)
  next
    case False
    then show ?thesis
      using assms(1,2) Xray
      by (auto simp: escalate_def inbound_escalation_def run_simps Let_def split: sum.splits)
  qed
qed

text \<open>
  C23. A failed check starts a corrective run only when it may: automatic fixing is on, the
  failures reached the threshold, the levels are not used up, SSH to the same server is known to
  be healthy, and the service is Nginx, or the Xray supervisor with Nginx healthy as well.
\<close>

theorem fix_only_when_allowed:
  assumes "handle_response now last_db autofix threshold (Inl svc) r = (res, r')" "effects r' \<noteq> effects r"
  shows "autofix \<and> threshold \<le> failed_count (se_status svc) + 1 \<and> lvl svc < 2
    \<and> sibling_health_check (se_info svc) (action_map r) Ssh
    \<and> (si_kind (se_info svc) = Nginx
       \<or> si_kind (se_info svc) = super_xray \<and> sibling_health_check (se_info svc) (action_map r) Nginx)"
proof -
  let ?k = "svc_task (se_info svc)" and ?svc = "failed_entry now svc"
  let ?r = "modified ?k (\<lambda>a. a\<lparr>da_health := Sick\<rparr>) r"
  have run: "autofix \<and> threshold \<le> failed_count (se_status ?svc)" "escalate last_db ?svc ?r = (res, r')"
    using assms by (auto simp: handle_response_def handle_err_def failed_entry_def Let_def via_def modify_action_run
        pure_def split: if_splits)
  from spawn_cases [OF run(2)] assms(2)
  have sib: "sibling_health_check (se_info svc) (action_map ?r) Ssh \<and> fix_try (se_status ?svc) < 2
    \<and> (si_kind (se_info svc) = Nginx
       \<or> si_kind (se_info svc) = super_xray \<and> sibling_health_check (se_info svc) (action_map ?r) Nginx)" by simp
  then have "\<not> sibling_key (se_info svc) Ssh ?k"
    "si_kind (se_info svc) = super_xray \<Longrightarrow> \<not> sibling_key (se_info svc) Nginx ?k"
    by (auto simp: sibling_key_def svc_task_def super_xray_def)
  moreover have "lvl svc < 2"
    using sib lvl_below [of ?svc] by auto
  moreover have "failed_count (se_status ?svc) = failed_count (se_status svc) + 1"
    by (simp add: failed_entry_def count_failure_def Let_def)
  ultimately show ?thesis using sib run(1) by (auto simp: sibling_modified)
qed

text \<open>
  A corrective run that ends in an error is not counted: from any state of Nginx with no
  pending run and an unused level, a failed check starts a run, its error result makes the next
  check fail before the level is stored, and the service is back at the same level with no
  pending run and one more run started. The cycle repeats without bound.
\<close>

lemma failed_run_not_counted:
  assumes inv: "ep_inv Nginx ep" "job_of (own_key ep) (ep_reg ep) = None" "ep_level ep < 2"
    and ssh: "sibling_health_check (se_info (ep_svc ep)) (action_map (ep_reg ep)) Ssh"
  shows "let ep' = foldl (episode_step 0) ep [CheckFails t1 db, RunReturns (Inl e), CheckFails t2 db'] in
    ep_level ep' = ep_level ep \<and> ep_pending ep' = 0 \<and> ep_starts ep' = ep_starts ep + 1"
proof -
  let ?k = "own_key ep" and ?svc = "failed_entry t1 (ep_svc ep)"
  let ?sick = "\<lambda>r. modified ?k (\<lambda>a. a\<lparr>da_health := Sick\<rparr>) r"
  let ?take = "modified ?k (\<lambda>a. a\<lparr>da_fix_action := None\<rparr>)"
  have k: "svc_task (se_info (ep_svc ep)) = ?k" and kind: "si_kind (se_info (ep_svc ep)) = Nginx"
    using inv(1) by (simp_all add: own_key_def ep_inv_def)
  have other: "\<not> sibling_key (se_info (ep_svc ep)) Ssh ?k"
    by (simp add: own_key_def svc_task_def kind sibling_key_def)
  have low: "fix_try (se_status ?svc) < 2"
    using inv(3) by (simp add: ep_level_def lvl_def word_less_nat_alt failed_entry_def count_failure_def Let_def)
  from inv(1) obtain a where a: "get_action ?k (ep_reg ep) = Some a" by (auto simp: ep_inv_def)
  with inv(2) have none: "da_fix_action a = None" by (simp add: job_of_get)
  obtain c where c: "nginx_choice (fix_try (se_status ?svc)) = Some c" using nginx_choice_None [OF low] by auto
  define r1 where "r1 = store_fix ?k (Some c) (nginx_store ?svc) (?sick (ep_reg ep))"
  define r2 where "r2 = modified ?k (run_returns (Inl e)) r1"
  have a1: "get_action ?k (?sick (ep_reg ep)) = Some (a\<lparr>da_health := Sick\<rparr>)" using a by simp
  have "nginx_actions ?svc (?sick (ep_reg ep)) = (Inr (?svc, Some c), r1)"
    using nginx_actions_run [of ?k ?svc "?sick (ep_reg ep)", OF _ a1] ssh other low none
    by (simp add: k sibling_modified c r1_def)
  then have step1: "episode_step 0 ep (CheckFails t1 db) = \<lparr>ep_svc = ?svc, ep_reg = r1\<rparr>"
    by (simp add: episode_step_def handle_err_run k escalate_def kind via_def pure_def Let_def)
  have own: "own_key \<lparr>ep_svc = ?svc, ep_reg = r\<rparr> = ?k" for r by (simp add: own_key_def)
  have step2: "episode_step 0 \<lparr>ep_svc = ?svc, ep_reg = r1\<rparr> (RunReturns (Inl e)) = \<lparr>ep_svc = ?svc, ep_reg = r2\<rparr>"
    by (simp add: episode_step_def own r2_def)
  note sf = store_fix_facts [OF a1, of "nginx_store ?svc" "Some c", folded r1_def]
  from sf obtain a2 where a2: "get_action ?k r1 = Some a2" "da_fix_action a2 = Some (Running c)"
    by (auto simp: job_of_def nginx_store_def split: option.splits)
  let ?a3 = "(run_returns (Inl e) a2)\<lparr>da_health := Sick\<rparr>"
  have a3: "get_action ?k (?sick r2) = Some ?a3" "da_fix_action ?a3 = Some (Done c (Inl e))"
    using a2 by (simp_all add: r2_def run_returns_def)
  have "sibling_health_check (se_info (ep_svc ep)) (action_map (?sick r2)) Ssh"
    using ssh other by (simp add: sibling_modified r2_def r1_def store_fix_def)
  moreover have "fix_try (se_status (failed_entry t2 ?svc)) < 2"
    using low by (simp add: failed_entry_def count_failure_def Let_def)
  ultimately have "nginx_actions (failed_entry t2 ?svc) (?sick r2) = (Inl e, ?take (?sick r2))"
    using nginx_actions_run [of ?k "failed_entry t2 ?svc" "?sick r2", OF _ a3(1)] a3(2) by (simp add: k)
  then have step3: "episode_step 0 \<lparr>ep_svc = ?svc, ep_reg = r2\<rparr> (CheckFails t2 db')
      = \<lparr>ep_svc = ?svc, ep_reg = ?take (?sick r2)\<rparr>"
    by (simp add: episode_step_def handle_err_run k escalate_def kind via_def pure_def Let_def)
  have "starts ?k r1 = starts ?k (ep_reg ep) + 1"
    using sf(3) by (simp add: nginx_store_def)
  then have "starts ?k (?take (?sick r2)) = starts ?k (ep_reg ep) + 1" by (simp add: r2_def)
  moreover have "job_of ?k (?take (?sick r2)) = None" by (auto simp: job_of_def split: option.split)
  moreover have "foldl (episode_step 0) ep [CheckFails t1 db, RunReturns (Inl e), CheckFails t2 db']
      = \<lparr>ep_svc = ?svc, ep_reg = ?take (?sick r2)\<rparr>" by (simp add: step1 step2 step3)
  ultimately show ?thesis
    by (simp add: Let_def ep_level_def ep_pending_def ep_starts_def own pend_def)
qed

section \<open>Concrete episodes\<close>

definition demo_info :: "SvcKind \<Rightarrow> SvcInfo" where
  "demo_info kind = \<lparr>si_server = demo_server ''one'' 1 ''one.org'' Production, si_port = 443, si_kind = kind, si_link = None\<rparr>"

definition demo_entry :: "SvcKind \<Rightarrow> SvcEntry" where
  "demo_entry kind = \<lparr>se_info = demo_info kind,
     se_status = \<lparr>health = HOk, failed_count = 0, failed_since = 0, fix_try = 0\<rparr>\<rparr>"

definition demo_registry :: Registry where
  "demo_registry = \<lparr>action_map = [(svc_task (demo_info Ssh), default_action\<lparr>da_health := HOk\<rparr>),
      (svc_task (demo_info Nginx), default_action\<lparr>da_health := HOk\<rparr>),
      (svc_task (demo_info super_xray), default_action\<lparr>da_health := HOk\<rparr>)], effects = []\<rparr>"

definition demo_episode :: "SvcKind \<Rightarrow> Episode" where
  "demo_episode kind = \<lparr>ep_svc = demo_entry kind, ep_reg = demo_registry\<rparr>"

lemmas demo_mon_defs = demo_info_def demo_entry_def demo_registry_def demo_episode_def default_action_def
  svc_task_def svc_key_def super_xray_def super_name_def demo_server_def

lemma demo_episode_inv: "ep_inv Nginx (demo_episode Nginx)" "ep_inv super_xray (demo_episode super_xray)"
  by (simp_all add: ep_inv_def own_key_def get_action_def job_of_def ep_level_def ep_pending_def
      lvl_def pend_def demo_mon_defs)

definition demo_events :: "EpisodeEvent list" where
  "demo_events = concat (replicate 3 [CheckFails 5 (Inr True), RunReturns (Inr ()), CheckFails 6 (Inr True)])"

lemma demo_start: "ep_starts (demo_episode k) = 0"
  by (simp add: ep_starts_def starts_def demo_mon_defs)

lemma demo_none_lost:
  "filter (\<lambda>ev. (\<exists>e. ev = RunReturns (Inl e)) \<or> (\<exists>now e. ev = CheckFails now (Inl e))) demo_events = []"
  "filter (\<lambda>ev. \<exists>e. ev = RunReturns (Inl e)) demo_events = []"
  by (simp_all add: demo_events_def numeral_3_eq_3)

theorem nginx_fixes_bounded_witness:
  "ep_starts (foldl (episode_step 1) (demo_episode Nginx) demo_events) \<le> 2"
  using nginx_fixes_bounded [OF demo_episode_inv(1), of 1 demo_events] by (simp add: demo_start demo_none_lost)

theorem xray_fixes_bounded_witness:
  "ep_starts (foldl (episode_step 1) (demo_episode super_xray) demo_events) \<le> 2"
  using xray_fixes_bounded [OF demo_episode_inv(2), of 1 demo_events] by (simp add: demo_start demo_none_lost)

theorem failed_run_not_counted_witness:
  "let ep = foldl (episode_step 0) (demo_episode Nginx)
     [CheckFails 1 (Inr True), RunReturns (Inl (External ''ansible'')), CheckFails 2 (Inr True)]
   in ep_level ep = 0 \<and> ep_starts ep = 1"
proof -
  have "job_of (own_key (demo_episode Nginx)) (ep_reg (demo_episode Nginx)) = None" "ep_level (demo_episode Nginx) = 0" "ep_starts (demo_episode Nginx) = 0"
    "sibling_health_check (se_info (ep_svc (demo_episode Nginx))) (action_map (ep_reg (demo_episode Nginx))) Ssh"
    by (simp_all add: ep_pending_def ep_level_def ep_starts_def starts_def pend_def lvl_def job_of_def get_action_def
        own_key_def sibling_health_check_def sibling_key_def demo_mon_defs)
  with failed_run_not_counted [OF demo_episode_inv(1), of 1 "Inr True" "External ''ansible''" 2 "Inr True"]
  show ?thesis by (simp add: Let_def)
qed

theorem fix_only_when_allowed_witness:
  "\<exists>res r'. handle_response 7 (Inr True) True 1 (Inl (demo_entry super_xray)) demo_registry = (res, r')
     \<and> effects r' = [SpawnFix (svc_task (demo_info super_xray)) XrayRestart]
     \<and> sibling_health_check (demo_info super_xray) (action_map demo_registry) Nginx"
proof -
  obtain res r' where run: "handle_response 7 (Inr True) True 1 (Inl (demo_entry super_xray)) demo_registry = (res, r')"
    "effects r' = [SpawnFix (svc_task (demo_info super_xray)) XrayRestart]"
    by (simp add: handle_response_def handle_err_def escalate_def super_xray_actions_def super_sick_actions_def
        count_failure_def via_def pure_def modify_action_def fetch_action_def get_action_def spawn_fix_def emit_def
        jh_state_def xray_choice_def sibling_health_check_def sibling_key_def Let_def demo_mon_defs)
  moreover have "effects r' \<noteq> effects demo_registry" using run(2) by (simp add: demo_registry_def)
  from fix_only_when_allowed [OF run(1) this] have
    "sibling_health_check (demo_info super_xray) (action_map demo_registry) Nginx"
    by (simp add: demo_entry_def demo_info_def super_xray_def)
  ultimately show ?thesis by blast
qed

section \<open>Across episodes\<close>

text \<open>A sequence of outcomes of checks and of returning runs for one service.\<close>

datatype Outcome = Healthy | Failed | Returned

definition outcome_step :: "u64 \<Rightarrow> Episode \<Rightarrow> Outcome \<Rightarrow> Episode" where
  "outcome_step threshold ep out =
     (case out of
        Failed \<Rightarrow> episode_step threshold ep (CheckFails 1 (Inr True))
      | Returned \<Rightarrow> episode_step threshold ep (RunReturns (Inr ()))
      | Healthy \<Rightarrow>
          (case handle_response 1 (Inr True) True threshold (Inr (ep_svc ep)) (ep_reg ep) of
             (Inr svc', r') \<Rightarrow> \<lparr>ep_svc = svc', ep_reg = r'\<rparr>
           | (Inl _, r') \<Rightarrow> ep\<lparr>ep_reg := r'\<rparr>))"

lemmas outcome_eval = outcome_step_def episode_step_def handle_response_def handle_err_def handle_ok_def escalate_def
  super_xray_actions_def super_sick_actions_def count_failure_def reset_status_def via_def pure_def modify_action_def
  fetch_action_def get_action_def spawn_fix_def emit_def take_finished_def with_fix_try_def modified_def run_returns_def
  own_key_def jh_state_def xray_choice_def sibling_health_check_def sibling_key_def Let_def demo_mon_defs

text \<open>
  A recovered Xray supervisor keeps the handle of its last corrective run: when the service
  fails, is restarted successfully, recovers and later fails again, the second episode counts the
  old restart as a failed attempt of its own and begins with restoring the database. Only one
  restart is ever started.
\<close>

lemma stale_handle_skips_restart:
  "effects (ep_reg (foldl (outcome_step 1) (demo_episode super_xray) [Failed, Returned, Healthy, Failed, Failed])) =
     [SpawnFix (svc_task (demo_info super_xray)) XrayRestart, SpawnBackup ''one'',
      SpawnFix (svc_task (demo_info super_xray)) XrayRestoreDB]"
  by (simp add: outcome_eval)

text \<open>
  Nginx starts every episode afresh: after a healthy check no run is pending and the level is
  zero, so the first corrective run of the next episode is a restart.
\<close>

lemma healthy_clears_nginx:
  assumes "si_kind (se_info svc) = Nginx" "handle_response now last_db autofix threshold (Inr svc) r = (Inr svc', r')"
    and "fix_try (se_status svc) = 0 \<or> failed_count (se_status svc) > 0 \<or> health (se_status svc) \<noteq> HOk"
  shows "lvl svc' = 0 \<and> job_of (svc_task (se_info svc)) r' = None \<and> health (se_status svc') = HOk
    \<and> failed_since (se_status svc') = failed_since (se_status svc)"
  using assms
  by (auto simp: handle_response_def handle_ok_def run_simps super_xray_def reset_status_def lvl_def job_of_def
      Let_def split: option.splits if_splits)

theorem healthy_clears_nginx_witness:
  "\<exists>svc' r'. handle_response 1 (Inr True) True 1
      (Inr (failed_entry 1 (demo_entry Nginx))) demo_registry = (Inr svc', r') \<and> lvl svc' = 0"
proof -
  let ?svc = "failed_entry 1 (demo_entry Nginx)"
  obtain svc' r' where run: "handle_response 1 (Inr True) True 1 (Inr ?svc) demo_registry = (Inr svc', r')"
    by (simp add: handle_response_def handle_ok_def run_simps failed_entry_def demo_entry_def demo_info_def
        super_xray_def Let_def)
  have "si_kind (se_info ?svc) = Nginx"
    "fix_try (se_status ?svc) = 0 \<or> failed_count (se_status ?svc) > 0 \<or> health (se_status ?svc) \<noteq> HOk"
    by (simp_all add: demo_entry_def demo_info_def)
  from healthy_clears_nginx [OF this(1) run this(2)] run show ?thesis by blast
qed

section \<open>The level shared with the inbounds\<close>

text \<open>The level of the supervisor that its inbounds read from the registry.\<close>

definition shared_level :: "Episode \<Rightarrow> nat" where
  "shared_level ep = (case get_action (own_key ep) (ep_reg ep) of None \<Rightarrow> 0 | Some a \<Rightarrow> unat (da_fix_try a))"

definition shared_inv :: "Episode \<Rightarrow> bool" where
  "shared_inv ep \<longleftrightarrow> ep_inv super_xray ep \<and> shared_level ep \<le> 1"

lemma super_sick_shared:
  assumes key: "k = XrayMonitor (svc_key (se_info svc))" and a: "get_action k r = Some a" "unat (da_fix_try a) \<le> 1"
    and run: "super_sick_actions (Inr b) svc r = (res, r')"
  shows "\<exists>a'. get_action k r' = Some a' \<and> unat (da_fix_try a') \<le> 1"
proof (cases "sibling_health_check (se_info svc) (action_map r) Ssh
    \<and> sibling_health_check (se_info svc) (action_map r) Nginx \<and> fix_try (se_status svc) < 2")
  case False
  then have "r' = r" using run by (auto simp: super_sick_actions_def pure_def Let_def split: if_splits)
  then show ?thesis using a by simp
next
  case True
  then have low: "fix_try (se_status svc) < 2" by blast
  have "unat (fix_try (se_status svc)) \<le> 1" using lvl_below [OF low] by (simp add: lvl_def)
  then have store: "\<exists>a'. get_action k (store_fix k choice (super_store svc) r) = Some a' \<and> unat (da_fix_try a') \<le> 1" for choice
    using a by (cases choice) (simp_all add: store_fix_def super_store_def)
  note eq = super_sick_run [OF key a(1) True [THEN conjunct1] True [THEN conjunct2, THEN conjunct1] low, of b]
  from run eq store a show ?thesis
    by (cases "da_fix_action a" rule: fix_job_cases) auto
qed

lemma shared_step:
  assumes inv: "shared_inv ep" and ev: "returning ev"
  shows "shared_inv (episode_step threshold ep ev)"
proof -
  have ok: "ep_inv super_xray (episode_step threshold ep ev)"
    using episode_step_ok [of super_xray ep ev threshold] inv ev by (simp add: shared_inv_def ep_ok_def)
  let ?k = "own_key ep"
  from inv obtain a where a: "get_action ?k (ep_reg ep) = Some a" "unat (da_fix_try a) \<le> 1"
    by (auto simp: shared_inv_def ep_inv_def shared_level_def)
  have kind: "si_kind (se_info (ep_svc ep)) = Xray super_name" using inv by (simp add: shared_inv_def ep_inv_def super_xray_def)
  then have k: "?k = XrayMonitor (svc_key (se_info (ep_svc ep)))" by (simp add: own_key_def svc_task_def)
  have "shared_level (episode_step threshold ep ev) \<le> 1"
  proof (cases ev)
    case (CheckFails now last_db)
    then obtain b where b: "last_db = Inr b" using ev by (auto split: sum.splits)
    let ?svc = "failed_entry now (ep_svc ep)" and ?r = "modified ?k (\<lambda>a. a\<lparr>da_health := Sick\<rparr>) (ep_reg ep)"
    have a1: "get_action ?k ?r = Some (a\<lparr>da_health := Sick\<rparr>)" using a by simp
    obtain res r' where run: "super_sick_actions (Inr b) ?svc ?r = (res, r')" by fastforce
    from super_sick_shared [OF _ a1 _ run] a(2) k obtain a' where
      a': "get_action ?k r' = Some a'" "unat (da_fix_try a') \<le> 1" by auto
    have info: "se_info svc' = se_info (ep_svc ep)" if "res = Inr (svc', c)" for svc' c
    proof -
      have "lvl ?svc + pend ?k ?r \<le> 2"
        using inv by (simp add: job_of_health pend_def shared_inv_def ep_inv_def ep_level_def ep_pending_def)
      from super_climbs_found [OF _ a1 this, of b] k run that show ?thesis by (auto simp: climbs_def kept_def)
    qed
    have own: "svc_task (se_info (ep_svc ep)) = ?k" by (simp add: own_key_def)
    have esc: "handle_response now (Inr b) True threshold (Inl (ep_svc ep)) (ep_reg ep)
      = (if failed_count (se_status ?svc) \<ge> threshold then (map_sum id fst res, r') else (Inr ?svc, ?r))"
      using run by (cases res) (auto simp: handle_err_run own escalate_def kind super_xray_actions_def via_def pure_def Let_def)
    have level: "shared_level \<lparr>ep_svc = t, ep_reg = q\<rparr> \<le> 1"
      if "se_info t = se_info (ep_svc ep)" "get_action ?k q = Some x" "unat (da_fix_try x) \<le> 1" for t q x
      using that by (simp add: shared_level_def own_key_def)
    have keep: "ep\<lparr>ep_reg := r'\<rparr> = \<lparr>ep_svc = ep_svc ep, ep_reg = r'\<rparr>" by simp
    have "get_action ?k ?r = Some (a\<lparr>da_health := Sick\<rparr>)" "unat (da_fix_try (a\<lparr>da_health := Sick\<rparr>)) \<le> 1"
      using a by simp_all
    note low = level [of ?svc, OF _ this]
    show ?thesis
    proof (cases "failed_count (se_status ?svc) \<ge> threshold")
      case False
      then show ?thesis using low by (simp add: CheckFails b episode_step_def esc)
    next
      case True
      show ?thesis
      proof (cases res)
        case (Inl e)
        then show ?thesis
          using True level [OF refl a'] by (simp add: CheckFails b episode_step_def esc keep)
      next
        case (Inr x)
        obtain svc' c where "x = (svc', c)" by fastforce
        then show ?thesis
          using True Inr level [OF info a'] by (simp add: CheckFails b episode_step_def esc)
      qed
    qed
  next
    case (RunReturns res)
    have "da_fix_try (run_returns res a) = da_fix_try a"
      by (auto simp: run_returns_def split: option.split FixJob.split)
    with a show ?thesis by (simp add: RunReturns episode_step_def shared_level_def own_key_def)
  next
    case (SiblingHealth k h)
    then show ?thesis using a by (simp add: episode_step_def shared_level_def own_key_def)
  qed
  with ok show ?thesis by (simp add: shared_inv_def)
qed

interpretation shared: step_system "episode_step threshold" shared_inv returning for threshold
  by unfold_locales (rule shared_step)

text \<open>
  The level that the Xray inbounds copy from the supervisor never reaches two: the supervisor
  stores its level only when it starts a run, so after its last attempt failed (its own level is
  two) the registry still shows at most one, and the inbounds of the server are never recorded
  with all attempts used up.
\<close>

lemma shared_level_stays_below_two:
  assumes "shared_inv ep" "list_all returning es"
  shows "shared_level (foldl (episode_step threshold) ep es) \<le> 1"
  using shared.run_inv [OF assms, of threshold] by (simp add: shared_inv_def)

theorem shared_level_stays_below_two_witness:
  "let ep = foldl (episode_step 1) (demo_episode super_xray) demo_events
   in shared_level ep \<le> 1 \<and> ep_level ep = 2"
proof -
  have "list_all returning demo_events" by (simp add: demo_events_def numeral_3_eq_3)
  moreover have "shared_inv (demo_episode super_xray)"
    using demo_episode_inv(2) by (simp add: shared_inv_def shared_level_def get_action_def own_key_def demo_mon_defs)
  ultimately have "shared_level (foldl (episode_step 1) (demo_episode super_xray) demo_events) \<le> 1"
    by (metis shared_level_stays_below_two)
  moreover have "ep_level (foldl (episode_step 1) (demo_episode super_xray) demo_events) = 2"
    by (simp add: demo_events_def numeral_3_eq_3 ep_level_def lvl_def outcome_eval)
  ultimately show ?thesis by (simp add: Let_def)
qed

end
