(* ===== verification/Monitor_Loop.thy ===== *)
theory Monitor_Loop
  imports Fix_Ladder
begin

text \<open>
  The monitoring task of one service, \<open>run_svc_monitor\<close> and \<open>apply_checker\<close> of
  \<^verbatim>\<open>src/cloud/service.rs\<close>, as steps.

  One step of the monitor is one arm of its \<open>select!\<close>, or the end of the checker task that runs
  beside it. An arm whose channel is empty or whose guard is false is not taken: the step leaves
  the state alone. The spawned checker works on the copy of the entry it was given; what it sends
  arrives in \<open>ml_mailbox\<close>, and its result in \<open>ml_joined\<close>. The aggregator receives while \<open>ml_aggr\<close> holds;
  after its end a send to it fails, which is an error of the checker, and ends the monitor itself when
  it happens in the answer to a command (\<open>ml_ended\<close>; the checker under way is then aborted).
\<close>

section \<open>The monitor of a service\<close>

datatype TaskResult = TaskOk | TaskErr | TaskPanic

datatype SvcComm = ResetFix | GetSummary

record SvcSummary =
  sum_service :: SvcKind
  sum_server :: string
  sum_health :: SvcHealth

record MonLoop =
  ml_entry :: SvcEntry
  ml_completed :: bool
  ml_running :: "SvcEntry list"
  ml_mailbox :: "SvcEntry list"
  ml_joined :: "TaskResult list"
  ml_reg :: Registry
  ml_sent :: "(nat \<times> SvcEntry) list"
  ml_replies :: "SvcSummary list"
  ml_aggr :: bool
  ml_ended :: bool

record MonConf =
  mc_ndata :: nat
  mc_auto_fix :: bool
  mc_threshold :: u64

text \<open>The outcome of \<open>check_service\<close>, or a panic inside the checker.\<close>

datatype CheckOutcome = CheckedOk | CheckedBad | CheckPanics

datatype LoopEvent = Tick | Recv | Command SvcComm | Join | CheckerEnds u64 "bool res" CheckOutcome | AggregatorEnds

definition start_monitor :: "SvcInfo \<Rightarrow> SvcStatus \<Rightarrow> Registry \<Rightarrow> MonLoop" where
  "start_monitor info st r =
     \<lparr>ml_entry = \<lparr>se_info = info, se_status = st\<rparr>, ml_completed = True, ml_running = [], ml_mailbox = [],
      ml_joined = [],
      ml_reg = modified (svc_task info) (\<lambda>_. \<lparr>da_health = health st, da_fix_try = fix_try st, da_fix_action = None\<rparr>) r,
      ml_sent = [], ml_replies = [], ml_aggr = True, ml_ended = False\<rparr>"

definition apply_checker :: "MonConf \<Rightarrow> u64 \<Rightarrow> bool res \<Rightarrow> bool \<Rightarrow> SvcEntry \<Rightarrow> MonLoop \<Rightarrow> MonLoop" where
  "apply_checker cf now last_db healthy entry st =
     (case handle_response now last_db (mc_auto_fix cf) (mc_threshold cf)
             (if healthy then Inr entry else Inl entry) (ml_reg st) of
        (Inr svc_entry, r) \<Rightarrow>
          if \<not> ml_aggr st then st\<lparr>ml_reg := r, ml_joined := ml_joined st @ [TaskErr]\<rparr>
          else st\<lparr>ml_reg := r, ml_sent := ml_sent st @ [(mc_ndata cf, svc_entry)],
             ml_mailbox := ml_mailbox st @ [svc_entry], ml_joined := ml_joined st @ [TaskOk]\<rparr>
      | (Inl _, r) \<Rightarrow> st\<lparr>ml_reg := r, ml_joined := ml_joined st @ [TaskErr]\<rparr>)"

definition handle_comm :: "MonConf \<Rightarrow> SvcComm \<Rightarrow> MonLoop \<Rightarrow> MonLoop" where
  "handle_comm cf cmd st =
     (case cmd of
        ResetFix \<Rightarrow>
          (let entry = with_fix_try (\<lambda>_. 0) (ml_entry st) in
           if \<not> ml_aggr st then st\<lparr>ml_entry := entry, ml_ended := True, ml_running := [], ml_joined := []\<rparr>
           else st\<lparr>ml_entry := entry, ml_sent := ml_sent st @ [(mc_ndata cf, entry)],
              ml_reg := modified (svc_task (se_info entry)) (\<lambda>_. \<lparr>da_health = health (se_status entry),
                da_fix_try = fix_try (se_status entry), da_fix_action = None\<rparr>) (ml_reg st)\<rparr>)
      | GetSummary \<Rightarrow>
          st\<lparr>ml_replies := ml_replies st @ [\<lparr>sum_service = si_kind (se_info (ml_entry st)),
               sum_server = srv_name (si_server (se_info (ml_entry st))),
               sum_health = health (se_status (ml_entry st))\<rparr>]\<rparr>)"

definition loop_step :: "MonConf \<Rightarrow> MonLoop \<Rightarrow> LoopEvent \<Rightarrow> MonLoop" where
  "loop_step cf st ev =
     (if ml_ended st then st else
      case ev of
        Tick \<Rightarrow> (if ml_completed st
          then st\<lparr>ml_completed := False, ml_running := ml_running st @ [ml_entry st]\<rparr> else st)
      | Recv \<Rightarrow> (case ml_mailbox st of [] \<Rightarrow> st | e # es \<Rightarrow> st\<lparr>ml_entry := e, ml_mailbox := es\<rparr>)
      | Command cmd \<Rightarrow> handle_comm cf cmd st
      | Join \<Rightarrow> (case ml_joined st of
            [] \<Rightarrow> st
          | TaskOk # rs \<Rightarrow> st\<lparr>ml_joined := rs, ml_completed := True\<rparr>
          | TaskErr # rs \<Rightarrow> st\<lparr>ml_joined := rs, ml_completed := True\<rparr>
          | TaskPanic # rs \<Rightarrow> st\<lparr>ml_joined := rs\<rparr>)
      | CheckerEnds now last_db out \<Rightarrow>
          (case ml_running st of [] \<Rightarrow> st | entry # es \<Rightarrow>
             let st' = st\<lparr>ml_running := es\<rparr> in
             (case out of
                CheckedOk \<Rightarrow> apply_checker cf now last_db True entry st'
              | CheckedBad \<Rightarrow> apply_checker cf now last_db False entry st'
              | CheckPanics \<Rightarrow> st'\<lparr>ml_joined := ml_joined st' @ [TaskPanic]\<rparr>))
      | AggregatorEnds \<Rightarrow> st\<lparr>ml_aggr := False\<rparr>)"

section \<open>Properties\<close>

text \<open>At most one check is under way, and none while the monitor waits for its next interval.\<close>

definition one_check :: "MonLoop \<Rightarrow> bool" where
  "one_check st \<longleftrightarrow> length (ml_running st) + length (ml_joined st) \<le> (if ml_completed st then 0 else 1)"

lemma apply_checker_frame:
  "ml_running (apply_checker cf now db ok e st) = ml_running st"
  "ml_completed (apply_checker cf now db ok e st) = ml_completed st"
  "length (ml_joined (apply_checker cf now db ok e st)) = Suc (length (ml_joined st))"
  "TaskPanic \<notin> set (ml_joined st) \<Longrightarrow> TaskPanic \<notin> set (ml_joined (apply_checker cf now db ok e st))"
  by (auto simp: apply_checker_def split: prod.splits sum.splits)

lemma one_check_live:
  assumes "one_check st" "\<not> ml_ended st"
  shows "one_check (loop_step cf st ev)"
proof (cases ev)
  case Tick
  then show ?thesis using assms by (cases "ml_completed st") (simp_all add: one_check_def loop_step_def)
next
  case Recv
  then show ?thesis using assms by (cases "ml_mailbox st") (simp_all add: one_check_def loop_step_def split: if_splits)
next
  case (Command cmd)
  then show ?thesis
    using assms by (cases cmd) (simp_all add: one_check_def loop_step_def handle_comm_def Let_def split: if_splits)
next
  case Join
  show ?thesis
  proof (cases "ml_joined st")
    case (Cons q qs)
    then show ?thesis
      using assms Join by (cases q) (simp_all add: one_check_def loop_step_def split: if_splits)
  qed (use assms Join in \<open>simp add: loop_step_def\<close>)
next
  case (CheckerEnds now db out)
  show ?thesis
  proof (cases "ml_running st")
    case (Cons e es)
    then show ?thesis
      using assms CheckerEnds
      by (cases out) (simp_all add: one_check_def loop_step_def apply_checker_frame Let_def split: if_splits)
  qed (use assms CheckerEnds in \<open>simp add: loop_step_def\<close>)
next
  case AggregatorEnds
  then show ?thesis using assms by (simp add: one_check_def loop_step_def)
qed

lemma one_check_step: "one_check st \<Longrightarrow> one_check (loop_step cf st ev)"
  by (cases "ml_ended st") (simp_all add: one_check_live, simp add: loop_step_def)

interpretation monitor_loop: step_system "loop_step cf" one_check "\<lambda>_. True" for cf
  by unfold_locales (rule one_check_step)

text \<open>
  C24. The monitor of a service never has two checks under way: over every interleaving of
  intervals, results, commands and finished or crashed checkers, at most one checker is running or
  waiting to be joined, and none is when the next interval may start one.
\<close>

theorem one_check_at_a_time:
  "one_check (foldl (loop_step cf) (start_monitor info st r) es)"
  by (rule monitor_loop.run_inv) (simp_all add: one_check_def start_monitor_def list_all_iff)

definition dead_monitor :: "MonLoop \<Rightarrow> bool" where
  "dead_monitor st \<longleftrightarrow> \<not> ml_completed st \<and> ml_running st = [] \<and> ml_joined st = []"

lemma dead_monitor_step: "dead_monitor st \<Longrightarrow> dead_monitor (loop_step cf st ev)"
  by (cases ev)
    (auto simp: dead_monitor_def loop_step_def handle_comm_def Let_def split: list.splits SvcComm.splits)

interpretation dead_monitor: step_system "loop_step cf" dead_monitor "\<lambda>_. True" for cf
  by unfold_locales (rule dead_monitor_step)

text \<open>
  A checker that panics stops the monitoring of its service for good: once the crash has been
  joined, no later interval, command or message ever starts another check.
\<close>

lemma crash_stops_monitoring:
  "ml_running (foldl (loop_step cf) (foldl (loop_step cf) (start_monitor info st r)
      [Tick, CheckerEnds now db CheckPanics, Join]) es) = []"
proof -
  have "dead_monitor (foldl (loop_step cf) (start_monitor info st r) [Tick, CheckerEnds now db CheckPanics, Join])"
    by (simp add: dead_monitor_def loop_step_def start_monitor_def Let_def)
  from dead_monitor.run_inv [OF this, of es cf] show ?thesis by (simp add: dead_monitor_def list_all_iff)
qed

definition frozen :: "SvcEntry \<Rightarrow> MonLoop \<Rightarrow> bool" where
  "frozen e st \<longleftrightarrow> \<not> ml_aggr st \<and> ml_mailbox st = [] \<and> (ml_ended st \<or> ml_entry st = e)"

lemma frozen_step: "frozen e st \<Longrightarrow> frozen e (loop_step cf st ev)"
  by (cases ev)
    (auto simp: frozen_def loop_step_def handle_comm_def apply_checker_def Let_def
      split: list.splits SvcComm.splits TaskResult.splits CheckOutcome.splits prod.splits sum.splits)

interpretation frozen: step_system "loop_step cf" "frozen e" "\<lambda>_. True" for cf e
  by unfold_locales (rule frozen_step)

text \<open>
  The end of the aggregator (a single failed write of statistics) freezes every monitor: no later check
  changes the entry of its service, so no failure is counted any more and every check starts again
  from the same status; a command that resets the attempts ends the monitor.
\<close>

lemma aggregator_end_freezes:
  assumes "ml_mailbox st = []"
  shows "ml_ended (foldl (loop_step cf) (loop_step cf st AggregatorEnds) es)
    \<or> ml_entry (foldl (loop_step cf) (loop_step cf st AggregatorEnds) es) = ml_entry st"
proof (cases "ml_ended st")
  case True
  have "ml_ended (foldl (loop_step cf) q es)" if "ml_ended q" for q
    using that by (induction es arbitrary: q) (simp_all add: loop_step_def)
  with True show ?thesis by (simp add: loop_step_def)
next
  case False
  then have "frozen (ml_entry st) (loop_step cf st AggregatorEnds)"
    using assms by (simp add: frozen_def loop_step_def)
  from frozen.run_inv [OF this, of es cf] show ?thesis by (simp add: frozen_def list_all_iff)
qed

text \<open>
  A command that resets the attempts while a check is under way is lost: the entry the checker
  sends back, computed from the copy it started with, overwrites the reset.
\<close>

lemma reset_during_check_is_lost:
  "let svc = with_fix_try (\<lambda>_. 2) (failed_entry 1 (demo_entry Nginx));
       st = foldl (loop_step \<lparr>mc_ndata = 1, mc_auto_fix = True, mc_threshold = 1\<rparr>)
              (start_monitor (se_info svc) (se_status svc) demo_registry)
              [Tick, Command ResetFix, CheckerEnds 2 (Inr True) CheckedBad, Recv]
   in fix_try (se_status (ml_entry st)) = 2"
  by (simp add: loop_step_def start_monitor_def handle_comm_def apply_checker_def handle_response_def handle_err_def
      escalate_def nginx_actions_def failed_entry_def count_failure_def with_fix_try_def modified_def via_def pure_def
      modify_action_def sibling_health_check_def sibling_key_def Let_def demo_mon_defs)

end
