(* ===== verification/Daemon.thy ===== *)
theory Daemon
  imports Reconcile_Merge Database_Props Monitor_Loop
begin

text \<open>
  The commands of the daemon: \<^verbatim>\<open>src/daemon.rs\<close>, the command processor of \<^verbatim>\<open>src/daemon/core.rs\<close>,
  \<open>expand_cloud\<close> of \<^verbatim>\<open>src/cloud.rs\<close> and \<open>daemon_command\<close> of \<^verbatim>\<open>src/cli.rs\<close>.

  The task map is an association list in the order its iterator visits; a handle tells whether its
  task has finished. A channel to a monitor is either open, and then the monitor answers with its
  summary, or closed because the monitor has ended. A spawned task is an entry of the task map.
  The panel's client list, the parsed configuration file, the result of the backup and the walks
  of hash tables are arguments.
\<close>

section \<open>Commands and replies\<close>

datatype CliComm =
    CliDaemon | CliCheck | CliRestore | CliRestart | CliShutdown | CliReload | CliRemap
  | CliRebase bool | CliStatus bool | CliResetFix | CliExpand "string option" | CliCreds bool
  | CliClients | CliDestroy string

datatype DaemonComm =
    DReload | DRemap | DRebase bool | DStatus bool | DShutdown | DRestart | DResetFix
  | DExpand "string option" | DCredentials bool | DClients | DSetupInquiry TaskEntry
  | DDestroy string | DUnknown

fun daemon_command :: "CliComm \<Rightarrow> DaemonComm" where
  "daemon_command CliRestart = DRestart"
| "daemon_command CliShutdown = DShutdown"
| "daemon_command (CliStatus full) = DStatus full"
| "daemon_command CliReload = DReload"
| "daemon_command CliRemap = DRemap"
| "daemon_command (CliRebase forced) = DRebase forced"
| "daemon_command CliResetFix = DResetFix"
| "daemon_command (CliExpand server) = DExpand server"
| "daemon_command (CliCreds show_all) = DCredentials show_all"
| "daemon_command CliClients = DClients"
| "daemon_command (CliDestroy server) = DDestroy server"
| "daemon_command CliDaemon = DUnknown"
| "daemon_command CliCheck = DUnknown"
| "daemon_command CliRestore = DUnknown"

fun comm_to_string :: "DaemonComm \<Rightarrow> string" where
  "comm_to_string DUnknown = ''Unknown''"
| "comm_to_string (DExpand (Some name)) = ''Expand on '' @ name"
| "comm_to_string (DExpand None) = ''Expand''"
| "comm_to_string (DRebase forced) = (if forced then ''Forced Rebase'' else ''Rebase'')"
| "comm_to_string DReload = ''Reload''"
| "comm_to_string DRemap = ''Remap''"
| "comm_to_string DResetFix = ''ResetFix''"
| "comm_to_string DRestart = ''Restart''"
| "comm_to_string DShutdown = ''Shutdown''"
| "comm_to_string (DStatus full) = (if full then ''Full Status'' else ''Status'')"
| "comm_to_string (DCredentials show_all) = (if show_all then ''Credentials-All'' else ''Credentials'')"
| "comm_to_string DClients = ''Clients''"
| "comm_to_string (DSetupInquiry task) = ''Inquiry on '' @ task_nice_display task"
| "comm_to_string (DDestroy server) = ''Destroy '' @ server"

record SvcHealthSummary =
  shs_service :: string
  shs_health :: SvcHealth

record ServerSummary =
  ss_server :: string
  ss_services :: "SvcHealthSummary list"

record TaskSummary =
  tsm_task :: string
  tsm_running :: bool

record CloudSummary =
  cs_tasks :: "TaskSummary list"
  cs_cloud :: "ServerSummary list"

record ServerCreds =
  sc_doh :: string
  sc_ui :: string
  sc_xui_username :: "string option"
  sc_xui_password :: "string option"
  sc_xui_token :: "string option"

datatype DaemonReply =
    Message string | Status CloudSummary | Credentials "string \<rightharpoonup> ServerCreds"
  | Clients "string \<rightharpoonup> string" | SetupInquiry bool

datatype ReplyFormat = Toml | Json

fun reply_format :: "DaemonReply \<Rightarrow> ReplyFormat" where
  "reply_format (Credentials _) = Toml"
| "reply_format (Clients _) = Toml"
| "reply_format _ = Json"

text \<open>Serializing is an argument for each of the two formats.\<close>

definition serialize_pretty ::
  "(DaemonReply res \<Rightarrow> string res) \<Rightarrow> (DaemonReply res \<Rightarrow> string res) \<Rightarrow> DaemonReply res \<Rightarrow> string res" where
  "serialize_pretty to_toml to_json r =
     (case r of
        Inr (Message mes) \<Rightarrow> Inr mes
      | Inr reply \<Rightarrow> (if reply_format reply = Toml then to_toml r else to_json r)
      | Inl _ \<Rightarrow> to_json r)"

definition quoted :: "string \<Rightarrow> string" where
  "quoted s = [CHR 0x27] @ s @ [CHR 0x27]"

section \<open>The task map\<close>

datatype TaskHandle = Detached bool | Outputter bool

fun handle_finished :: "TaskHandle \<Rightarrow> bool" where
  "handle_finished (Detached b) = b"
| "handle_finished (Outputter b) = b"

type_synonym TaskMap = "(TaskEntry \<times> TaskHandle) list"

definition get_task :: "TaskEntry \<Rightarrow> TaskMap \<Rightarrow> TaskHandle option" where
  "get_task e m = map_of m e"

definition remove_task :: "TaskEntry \<Rightarrow> TaskMap \<Rightarrow> TaskMap" where
  "remove_task e m = filter (\<lambda>(e', _). e' \<noteq> e) m"

text \<open>\<open>entry(e).or_insert(TaskHandle::Detached(jh))\<close> after spawning the task.\<close>

definition spawn_entry :: "TaskEntry \<Rightarrow> TaskMap \<Rightarrow> TaskMap" where
  "spawn_entry e m = (if get_task e m = None then m @ [(e, Detached False)] else m)"

definition tasks_status :: "TaskMap \<Rightarrow> TaskSummary list" where
  "tasks_status m = map (\<lambda>(e, h). \<lparr>tsm_task = task_nice_display e, tsm_running = (\<not> handle_finished h)\<rparr>) m"

fun full_setup_server :: "TaskEntry \<Rightarrow> string option" where
  "full_setup_server (FullSetupTask nm) = Some nm"
| "full_setup_server _ = None"

fun is_provisioning :: "TaskEntry \<Rightarrow> bool" where
  "is_provisioning (FullSetupTask _) = True"
| "is_provisioning (DestroyTask _) = True"
| "is_provisioning _ = False"

section \<open>Expansion and destruction\<close>

definition fresh_server :: "KetServer \<Rightarrow> bool" where
  "fresh_server s \<longleftrightarrow> srv_state s = Offgrid \<and> srv_enabled s \<and> xui_token (srv_secrets s) = None"

definition choose_server :: "Cloud \<Rightarrow> string option \<Rightarrow> KetServer res" where
  "choose_server cloud opt =
     (let random_server = find fresh_server (servers cloud);
          given_server = (case opt of Some nm \<Rightarrow> find_server nm cloud | None \<Rightarrow> None) in
      case (opt, given_server, random_server) of
        (Some name, Some server, _) \<Rightarrow>
          (if \<not> srv_enabled server then Inl (ServerDisabled name)
           else case (srv_state server, xui_token (srv_secrets server)) of
                  (Offgrid, None) \<Rightarrow> Inr server
                | (Production, _) \<Rightarrow> Inl (AlreadyProduction name)
                | (_, Some _) \<Rightarrow> Inl (NeedsReload name))
      | (Some name, None, _) \<Rightarrow> Inl (NoSuchServer name)
      | (None, _, Some server) \<Rightarrow> Inr server
      | (None, _, None) \<Rightarrow> Inl NoFreshServer)"

definition expand_cloud :: "Cloud \<Rightarrow> string option \<Rightarrow> TaskMap \<Rightarrow> DaemonReply res \<times> TaskMap" where
  "expand_cloud cloud opt m =
     (case choose_server cloud opt of
        Inl e \<Rightarrow> (Inl e, m)
      | Inr final_server \<Rightarrow>
          (let being = Message (''Server '' @ quoted (srv_name final_server) @ '' is being provisioned to become Production.'');
               spawn = (\<lambda>m. (Inr being, spawn_entry (FullSetupTask (srv_name final_server)) m)) in
           case find (\<lambda>(e, _). full_setup_server e \<noteq> None) m of
             Some (entry, _) \<Rightarrow>
               (case get_task entry m of
                  Some (Detached finished) \<Rightarrow>
                    (if finished then spawn (remove_task entry m)
                     else (Inr (Message (''Expansion in progress: full setup is already running for server ''
                             @ quoted (the (full_setup_server entry)))), m))
                | _ \<Rightarrow> (Inr being, m))
           | None \<Rightarrow> spawn m))"

definition perform_server_destruction :: "Cloud \<Rightarrow> string \<Rightarrow> TaskMap \<Rightarrow> DaemonReply res \<times> TaskMap" where
  "perform_server_destruction cloud name m =
     (case find_server name cloud of
        None \<Rightarrow> (Inl (NoSuchServer name), m)
      | Some server \<Rightarrow>
          (case (srv_state server, srv_enabled server) of
             (Offgrid, _) \<Rightarrow> (Inl (AlreadyOffgrid (srv_name server)), m)
           | (Production, False) \<Rightarrow> (Inl (ServerDisabled (srv_name server)), m)
           | (Production, True) \<Rightarrow>
               (case get_task (DestroyTask (srv_name server)) m of
                  Some handle \<Rightarrow>
                    (if handle_finished handle then (Inl (DestroyFailed (srv_name server)), m)
                     else (Inr (Message (''Destruction operation is already going on for server '' @ quoted (srv_name server))), m))
                | None \<Rightarrow> (Inr (Message (''Server '' @ quoted (srv_name server) @ '' is being destroyed.'')),
                           spawn_entry (DestroyTask (srv_name server)) m))))"

definition setup_inquiry :: "TaskEntry \<Rightarrow> TaskMap \<Rightarrow> bool \<times> TaskMap" where
  "setup_inquiry entry m =
     (let m' = remove_task entry m
      in (list_ex (\<lambda>(e, h). is_provisioning e \<and> \<not> handle_finished h) m', m'))"

section \<open>Reports\<close>

definition add_summary ::
  "(string \<times> SvcHealthSummary list) list \<Rightarrow> SvcSummary \<Rightarrow> (string \<times> SvcHealthSummary list) list" where
  "add_summary hm svc =
     (let row = \<lparr>shs_service = svc_nice_display (sum_service svc), shs_health = sum_health svc\<rparr> in
      if map_of hm (sum_server svc) = None then hm @ [(sum_server svc, [row])]
      else map (\<lambda>(s, rows). (s, if s = sum_server svc then rows @ [row] else rows)) hm)"

definition humanize_status_report :: "CloudSummary \<Rightarrow> string" where
  "humanize_status_report s =
     (let lines = map (\<lambda>t. ''Task '' @ quoted (tsm_task t) @ '' has crashed.'') (filter (\<lambda>t. \<not> tsm_running t) (cs_tasks s))
        @ concat (map (\<lambda>srv. map (\<lambda>svc. ''Service '' @ shs_service svc @ '' on server '' @ quoted (ss_server srv)
              @ '' is '' @ health_to_string (shs_health svc) @ ''.'')
            (filter (\<lambda>svc. shs_health svc \<noteq> HOk) (ss_services srv))) (cs_cloud s))
      in if lines \<noteq> [] then join [char_of (10 :: nat)] lines
         else if cs_cloud s = [] then ''All tasks are running.''
         else ''All tasks are running. All services are Ok.'')"

definition get_summary :: "SvcSummary list \<Rightarrow> TaskSummary list \<Rightarrow> bool \<Rightarrow> DaemonReply" where
  "get_summary services tasks full =
     (let cloud_summary = \<lparr>cs_tasks = tasks, cs_cloud = map (\<lambda>(s, rows). \<lparr>ss_server = s, ss_services = rows\<rparr>)
            (foldl add_summary [] services)\<rparr>
      in if full then Status cloud_summary else Message (humanize_status_report cloud_summary))"

definition served :: "KetServer \<Rightarrow> bool" where
  "served s \<longleftrightarrow> srv_enabled s \<and> srv_state s = Production"

definition server_creds :: "bool \<Rightarrow> KetServer \<Rightarrow> ServerCreds" where
  "server_creds show_all s =
     (let sec = srv_secrets s in
      \<lparr>sc_doh = ''https://'' @ srv_dns_subdomain s @ ''.'' @ srv_domain s @ ''/'' @ doh_endpoint sec,
       sc_ui = ''https://'' @ uihostname s @ ''/'' @ xui_webpath sec @ ''/'',
       sc_xui_username = (if show_all then Some (xui_username sec) else None),
       sc_xui_password = (if show_all then Some (xui_password sec) else None),
       sc_xui_token = (if show_all then xui_token sec else None)\<rparr>)"

definition build_servers_creds :: "Cloud \<Rightarrow> bool \<Rightarrow> DaemonReply" where
  "build_servers_creds cloud show_all =
     Credentials (foldl (\<lambda>hm s. or_insert hm (srv_name s) (server_creds show_all s)) Map.empty
       (filter served (servers cloud)))"

definition get_cloud_clients :: "(KetServer \<Rightarrow> string res) \<Rightarrow> Cloud \<Rightarrow> DaemonReply res" where
  "get_cloud_clients xui_call_clients cloud =
     and_then (try_fold (\<lambda>hm s. and_then (xui_call_clients s) (\<lambda>txt. Inr (or_insert hm (srv_name s) txt)))
       Map.empty (filter served (servers cloud))) (\<lambda>hm. Inr (Clients hm))"

section \<open>Leaving a cycle\<close>

definition EXIT_OK :: int where "EXIT_OK = 0"
definition EXIT_ERROR :: int where "EXIT_ERROR = 1"
definition EXIT_RESTART :: int where "EXIT_RESTART = 20"
definition EXIT_RELOAD :: int where "EXIT_RELOAD = 21"
definition EXIT_REMAP :: int where "EXIT_REMAP = 22"
definition EXIT_REBASE :: int where "EXIT_REBASE = 23"

record DaemonNext =
  dn_code :: int
  dn_mode :: ReconMode
  dn_old_cloud :: "Cloud option"
  dn_new_cloud :: "Cloud option"
  dn_rebase_data :: "(string \<rightharpoonup> RebaseData) option"

definition init_state :: DaemonNext where
  "init_state = \<lparr>dn_code = 0, dn_mode = Reload, dn_old_cloud = None, dn_new_cloud = None, dn_rebase_data = None\<rparr>"

definition shutdown_exit :: DaemonNext where
  "shutdown_exit = \<lparr>dn_code = EXIT_OK, dn_mode = Reload, dn_old_cloud = None, dn_new_cloud = None,
     dn_rebase_data = None\<rparr>"

record CheckEnv =
  ce_parsed :: "Cloud res"
  ce_backup :: "string \<Rightarrow> unit res"
  ce_order :: "string list"
  ce_iorder :: "string \<Rightarrow> string list"

text \<open>
  The result of \<open>check_and_backup\<close>: the reply sent to the socket, if any, and what the function
  returns; an error of it ends the daemon core.
\<close>

definition check_and_backup ::
  "CheckEnv \<Rightarrow> Cloud \<Rightarrow> DaemonComm \<Rightarrow> DaemonReply res option \<times> DaemonNext option res" where
  "check_and_backup env curr_cloud cmd =
     (let action = comm_to_string cmd;
          apply = (\<lambda>code mode new_cloud data.
             case ce_backup env action of
               Inl e \<Rightarrow> (None, Inl e)
             | Inr _ \<Rightarrow> (Some (Inr (Message (action @ '' is being applied.''))),
                 Inr (Some \<lparr>dn_code = code, dn_mode = mode, dn_old_cloud = Some curr_cloud,
                            dn_new_cloud = Some new_cloud, dn_rebase_data = data\<rparr>)))
      in case ce_parsed env of
           Inr new_cloud \<Rightarrow>
             (case cmd of
                DRestart \<Rightarrow> apply EXIT_RESTART Reload new_cloud None
              | DReload \<Rightarrow> apply EXIT_RELOAD Reload new_cloud None
              | DRemap \<Rightarrow> apply EXIT_REMAP Remap new_cloud None
              | DRebase forced \<Rightarrow>
                  (case create_rebase_data forced (ce_order env) (ce_iorder env) curr_cloud new_cloud of
                     Inr rebase_data \<Rightarrow> apply EXIT_REBASE Rebase new_cloud (Some rebase_data)
                   | Inl e \<Rightarrow> (Some (Inl e), Inr None))
              | _ \<Rightarrow> (None, Inl UnsuitableCommand))
         | Inl e \<Rightarrow> (Some (Inl (ConfigCheckFailed action e)), Inr None))"

section \<open>The command processor\<close>

record CoreState =
  co_cloud :: Cloud
  co_tasks :: TaskMap
  co_chat :: "(TaskEntry \<times> SvcSummary option) list"
  co_resets :: "TaskEntry list"

text \<open>One command: the core goes on with a reply, returns, or fails and takes the daemon down.\<close>

datatype CoreStep = Goes "DaemonReply res option" CoreState | Returns "DaemonReply res option" DaemonNext | Fails BoxError

text \<open>Sending to a monitor whose task has ended is an error, which \<open>?\<close> passes on.\<close>

definition ask_monitor :: "TaskEntry \<times> SvcSummary option \<Rightarrow> SvcSummary res" where
  "ask_monitor chat = ok_or (snd chat) (External ''channel closed'')"

definition core_step :: "CheckEnv \<Rightarrow> (KetServer \<Rightarrow> string res) \<Rightarrow> CoreState \<Rightarrow> DaemonComm \<Rightarrow> CoreStep" where
  "core_step env clients st cmd =
     (case cmd of
        DShutdown \<Rightarrow> Returns (Some (Inr (Message ''Shutting down''))) shutdown_exit
      | DStatus full \<Rightarrow>
          (case try_map ask_monitor (co_chat st) of
             Inl e \<Rightarrow> Fails e
           | Inr svc_summary \<Rightarrow> Goes (Some (Inr (get_summary svc_summary (tasks_status (co_tasks st)) full))) st)
      | DResetFix \<Rightarrow>
          (case try_map ask_monitor (co_chat st) of
             Inl e \<Rightarrow> Fails e
           | Inr _ \<Rightarrow> Goes (Some (Inr (Message ''Reset done.''))) (st\<lparr>co_resets := co_resets st @ map fst (co_chat st)\<rparr>))
      | DExpand opt \<Rightarrow>
          (let (r, m) = expand_cloud (co_cloud st) opt (co_tasks st) in Goes (Some r) (st\<lparr>co_tasks := m\<rparr>))
      | DCredentials show_all \<Rightarrow> Goes (Some (Inr (build_servers_creds (co_cloud st) show_all))) st
      | DClients \<Rightarrow> Goes (Some (get_cloud_clients clients (co_cloud st))) st
      | DDestroy name \<Rightarrow>
          (let (r, m) = perform_server_destruction (co_cloud st) name (co_tasks st) in Goes (Some r) (st\<lparr>co_tasks := m\<rparr>))
      | DSetupInquiry entry \<Rightarrow>
          (let (found, m) = setup_inquiry entry (co_tasks st) in Goes (Some (Inr (SetupInquiry found))) (st\<lparr>co_tasks := m\<rparr>))
      | DUnknown \<Rightarrow> Goes None st
      | _ \<Rightarrow> (case check_and_backup env (co_cloud st) cmd of
               (reply, Inl e) \<Rightarrow> Fails e
             | (reply, Inr None) \<Rightarrow> Goes reply st
             | (reply, Inr (Some next)) \<Rightarrow> Returns reply next))"

text \<open>
  A step that returns first aborts what still runs, whoever asked for it: \<open>abort_all\<close> drains the map,
  and its first component lists the tasks that are cut short.
\<close>

definition abort_all :: "TaskMap \<Rightarrow> TaskEntry list \<times> TaskMap" where
  "abort_all m = (map fst (filter (\<lambda>(e, h). \<not> handle_finished h) m), [])"

definition aborted_by :: "CoreState \<Rightarrow> CoreStep \<Rightarrow> TaskEntry list" where
  "aborted_by st res = (case res of Returns _ _ \<Rightarrow> fst (abort_all (co_tasks st)) | _ \<Rightarrow> [])"

section \<open>Signals\<close>

datatype UnixSignal = SIGINT | SIGTERM | SIGHUP

fun signal_command :: "UnixSignal \<Rightarrow> DaemonComm" where
  "signal_command SIGHUP = DReload"
| "signal_command _ = DShutdown"

definition finish_task :: "TaskEntry \<Rightarrow> TaskMap \<Rightarrow> TaskMap" where
  "finish_task e m = map (\<lambda>(e', h). (e', if e' = e then Detached True else h)) m"

text \<open>
  The watcher waits for one signal, sends its command, waits for the reply and ends. The handlers it
  registered stay in place, so a signal that no watcher waits for is ignored.
\<close>

definition sigx_watcher :: "CheckEnv \<Rightarrow> (KetServer \<Rightarrow> string res) \<Rightarrow> CoreState \<Rightarrow> UnixSignal \<Rightarrow> CoreStep" where
  "sigx_watcher env clients st sig =
     (if get_task SignalWatcher (co_tasks st) = Some (Detached False)
      then case core_step env clients st (signal_command sig) of
             Goes r st' \<Rightarrow> Goes r (st'\<lparr>co_tasks := finish_task SignalWatcher (co_tasks st')\<rparr>)
           | res \<Rightarrow> res
      else Goes None st)"

section \<open>The socket\<close>

text \<open>
  One connection: a line that is no command is dropped without an answer, as is a command the
  core does not answer; otherwise the reply is written back. \<open>parse\<close> decodes the trimmed line.
\<close>

definition socket_request :: "(string \<Rightarrow> CliComm option) \<Rightarrow> string \<Rightarrow> DaemonComm option" where
  "socket_request parse line = map_option daemon_command (parse line)"

definition socket_reply ::
  "(DaemonReply res \<Rightarrow> string res) \<Rightarrow> (DaemonReply res \<Rightarrow> string res) \<Rightarrow> DaemonReply res option \<Rightarrow> string option" where
  "socket_reply to_toml to_json response =
     (case response of None \<Rightarrow> None
      | Some r \<Rightarrow> (case serialize_pretty to_toml to_json r of Inl _ \<Rightarrow> None | Inr txt \<Rightarrow> Some txt))"

section \<open>The outer loop\<close>

datatype OuterStep = Leave | Fail string | Recheck | Again

definition outer_step :: "int \<Rightarrow> OuterStep" where
  "outer_step code =
     (if code = EXIT_OK then Leave
      else if code = EXIT_ERROR then Fail ''Daemon exited with error.''
      else if code = EXIT_RESTART then Recheck
      else if code \<in> {EXIT_RELOAD, EXIT_REMAP, EXIT_REBASE} then Again
      else Fail ''Unknown exit code'')"

end
