(* ===== verification/Nft_Rules.thy ===== *)
theory Nft_Rules
  imports Database
begin

text \<open>
  \<^verbatim>\<open>src/nft.rs\<close>: the nftables rule files of a server and the GeoIP database behind the
  outbound block.

  What comes from outside is the record \<open>NftEnv\<close>: the formatted clock, the two downloads of
  Cloudflare ranges (both fixed for the rules of one batch), the answer of the file system when a
  file is written, and the order in which a query returns rows. The files written are the state, a map from path to content; the GeoIP
  database is \<open>None\<close> while its file has no tables.
\<close>

section \<open>Sets and chains\<close>

datatype NftSet =
    SshPre KetServer | SshPost KetServer | InboundSet KetServer
  | OutBlocked4 "CountryCode list" | OutBlocked6 "CountryCode list" | Cloudflare4 | Cloudflare6

datatype NftChain = Input | Output | Forward

fun nftset_to_string :: "NftSet \<Rightarrow> string" where
  "nftset_to_string Cloudflare4 = ''cloudflare4''"
| "nftset_to_string Cloudflare6 = ''cloudflare6''"
| "nftset_to_string (InboundSet _) = ''inbound''"
| "nftset_to_string (SshPre _) = ''sshpre''"
| "nftset_to_string (SshPost _) = ''sshpost''"
| "nftset_to_string (OutBlocked4 _) = ''outblocked4''"
| "nftset_to_string (OutBlocked6 _) = ''outblocked6''"

fun chain_to_string :: "NftChain \<Rightarrow> string" where
  "chain_to_string Input = ''input''"
| "chain_to_string Output = ''output''"
| "chain_to_string Forward = ''forward''"

section \<open>The GeoIP database\<close>

type_synonym GeoTable = "string \<times> string \<rightharpoonup> string"

record Geoip =
  geoip4 :: GeoTable
  geoip6 :: GeoTable

record GeoRecord =
  gr_start :: string
  gr_end :: string
  gr_country :: string

definition insert_geo :: "GeoRecord \<Rightarrow> GeoTable \<Rightarrow> GeoTable" where
  "insert_geo r t = or_insert t (gr_start r, gr_end r) (gr_country r)"

definition add_record :: "Geoip \<Rightarrow> GeoRecord res \<Rightarrow> Geoip res" where
  "add_record g result =
     and_then result (\<lambda>r.
     and_then (to_sql_err (parse_ip (gr_start r))) (\<lambda>s.
     and_then (to_sql_err (parse_ip (gr_end r))) (\<lambda>e.
     Inr (case (s, e) of
            (V4 _ _ _ _, V4 _ _ _ _) \<Rightarrow> g\<lparr>geoip4 := insert_geo r (geoip4 g)\<rparr>
          | (V6 _ _ _ _ _ _ _ _, V6 _ _ _ _ _ _ _ _) \<Rightarrow> g\<lparr>geoip6 := insert_geo r (geoip6 g)\<rparr>
          | _ \<Rightarrow> g))))"

text \<open>
  The old file is deleted before the records are read; the tables and their rows are written in
  one transaction, which an error rolls back. \<open>csv\<close> is what the CSV reader yields, record by record.
\<close>

definition create_geoip_db :: "GeoRecord res list \<Rightarrow> (Geoip option, BoxError, unit) call" where
  "create_geoip_db csv w =
     (case try_fold add_record \<lparr>geoip4 = Map.empty, geoip6 = Map.empty\<rparr> csv of
        Inl e \<Rightarrow> (Inl e, None)
      | Inr g \<Rightarrow> (Inr (), Some g))"

section \<open>Elements of a set\<close>

record NftEnv =
  nv_now :: string
  nv_ranges4 :: "string res"
  nv_ranges6 :: "string res"
  nv_write :: "string \<Rightarrow> unit res"
  nv_torn :: "string \<Rightarrow> nat option"
  nv_geoip :: "Geoip option"
  nv_order4 :: "(string \<times> string) list"
  nv_order6 :: "(string \<times> string) list"

definition nl :: string where
  "nl = [char_of (10 :: nat)]"

definition set_rule_gen :: "string \<Rightarrow> string \<Rightarrow> string \<Rightarrow> string" where
  "set_rule_gen now rule_name elements =
     ''#!/usr/sbin/nft -f'' @ nl @ nl @ ''# Generated by xcplane'' @ nl @ ''# Set: '' @ rule_name @ nl
     @ ''# Updated: '' @ now @ nl @ nl @ ''flush set inet xcplane '' @ rule_name @ nl @ nl
     @ ''add element inet xcplane '' @ rule_name @ '' {'' @ nl @ ''    '' @ elements @ nl @ ''}''"

definition ssh_elements :: "NftSet \<Rightarrow> string res" where
  "ssh_elements nftset =
     (case nftset of
        SshPre server \<Rightarrow>
          and_then (ok_or (srv_ansible_conn server) (ConnMissing (srv_name server))) (\<lambda>conn.
          and_then (ok_or (ansible_port conn) (PortMissing (srv_name server))) (\<lambda>port.
          Inr (if port \<noteq> srv_ssh_port server
               then show_u16 port @ '','' @ show_u16 (srv_ssh_port server) else show_u16 port)))
      | SshPost server \<Rightarrow> Inr (show_u16 (srv_ssh_port server))
      | _ \<Rightarrow> Inl WrongNftSet)"

definition generate_ssh_rule :: "NftEnv \<Rightarrow> NftSet \<Rightarrow> string res" where
  "generate_ssh_rule env nftset =
     and_then (ssh_elements nftset) (\<lambda>elements. Inr (set_rule_gen (nv_now env) ''ssh'' elements))"

definition inbound_elements :: "NftSet \<Rightarrow> string res" where
  "inbound_elements nftset =
     (case nftset of
        InboundSet server \<Rightarrow>
          Inr (join '','' (List.map_filter (\<lambda>inb. if inb_port inb = 0 then None else Some (show_u16 (inb_port inb)))
                 (srv_inbounds server)))
      | _ \<Rightarrow> Inl WrongNftSet)"

definition generate_inbound_rule :: "NftEnv \<Rightarrow> NftSet \<Rightarrow> string res" where
  "generate_inbound_rule env nftset =
     and_then (inbound_elements nftset) (\<lambda>elements.
     Inr (set_rule_gen (nv_now env) (nftset_to_string nftset) elements))"

text \<open>\<open>str::lines\<close>: a line end is a newline or a carriage return with one, and the last line may lack it.\<close>

definition strip_cr :: "string \<Rightarrow> string" where
  "strip_cr l = (if l \<noteq> [] \<and> last l = char_of (13 :: nat) then butlast l else l)"

definition str_lines :: "string \<Rightarrow> string list" where
  "str_lines s =
     (let ps = split_at (char_of (10 :: nat)) s
      in map strip_cr (butlast ps) @ (if last ps = [] then [] else [last ps]))"

definition indent_sep :: string where
  "indent_sep = '','' @ nl @ ''    ''"

definition generate_cloudflare_elements :: "NftEnv \<Rightarrow> NftSet \<Rightarrow> string res" where
  "generate_cloudflare_elements env nftset =
     and_then (case nftset of
         Cloudflare4 \<Rightarrow> and_then (nv_ranges4 env) (\<lambda>txt. Inr (join indent_sep (str_lines txt)))
       | Cloudflare6 \<Rightarrow> and_then (nv_ranges6 env) (\<lambda>txt. Inr (join indent_sep (str_lines txt)))
       | _ \<Rightarrow> Inl WrongNftSet) (\<lambda>elements.
     Inr (set_rule_gen (nv_now env) (nftset_to_string nftset) elements))"

text \<open>\<open>SELECT start, end FROM .. WHERE country IN (..)\<close>, rows joined to ranges.\<close>

definition country_ranges :: "GeoTable \<Rightarrow> (string \<times> string) list \<Rightarrow> CountryCode list \<Rightarrow> string list" where
  "country_ranges t order countries =
     map (\<lambda>((s, e), _). s @ ''-'' @ e) (filter (\<lambda>(_, c). c \<in> set countries) (rows t order))"

definition blocked_elements :: "NftEnv \<Rightarrow> NftSet \<Rightarrow> string res" where
  "blocked_elements env nftset =
     (case nftset of
        OutBlocked4 countries \<Rightarrow>
          and_then (ok_or (nv_geoip env) (External ''no such table: geoip4'')) (\<lambda>g.
          Inr (join indent_sep (country_ranges (geoip4 g) (nv_order4 env) countries)))
      | OutBlocked6 countries \<Rightarrow>
          and_then (ok_or (nv_geoip env) (External ''no such table: geoip6'')) (\<lambda>g.
          Inr (join indent_sep (country_ranges (geoip6 g) (nv_order6 env) countries)))
      | _ \<Rightarrow> Inl WrongNftSet)"

definition generate_blocked_elements :: "NftEnv \<Rightarrow> NftSet \<Rightarrow> string res" where
  "generate_blocked_elements env nftset =
     and_then (blocked_elements env nftset) (\<lambda>elements.
     Inr (set_rule_gen (nv_now env) (nftset_to_string nftset) elements))"

section \<open>Rule files\<close>

type_synonym Files = "string \<rightharpoonup> string"
type_synonym 'a on_files = "(Files, BoxError, 'a) call"

definition set_rule :: "NftEnv \<Rightarrow> NftSet \<Rightarrow> string res" where
  "set_rule env nftset =
     (case nftset of
        Cloudflare4 \<Rightarrow> generate_cloudflare_elements env nftset
      | Cloudflare6 \<Rightarrow> generate_cloudflare_elements env nftset
      | OutBlocked4 _ \<Rightarrow> generate_blocked_elements env nftset
      | OutBlocked6 _ \<Rightarrow> generate_blocked_elements env nftset
      | SshPre _ \<Rightarrow> generate_ssh_rule env nftset
      | SshPost _ \<Rightarrow> generate_ssh_rule env nftset
      | InboundSet _ \<Rightarrow> generate_inbound_rule env nftset)"

definition rule_path :: "KetServer \<Rightarrow> string \<Rightarrow> string" where
  "rule_path server nm = srv_name server @ ''/'' @ nm @ ''.nft''"

text \<open>
  A write that fails may have truncated the file and written a part of the content: \<open>nv_torn\<close> says how
  much of it; it is \<open>None\<close> when the file could not even be opened.
\<close>

definition write_file :: "NftEnv \<Rightarrow> string \<Rightarrow> string \<Rightarrow> string on_files" where
  "write_file env path content fs =
     (case nv_write env path of
        Inl e \<Rightarrow> (Inl e, case nv_torn env path of None \<Rightarrow> fs | Some n \<Rightarrow> fs(path \<mapsto> take n content))
      | Inr _ \<Rightarrow> (Inr path, fs(path \<mapsto> content)))"

definition write_set_rule :: "NftEnv \<Rightarrow> KetServer \<Rightarrow> NftSet \<Rightarrow> string on_files" where
  "write_set_rule env server nftset =
     via (pure (set_rule env nftset)) (\<lambda>rule.
     write_file env (rule_path server (nftset_to_string nftset)) rule)"

definition write_chain_rule :: "NftEnv \<Rightarrow> KetServer \<Rightarrow> NftChain \<Rightarrow> string on_files" where
  "write_chain_rule env server chain =
     write_file env (rule_path server (chain_to_string chain))
       (''#!/usr/sbin/nft -f'' @ nl @ nl @ ''# Generated by xcplane'' @ nl @ ''# Chain: '' @ chain_to_string chain @ nl
        @ ''# Updated: '' @ nv_now env @ nl @ nl @ ''flush chain inet xcplane '' @ chain_to_string chain)"

section \<open>Operations for a batch of actions\<close>

text \<open>The sets that each action needs, in the order in which the code writes them.\<close>

definition action_sets :: "KetServer \<Rightarrow> AnsibleAction \<Rightarrow> NftSet list" where
  "action_sets server action =
     (let block = srv_outbound_block server in
      case action of
        SSH \<Rightarrow> [SshPre server, SshPost server]
      | FullSetup \<Rightarrow> [Cloudflare4, Cloudflare6, OutBlocked4 block, OutBlocked6 block, InboundSet server,
                      SshPre server, SshPost server]
      | DelInbound \<Rightarrow> [InboundSet server]
      | AddInbound \<Rightarrow> [InboundSet server]
      | OutblockedUpdate \<Rightarrow> [Cloudflare4, Cloudflare6, OutBlocked4 block, OutBlocked6 block]
      | _ \<Rightarrow> [])"

definition add_op ::
  "NftEnv \<Rightarrow> KetServer \<Rightarrow> (string \<rightharpoonup> string) \<Rightarrow> NftSet \<Rightarrow> (string \<rightharpoonup> string) on_files" where
  "add_op env server ops nftset =
     via (write_set_rule env server nftset) (\<lambda>path. pure (Inr (or_insert ops (nftset_to_string nftset) path)))"

definition generate_nftops ::
  "NftEnv \<Rightarrow> KetServer \<Rightarrow> AnsibleAction list \<Rightarrow> (string \<rightharpoonup> string) on_files" where
  "generate_nftops env server actions =
     via_each (\<lambda>ops action. via_each (add_op env server) ops (action_sets server action)) Map.empty actions"

end
