(* ===== verification/Nft_Props.thy ===== *)
theory Nft_Props
  imports Nft_Rules Rebase_Plan
begin

text \<open>
  What the rule files guarantee: the firewall never locks the controller out while the SSH port
  moves, the inbound set opens exactly the ports of the inbounds, a batch of actions gets exactly
  the operations it needs, and the outbound block is the recorded ranges of the countries.
\<close>

section \<open>Reading elements back\<close>

definition port_elements :: "string \<Rightarrow> nat option list" where
  "port_elements s = map (parse_unsigned 65535) (split_at (CHR '','') s)"

lemma parse_show_u16: "parse_unsigned 65535 (show_u16 p) = Some (unat p)"
  using u16_bound [of p] by (simp add: show_u16_def parse_show)

lemma show_u16_no_comma: "CHR '','' \<notin> set (show_u16 p)"
  unfolding show_u16_def by (rule show_base_no_sep) (simp_all add: ascii_defs)

lemma port_elements_join: "ps \<noteq> [] \<Longrightarrow> port_elements (join '','' (map show_u16 ps)) = map (Some \<circ> unat) ps"
  unfolding port_elements_def
  by (subst split_at_join) (auto simp: show_u16_no_comma parse_show_u16)

lemma ssh_pre_elements:
  assumes "srv_ansible_conn s = Some conn" "ansible_port conn = Some p"
  shows "ssh_elements (SshPre s) = Inr (join '','' (map show_u16 (if p = srv_ssh_port s then [p] else [p, srv_ssh_port s])))"
  using assms by (simp add: ssh_elements_def)

section \<open>Moving the SSH port\<close>

text \<open>
  C29. No lock-out while the SSH port moves: the transient rule opens the port the controller is
  connected on and the port the server moves to, the final rule opens only the latter, and the
  latter is the port on which the controller connects after the run of a Rebase has succeeded.
\<close>

theorem ssh_move_no_lockout:
  assumes "srv_ansible_conn s = Some conn" "ansible_port conn = Some p" "find_server (srv_name s) c = Some s"
    "run s (job_actions job) (job_data job) = Inr True" "job_server job = s"
  shows "\<exists>pre post c' s' conn'. ssh_elements (SshPre s) = Inr pre \<and> ssh_elements (SshPost s) = Inr post
    \<and> {Some (unat p), Some (unat (srv_ssh_port s))} = set (port_elements pre)
    \<and> port_elements post = [Some (unat (srv_ssh_port s))]
    \<and> finish_job run c job = Inr c' \<and> find_server (srv_name s) c' = Some s'
    \<and> srv_ansible_conn s' = Some conn' \<and> ansible_port conn' = Some (srv_ssh_port s)"
proof -
  let ?ports = "if p = srv_ssh_port s then [p] else [p, srv_ssh_port s]"
  let ?f = "\<lambda>t. t\<lparr>srv_ansible_conn := Some \<lparr>ansible_host = ansible_host conn, ansible_port = Some (srv_ssh_port s),
         ansible_user = ansible_user conn, ansible_connection = None\<rparr>\<rparr>"
  have pre: "set (port_elements (join '','' (map show_u16 ?ports))) = {Some (unat p), Some (unat (srv_ssh_port s))}"
    by (subst port_elements_join) auto
  have post: "port_elements (show_u16 (srv_ssh_port s)) = [Some (unat (srv_ssh_port s))]"
    using port_elements_join [of "[srv_ssh_port s]"] by simp
  have fin: "finish_job run c job = Inr (update_server (srv_name s) ?f c)"
    using assms by (simp add: finish_job_def Let_def)
  have "find_server (srv_name s) (update_server (srv_name s) ?f c) = Some (?f s)"
    by (rule find_server_update_same) (use assms(3) in simp_all)
  then show ?thesis
    using ssh_pre_elements [OF assms(1,2)] pre post fin by (fastforce simp: ssh_elements_def)
qed

section \<open>Ports of the inbounds\<close>

text \<open>
  The inbound rule opens exactly the ports of the server's inbounds, in their order, leaving
  out port 0, the placeholder of the supervisor.
\<close>

lemma inbound_rule_ports:
  assumes "filter (\<lambda>p. p \<noteq> 0) (map inb_port (srv_inbounds s)) \<noteq> []"
  shows "\<exists>els. inbound_elements (InboundSet s) = Inr els
    \<and> port_elements els = map (Some \<circ> unat) (filter (\<lambda>p. p \<noteq> 0) (map inb_port (srv_inbounds s)))"
proof -
  have "List.map_filter (\<lambda>inb. if inb_port inb = 0 then None else Some (show_u16 (inb_port inb))) ins
      = map show_u16 (filter (\<lambda>p. p \<noteq> 0) (map inb_port ins))" for ins :: "Inbound list"
    by (induction ins) (auto simp: List.map_filter_simps)
  then show ?thesis using port_elements_join [OF assms] by (simp add: inbound_elements_def)
qed

section \<open>Operations of a batch\<close>

lemma via_assoc: "via (via m f) g = via m (\<lambda>x. via (f x) g)"
  by (auto simp: via_def fun_eq_iff split: prod.split sum.split)

lemma via_each_append: "via_each g s (xs @ ys) = via (via_each g s xs) (\<lambda>s'. via_each g s' ys)"
proof (induction xs arbitrary: s)
  case Nil
  then show ?case by (simp add: via_def pure_def)
next
  case (Cons x xs)
  then show ?case by (simp add: via_assoc)
qed

lemma via_each_concat: "via_each (\<lambda>s x. via_each g s (h x)) s xs = via_each g s (concat (map h xs))"
  by (induction xs arbitrary: s) (simp_all add: via_each_append)

definition needed_sets :: "KetServer \<Rightarrow> AnsibleAction list \<Rightarrow> NftSet list" where
  "needed_sets s actions = concat (map (action_sets s) actions)"

definition writable :: "NftEnv \<Rightarrow> KetServer \<Rightarrow> NftSet \<Rightarrow> bool" where
  "writable env s st \<longleftrightarrow> (\<exists>rule. set_rule env st = Inr rule) \<and> nv_write env (rule_path s (nftset_to_string st)) = Inr ()"

lemma write_set_rule_iff:
  "write_set_rule env s st fs = (Inr path, fs') \<longleftrightarrow>
     writable env s st \<and> path = rule_path s (nftset_to_string st)
     \<and> fs' = fs(path \<mapsto> projr (set_rule env st))"
  by (cases "nv_write env (rule_path s (nftset_to_string st))")
    (auto simp: write_set_rule_def write_file_def writable_def via_Inr_iff)

lemma add_op_iff:
  "add_op env s ops st fs = (Inr ops', fs') \<longleftrightarrow> writable env s st
     \<and> ops' = or_insert ops (nftset_to_string st) (rule_path s (nftset_to_string st))
     \<and> fs' = fs(rule_path s (nftset_to_string st) \<mapsto> projr (set_rule env st))"
  by (auto simp: add_op_def via_Inr_iff write_set_rule_iff)

lemma add_ops_iff:
  "via_each (add_op env s) ops sts fs = (Inr ops', fs') \<longleftrightarrow>
     list_all (writable env s) sts
     \<and> ops' = foldl (\<lambda>m st. or_insert m (nftset_to_string st) (rule_path s (nftset_to_string st))) ops sts
     \<and> fs' = foldl (\<lambda>m st. m(rule_path s (nftset_to_string st) \<mapsto> projr (set_rule env st))) fs sts"
proof (induction sts arbitrary: ops fs)
  case (Cons st sts)
  show ?case by (simp add: via_Inr_iff add_op_iff Cons.IH del: fun_upd_apply or_insert_apply)
qed auto

lemma rule_path_inj: "rule_path s a = rule_path s b \<longleftrightarrow> a = b"
  by (simp add: rule_path_def)

lemma ops_fold:
  assumes "\<forall>nm p. ops nm = Some p \<longrightarrow> p = rule_path s nm"
  shows "foldl (\<lambda>m st. or_insert m (nftset_to_string st) (rule_path s (nftset_to_string st))) ops sts
     = (\<lambda>nm. if nm \<in> nftset_to_string ` set sts then Some (rule_path s nm) else ops nm)"
  using assms
proof (induction sts arbitrary: ops)
  case (Cons st sts)
  have "\<forall>nm p. or_insert ops (nftset_to_string st) (rule_path s (nftset_to_string st)) nm = Some p \<longrightarrow> p = rule_path s nm"
    using Cons.prems by auto
  from Cons.IH [OF this] show ?case
    using Cons.prems by (cases "ops (nftset_to_string st)") (auto simp: fun_eq_iff)
qed simp

text \<open>For one server, the name of a needed set determines the set.\<close>

definition set_named :: "KetServer \<Rightarrow> string \<Rightarrow> NftSet" where
  "set_named s nm =
     (if nm = ''sshpre'' then SshPre s else if nm = ''sshpost'' then SshPost s
      else if nm = ''inbound'' then InboundSet s
      else if nm = ''outblocked4'' then OutBlocked4 (srv_outbound_block s)
      else if nm = ''outblocked6'' then OutBlocked6 (srv_outbound_block s)
      else if nm = ''cloudflare4'' then Cloudflare4 else Cloudflare6)"

lemma action_sets_named: "st \<in> set (action_sets s a) \<Longrightarrow> st = set_named s (nftset_to_string st)"
  by (cases a) (auto simp: action_sets_def set_named_def Let_def)

lemma needed_by_name:
  assumes "st \<in> set (needed_sets s actions)" "st' \<in> set (needed_sets s actions)"
    "nftset_to_string st = nftset_to_string st'"
  shows "st = st'"
proof -
  have "q = set_named s (nftset_to_string q)" if "q \<in> set (needed_sets s actions)" for q
    using that action_sets_named by (auto simp: needed_sets_def)
  then show ?thesis using assms by metis
qed

lemma generate_nftops_flat: "generate_nftops env s actions = via_each (add_op env s) Map.empty (needed_sets s actions)"
  by (simp add: generate_nftops_def needed_sets_def via_each_concat)

lemma generate_nftops_fails:
  "\<not> list_all (writable env s) (needed_sets s actions) \<Longrightarrow> \<exists>e fs'. generate_nftops env s actions fs = (Inl e, fs')"
proof -
  assume "\<not> list_all (writable env s) (needed_sets s actions)"
  then have "generate_nftops env s actions fs \<noteq> (Inr ops, fs')" for ops fs'
    unfolding generate_nftops_flat add_ops_iff by blast
  then show ?thesis by (metis obj_sumE prod.exhaust)
qed

lemma files_fold:
  assumes "\<forall>st \<in> set sts. \<forall>st' \<in> set sts. nftset_to_string st = nftset_to_string st' \<longrightarrow> st = st'" "st \<in> set sts"
  shows "foldl (\<lambda>m st. m(rule_path s (nftset_to_string st) \<mapsto> g st)) fs sts (rule_path s (nftset_to_string st)) = Some (g st)"
  using assms
proof (induction sts rule: rev_induct)
  case (snoc x xs)
  then show ?case by (cases "nftset_to_string st = nftset_to_string x") (auto simp: rule_path_inj)
qed simp

lemma generate_nftops_needed:
  "case generate_nftops env s actions fs of
     (Inl e, fs') \<Rightarrow> \<not> list_all (writable env s) (needed_sets s actions)
   | (Inr ops, fs') \<Rightarrow> list_all (writable env s) (needed_sets s actions)
       \<and> dom ops = nftset_to_string ` set (needed_sets s actions)
       \<and> (\<forall>st \<in> set (needed_sets s actions). ops (nftset_to_string st) = Some (rule_path s (nftset_to_string st))
            \<and> map_option Inr (fs' (rule_path s (nftset_to_string st))) = Some (set_rule env st))"
proof -
  let ?sts = "needed_sets s actions"
  let ?files = "foldl (\<lambda>m st. m(rule_path s (nftset_to_string st) \<mapsto> projr (set_rule env st))) fs ?sts"
  have ops: "foldl (\<lambda>m st. or_insert m (nftset_to_string st) (rule_path s (nftset_to_string st))) Map.empty ?sts
      = (\<lambda>nm. if nm \<in> nftset_to_string ` set ?sts then Some (rule_path s nm) else None)"
    by (rule ops_fold) simp
  show ?thesis
  proof (cases "list_all (writable env s) ?sts")
    case True
    then have "generate_nftops env s actions fs
        = (Inr (\<lambda>nm. if nm \<in> nftset_to_string ` set ?sts then Some (rule_path s nm) else None), ?files)"
      unfolding generate_nftops_flat add_ops_iff ops by blast
    moreover have "map_option Inr (?files (rule_path s (nftset_to_string st))) = Some (set_rule env st)"
      if st: "st \<in> set ?sts" for st
    proof -
      have "?files (rule_path s (nftset_to_string st)) = Some (projr (set_rule env st))"
        by (rule files_fold [OF _ st]) (use needed_by_name in blast)
      moreover have "\<exists>rule. set_rule env st = Inr rule"
        using True st by (auto simp: list_all_iff writable_def)
      ultimately show ?thesis by auto
    qed
    ultimately show ?thesis using True by (auto simp: dom_def)
  next
    case False
    then show ?thesis using generate_nftops_fails [OF False, of fs] by auto
  qed
qed

text \<open>
  The rule sets that a batch needs, said set by set: the rules of the SSH port for a change of it,
  the inbound rule for every change of the inbounds, the ranges of Cloudflare and of the blocked countries
  for an update of the block, and all of them for a full setup.
\<close>

definition sets_due :: "KetServer \<Rightarrow> AnsibleAction set \<Rightarrow> NftSet set" where
  "sets_due s A =
     (if SSH \<in> A \<or> FullSetup \<in> A then {SshPre s, SshPost s} else {})
   \<union> (if DelInbound \<in> A \<or> AddInbound \<in> A \<or> FullSetup \<in> A then {InboundSet s} else {})
   \<union> (if OutblockedUpdate \<in> A \<or> FullSetup \<in> A
      then {Cloudflare4, Cloudflare6, OutBlocked4 (srv_outbound_block s), OutBlocked6 (srv_outbound_block s)} else {})"

lemma needed_sets_due: "set (needed_sets s actions) = sets_due s (set actions)"
proof (induction actions)
  case (Cons a actions)
  have "set (needed_sets s (a # actions)) = set (action_sets s a) \<union> sets_due s (set actions)"
    using Cons by (simp add: needed_sets_def)
  also have "\<dots> = sets_due s (set (a # actions))"
    by (cases a) (auto simp: action_sets_def sets_due_def Let_def)
  finally show ?case .
qed (simp add: needed_sets_def sets_due_def)

text \<open>
  C28. The rule operations of a batch of actions: they are generated exactly when the rule of every
  set the actions need (the SSH rules for SSH, the inbound rule for AddInbound and DelInbound, the four
  range rules for OutblockedUpdate, all of them for FullSetup, none for any other action) can be built and
  written, and then the table of operations names exactly these sets, each with the path of its own
  rule file, which holds that rule.
\<close>

theorem nftops_exact:
  "case generate_nftops env s actions fs of
     (Inl e, fs') \<Rightarrow> \<not> Ball (sets_due s (set actions)) (writable env s)
   | (Inr ops, fs') \<Rightarrow> Ball (sets_due s (set actions)) (writable env s)
       \<and> dom ops = nftset_to_string ` sets_due s (set actions)
       \<and> (\<forall>st \<in> sets_due s (set actions). ops (nftset_to_string st) = Some (rule_path s (nftset_to_string st))
            \<and> map_option Inr (fs' (rule_path s (nftset_to_string st))) = Some (set_rule env st))"
  by (rule generate_nftops_needed [unfolded list_all_iff needed_sets_due])

section \<open>The outbound block\<close>

text \<open>The records of one family, as the loop files them.\<close>

fun is_v4 :: "IpAddr \<Rightarrow> bool" where
  "is_v4 (V4 _ _ _ _) = True"
| "is_v4 (V6 _ _ _ _ _ _ _ _) = False"

definition v4_record :: "GeoRecord \<Rightarrow> bool" where
  "v4_record r \<longleftrightarrow> map_option is_v4 (parse_ip (gr_start r)) = Some True
     \<and> map_option is_v4 (parse_ip (gr_end r)) = Some True"

definition good_record :: "GeoRecord \<Rightarrow> bool" where
  "good_record r \<longleftrightarrow> parse_ip (gr_start r) \<noteq> None \<and> parse_ip (gr_end r) \<noteq> None"

definition geo_key :: "GeoRecord \<Rightarrow> string \<times> string" where
  "geo_key r = (gr_start r, gr_end r)"

lemma add_record_ok:
  assumes "good_record r"
  shows "\<exists>g'. add_record g (Inr r) = Inr g'
    \<and> geoip4 g' = (if v4_record r then insert_geo r (geoip4 g) else geoip4 g)"
proof -
  from assms obtain s e where "parse_ip (gr_start r) = Some s" "parse_ip (gr_end r) = Some e"
    by (auto simp: good_record_def)
  then show ?thesis
    by (cases s; cases e) (simp_all add: add_record_def to_sql_err_def v4_record_def)
qed

lemma add_records_ok:
  assumes "list_all good_record rs"
  shows "\<exists>g'. try_fold add_record g (map Inr rs) = Inr g'
    \<and> (\<forall>k. geoip4 g' k = (case geoip4 g k of Some c \<Rightarrow> Some c
         | None \<Rightarrow> map_option gr_country (find (\<lambda>r. geo_key r = k) (filter v4_record rs))))"
  using assms
proof (induction rs arbitrary: g)
  case (Cons r rs)
  from Cons.prems obtain g1 where g1: "add_record g (Inr r) = Inr g1"
    "geoip4 g1 = (if v4_record r then insert_geo r (geoip4 g) else geoip4 g)"
    using add_record_ok [of r g] by auto
  obtain g' where g': "try_fold add_record g1 (map Inr rs) = Inr g'"
    "\<And>k. geoip4 g' k = (case geoip4 g1 k of Some c \<Rightarrow> Some c
         | None \<Rightarrow> map_option gr_country (find (\<lambda>r. geo_key r = k) (filter v4_record rs)))"
    using Cons.IH [of g1] Cons.prems by (metis list.pred_inject(2))
  have "geoip4 g' k = (case geoip4 g k of Some c \<Rightarrow> Some c
         | None \<Rightarrow> map_option gr_country (find (\<lambda>r. geo_key r = k) (filter v4_record (r # rs))))" for k
    using g'(2) [of k] by (auto simp: g1(2) insert_geo_def geo_key_def split: option.split if_splits)
  then show ?case using g1(1) g'(1) by auto
qed (auto split: option.split)

text \<open>
  The IPv4 outbound block of a list of countries consists of exactly the recorded IPv4 ranges
  whose first record names one of these countries, whatever the order of the query; records that
  mix families are skipped.
\<close>

lemma outblock_exact:
  assumes "list_all good_record rs" "create_geoip_db (map Inr rs) w = (Inr (), Some g)"
    "is_walk order (dom (geoip4 g))"
  shows "set (country_ranges (geoip4 g) order countries) =
    (\<lambda>r. gr_start r @ ''-'' @ gr_end r) `
      {r \<in> set rs. v4_record r \<and> gr_country r \<in> set countries
         \<and> find (\<lambda>q. geo_key q = geo_key r) (filter v4_record rs) = Some r}"
    (is "_ = _ ` ?first")
proof -
  have tab: "geoip4 g k = map_option gr_country (find (\<lambda>r. geo_key r = k) (filter v4_record rs))" for k
    using add_records_ok [OF assms(1), of "\<lparr>geoip4 = Map.empty, geoip6 = Map.empty\<rparr>"] assms(2)
    by (cases k) (auto simp: create_geoip_db_def)
  have "set (country_ranges (geoip4 g) order countries)
      = (\<lambda>(s, e). s @ ''-'' @ e) ` {k. \<exists>c. geoip4 g k = Some c \<and> c \<in> set countries}"
    using assms(3) by (force simp: country_ranges_def rows_def is_walk_def image_iff)
  also have "{k. \<exists>c. geoip4 g k = Some c \<and> c \<in> set countries} = geo_key ` ?first"
  proof (intro equalityI subsetI)
    fix k assume "k \<in> {k. \<exists>c. geoip4 g k = Some c \<and> c \<in> set countries}"
    then obtain r where r: "find (\<lambda>q. geo_key q = k) (filter v4_record rs) = Some r" "gr_country r \<in> set countries"
      by (auto simp: tab)
    with find_Some_in [OF r(1)] show "k \<in> geo_key ` ?first" by auto
  qed (auto simp: tab)
  finally show ?thesis by (simp add: image_image geo_key_def)
qed

text \<open>
  One malformed record in the downloaded data loses the GeoIP database: the old file is gone,
  the new tables are rolled back, and the outbound rules, and with them every full setup and every
  update of the block, fail until a later download succeeds.
\<close>

lemma malformed_geoip_blocks_setup:
  assumes "r \<in> set csv" "\<forall>g. \<exists>e. add_record g r = Inl e"
    "{FullSetup, OutblockedUpdate} \<inter> set actions \<noteq> {}"
  shows "\<exists>e. create_geoip_db csv w = (Inl e, None)
    \<and> (\<exists>e' fs'. generate_nftops (env\<lparr>nv_geoip := snd (create_geoip_db csv w)\<rparr>) s actions fs = (Inl e', fs'))"
proof -
  have bad: "\<exists>e. try_fold add_record g csv = Inl e" for g
    using assms(1)
  proof (induction csv arbitrary: g)
    case (Cons x xs)
    then show ?case using assms(2) by (cases "add_record g x") (auto simp: and_then_Inl_iff, metis Inr_Inl_False)
  qed simp
  obtain e where e: "create_geoip_db csv w = (Inl e, None)"
    using bad [of "\<lparr>geoip4 = Map.empty, geoip6 = Map.empty\<rparr>"] by (auto simp: create_geoip_db_def)
  let ?env = "env\<lparr>nv_geoip := None\<rparr>"
  let ?st = "OutBlocked4 (srv_outbound_block s)"
  have "?st \<in> set (needed_sets s actions)"
    using assms(3) by (force simp: needed_sets_def action_sets_def Let_def)
  moreover have "\<not> writable ?env s ?st"
    by (simp add: writable_def set_rule_def generate_blocked_elements_def blocked_elements_def)
  ultimately have "\<not> list_all (writable ?env s) (needed_sets s actions)" by (auto simp: list_all_iff)
  from generate_nftops_fails [OF this] show ?thesis using e by simp
qed

section \<open>Concrete instances\<close>

definition demo_ssh_server :: KetServer where
  "demo_ssh_server = (demo_server ''one'' 1 ''one.org'' Production)\<lparr>srv_ssh_port := 2222,
     srv_inbounds := demo_set @ [super_inbound],
     srv_ansible_conn := Some \<lparr>ansible_host = None, ansible_port = Some 79, ansible_user = None, ansible_connection = None\<rparr>\<rparr>"

definition demo_env :: NftEnv where
  "demo_env = \<lparr>nv_now = ''now'', nv_ranges4 = Inr [], nv_ranges6 = Inr [], nv_write = (\<lambda>_. Inr ()), nv_torn = (\<lambda>_. None),
     nv_geoip = None, nv_order4 = [], nv_order6 = []\<rparr>"

theorem ssh_move_no_lockout_witness:
  "\<exists>pre. ssh_elements (SshPre demo_ssh_server) = Inr pre \<and> set (port_elements pre) = {Some 79, Some 2222}"
  using ssh_move_no_lockout [of demo_ssh_server
      "\<lparr>ansible_host = None, ansible_port = Some 79, ansible_user = None, ansible_connection = None\<rparr>" 79
      "\<lparr>servers = [demo_ssh_server], settings = demo_settings\<rparr>" "\<lambda>_ _ _. Inr True"
      "\<lparr>job_server = demo_ssh_server, job_actions = [SSH], job_data = None\<rparr>"]
  by (auto simp: demo_ssh_server_def find_server_def)

theorem inbound_rule_ports_witness:
  "\<exists>els. inbound_elements (InboundSet demo_ssh_server) = Inr els \<and> port_elements els = [Some 2053, Some 8080]"
  using inbound_rule_ports [of demo_ssh_server]
  by (simp add: demo_ssh_server_def demo_defs super_inbound_def)

theorem nftops_exact_witness:
  "\<exists>ops fs'. generate_nftops demo_env demo_ssh_server [SSH] Map.empty = (Inr ops, fs')
     \<and> ops ''sshpost'' = Some ''one/sshpost.nft'' \<and> dom ops = {''sshpre'', ''sshpost''}"
proof -
  have sets: "sets_due demo_ssh_server (set [SSH]) = {SshPre demo_ssh_server, SshPost demo_ssh_server}"
    by (simp add: sets_due_def)
  have "Ball (sets_due demo_ssh_server (set [SSH])) (writable demo_env demo_ssh_server)"
    unfolding sets by (simp add: writable_def set_rule_def generate_ssh_rule_def ssh_elements_def demo_env_def
        demo_ssh_server_def)
  moreover have "rule_path demo_ssh_server ''sshpost'' = ''one/sshpost.nft''"
    by (simp add: rule_path_def demo_ssh_server_def demo_server_def)
  ultimately show ?thesis
    using nftops_exact [where env = demo_env and s = demo_ssh_server and actions = "[SSH]" and fs = Map.empty]
    unfolding sets by (auto split: prod.splits sum.splits)
qed

definition demo_records :: "GeoRecord list" where
  "demo_records = [\<lparr>gr_start = ''1.0.1.0'', gr_end = ''1.0.3.255'', gr_country = ''CN''\<rparr>,
     \<lparr>gr_start = ''1.0.1.0'', gr_end = ''1.0.3.255'', gr_country = ''US''\<rparr>]"

lemma demo_records_v4: "list_all v4_record demo_records"
proof -
  have "parse_ip ''1.0.1.0'' = Some (V4 1 0 1 0)" "parse_ip ''1.0.3.255'' = Some (V4 1 0 3 255)"
    by (simp_all add: parse_ip_def parse_v4_def parse_octet_def to_digit_def digit_val_def ascii_defs)
  then show ?thesis by (simp add: demo_records_def v4_record_def)
qed

lemma v4_good: "v4_record r \<Longrightarrow> good_record r"
  by (auto simp: v4_record_def good_record_def)

theorem outblock_exact_witness:
  "\<exists>g. create_geoip_db (map Inr demo_records) None = (Inr (), Some g)
     \<and> ''1.0.1.0-1.0.3.255'' \<in> set (country_ranges (geoip4 g) [(''1.0.1.0'', ''1.0.3.255'')] [''CN''])"
proof -
  have good: "list_all good_record demo_records" using demo_records_v4 v4_good by (auto simp: list_all_iff)
  have flt: "filter v4_record demo_records = demo_records"
    using demo_records_v4 by (simp add: filter_id_conv list_all_iff)
  obtain g where g: "try_fold add_record \<lparr>geoip4 = Map.empty, geoip6 = Map.empty\<rparr> (map Inr demo_records) = Inr g"
    and tab: "\<forall>k. geoip4 g k = map_option gr_country (find (\<lambda>r. geo_key r = k) demo_records)"
    using add_records_ok [OF good, of "\<lparr>geoip4 = Map.empty, geoip6 = Map.empty\<rparr>"] flt by auto
  have cr: "create_geoip_db (map Inr demo_records) None = (Inr (), Some g)" using g by (simp add: create_geoip_db_def)
  have "geoip4 g k \<noteq> None \<longleftrightarrow> k = (''1.0.1.0'', ''1.0.3.255'')" for k
    unfolding tab [rule_format] demo_records_def geo_key_def by auto
  then have walk: "is_walk [(''1.0.1.0'', ''1.0.3.255'')] (dom (geoip4 g))"
    unfolding is_walk_def dom_def by auto
  let ?r = "hd demo_records"
  have "?r \<in> set demo_records" "v4_record ?r" "gr_country ?r \<in> set [''CN'']"
    "find (\<lambda>q. geo_key q = geo_key ?r) (filter v4_record demo_records) = Some ?r"
    using demo_records_v4 unfolding flt by (simp_all add: demo_records_def)
  then have "gr_start ?r @ ''-'' @ gr_end ?r \<in> set (country_ranges (geoip4 g) [(''1.0.1.0'', ''1.0.3.255'')] [''CN''])"
    unfolding outblock_exact [OF good cr walk] by (intro image_eqI [where x = ?r] CollectI conjI refl)
  then show ?thesis using cr by (auto simp: demo_records_def)
qed

theorem malformed_geoip_blocks_setup_witness:
  "\<exists>e e' fs'. create_geoip_db [Inl (External ''csv'')] None = (Inl e, None)
     \<and> generate_nftops (demo_env\<lparr>nv_geoip := None\<rparr>) demo_ssh_server [FullSetup] Map.empty = (Inl e', fs')"
  using malformed_geoip_blocks_setup [of "Inl (External ''csv'')" "[Inl (External ''csv'')]" "[FullSetup]" None
      demo_env demo_ssh_server Map.empty]
  by (auto simp: add_record_def)

end
