(* ===== verification/Xui_Backups.thy ===== *)
theory Xui_Backups
  imports Samples "HOL-Library.Multiset"
begin

text \<open>
  \<^verbatim>\<open>src/xui/db.rs\<close>: the backups of the panel databases, one directory for all servers.

  The directory is the list of its readable entries in the order the file system yields them
  (\<open>None\<close> while it does not exist); an entry has a name, if that is text, and a creation time, if
  it can be read. Removing a file answers with \<open>rm\<close>. Paths of one directory compare as their names.
\<close>

record DbFile =
  df_name :: "string option"
  df_created :: "nat option"

type_synonym Dir = "DbFile list option"
type_synonym 'a on_dir = "(Dir, BoxError, 'a) call"

definition RETAINED_XUI_DBNUM :: nat where
  "RETAINED_XUI_DBNUM = 4320"

definition is_backup_of :: "KetServer \<Rightarrow> string \<Rightarrow> bool" where
  "is_backup_of server name \<longleftrightarrow> starts_with (srv_name server @ ''-'') name \<and> ends_with ''backup.db'' name"

definition backup_name :: "KetServer \<Rightarrow> DbFile \<Rightarrow> string option" where
  "backup_name server f = (case df_name f of
     Some name \<Rightarrow> (if is_backup_of server name then Some name else None) | None \<Rightarrow> None)"

definition last_xui_db :: "KetServer \<Rightarrow> Dir \<Rightarrow> string res" where
  "last_xui_db server dir =
     and_then (ok_or dir (External ''No such file or directory'')) (\<lambda>entries.
     case List.map_filter (backup_name server) entries of
       [] \<Rightarrow> Inl NoBackup
     | n # ns \<Rightarrow> Inr (fold max ns n))"

record FileEntry =
  fe_path :: string
  fe_created_time :: nat

definition file_entry :: "KetServer \<Rightarrow> DbFile \<Rightarrow> FileEntry option" where
  "file_entry server f = (case (backup_name server f, df_created f) of
     (Some name, Some t) \<Rightarrow> Some \<lparr>fe_path = name, fe_created_time = t\<rparr> | _ \<Rightarrow> None)"

definition remove_file :: "(string \<Rightarrow> unit res) \<Rightarrow> string \<Rightarrow> unit on_dir" where
  "remove_file rm path =
     via (pure (rm path)) (\<lambda>_ dir. (Inr (), map_option (filter (\<lambda>f. df_name f \<noteq> Some path)) dir))"

definition newest_first :: "FileEntry list \<Rightarrow> FileEntry list" where
  "newest_first dbs = sort_key (\<lambda>f. - int (fe_created_time f)) dbs"

definition prune_xui_backups :: "(string \<Rightarrow> unit res) \<Rightarrow> KetServer \<Rightarrow> unit on_dir" where
  "prune_xui_backups rm server dir =
     (case dir of
        None \<Rightarrow> (Inr (), dir)
      | Some entries \<Rightarrow>
          (let all_dbs = newest_first (List.map_filter (file_entry server) entries);
               count = min RETAINED_XUI_DBNUM (length all_dbs)
           in if length all_dbs > count
              then via_each (\<lambda>_ db. remove_file rm (fe_path db)) () (drop count all_dbs) dir
              else (Inr (), dir)))"

definition delete_xui_backups :: "(string \<Rightarrow> unit res) \<Rightarrow> KetServer \<Rightarrow> unit on_dir" where
  "delete_xui_backups rm server dir =
     (case dir of
        None \<Rightarrow> (Inr (), dir)
      | Some entries \<Rightarrow>
          via_each (\<lambda>_ p. remove_file rm p) () (List.map_filter (backup_name server) entries) dir)"

section \<open>Whose backup a file is\<close>

text \<open>Proper names hold no dash, so a file is a backup of at most one server.\<close>

lemma proper_no_dash: "is_proper nm \<Longrightarrow> CHR ''-'' \<notin> set nm"
  by (auto simp: is_proper_def list_all_iff alnum_def ascii_defs)

lemma backup_of_one_server:
  assumes "is_backup_of s f" "is_backup_of t f" "is_proper (srv_name s)" "is_proper (srv_name t)"
  shows "srv_name s = srv_name t"
proof -
  from assms(1,2) obtain u v where "f = srv_name s @ CHR ''-'' # u" "f = srv_name t @ CHR ''-'' # v"
    by (auto simp: is_backup_of_def starts_with_iff)
  then have "split_at (CHR ''-'') f = srv_name s # split_at (CHR ''-'') u"
    "split_at (CHR ''-'') f = srv_name t # split_at (CHR ''-'') v"
    using proper_no_dash [OF assms(3)] proper_no_dash [OF assms(4)] by (metis split_at_sep)+
  then show ?thesis by simp
qed

section \<open>Removing files\<close>

lemma remove_files_ok:
  assumes "\<forall>p \<in> set ps. rm p = Inr ()"
  shows "via_each (\<lambda>_ p. remove_file rm p) () ps (Some entries)
    = (Inr (), Some (filter (\<lambda>f. \<forall>p \<in> set ps. df_name f \<noteq> Some p) entries))"
  using assms
proof (induction ps arbitrary: entries)
  case (Cons p ps)
  have "remove_file rm p (Some entries) = (Inr (), Some (filter (\<lambda>f. df_name f \<noteq> Some p) entries))"
    using Cons.prems by (simp add: remove_file_def)
  then show ?case using Cons by (simp add: conj_commute)
qed (simp add: pure_def)

lemma via_each_map: "via_each (\<lambda>u x. f u (g x)) u xs = via_each f u (map g xs)"
  by (induction xs arbitrary: u) simp_all

lemma map_filter_inj:
  assumes "distinct (List.map_filter h xs)" "x \<in> set xs" "y \<in> set xs" "h x = Some v" "h y = Some v"
  shows "x = y"
  using assms
proof (induction xs)
  case (Cons z zs)
  have mem: "v \<in> set (List.map_filter h zs)" if "u \<in> set zs" "h u = Some v" for u
    using that by (auto simp: List.map_filter_def intro!: image_eqI [of _ _ u])
  show ?case
    using Cons mem by (cases "h z") (auto simp: List.map_filter_simps)
qed simp

lemma file_entry_Some: "file_entry s f = Some e \<Longrightarrow> df_name f = Some (fe_path e) \<and> is_backup_of s (fe_path e)"
  by (auto simp: file_entry_def backup_name_def split: option.splits if_splits)

lemma set_map_filter_iff: "e \<in> set (List.map_filter h xs) \<longleftrightarrow> (\<exists>x \<in> set xs. h x = Some e)"
  by (induction xs) (auto simp: List.map_filter_simps split: option.splits)

lemma entry_paths_distinct:
  assumes "distinct (List.map_filter df_name entries)"
  shows "distinct (map fe_path (List.map_filter (file_entry s) entries))"
  using assms
proof (induction entries)
  case (Cons f fs)
  have sub: "fe_path ` set (List.map_filter (file_entry s) fs) \<subseteq> set (List.map_filter df_name fs)"
    using file_entry_Some by (fastforce simp: set_map_filter_iff)
  show ?case
  proof (cases "file_entry s f")
    case None
    then show ?thesis using Cons by (auto simp: List.map_filter_simps split: option.splits)
  next
    case (Some e)
    then have "df_name f = Some (fe_path e)" using file_entry_Some by blast
    then show ?thesis using Cons Some sub by (auto simp: List.map_filter_simps)
  qed
qed (simp add: List.map_filter_simps)

lemma map_filter_filter:
  assumes "\<And>f e. h f = Some e \<Longrightarrow> P f = Q e"
  shows "List.map_filter h (filter P xs) = filter Q (List.map_filter h xs)"
  using assms by (induction xs) (auto simp: List.map_filter_simps split: option.splits)

lemma filter_not_dropped:
  assumes "distinct (map k xs)"
  shows "filter (\<lambda>x. k x \<notin> k ` set (drop n xs)) xs = take n xs"
proof -
  have "distinct (map k (take n xs @ drop n xs))" using assms by simp
  then have disj: "k ` set (take n xs) \<inter> k ` set (drop n xs) = {}" by (simp del: append_take_drop_id)
  have "filter (\<lambda>x. k x \<notin> k ` set (drop n xs)) (take n xs @ drop n xs) = take n xs"
    using disj by (auto simp: filter_id_conv filter_empty_conv simp del: append_take_drop_id)
  then show ?thesis by simp
qed

text \<open>The datable backups of a server, newest first.\<close>

definition backups :: "KetServer \<Rightarrow> DbFile list \<Rightarrow> FileEntry list" where
  "backups s entries = newest_first (List.map_filter (file_entry s) entries)"

lemma backups_sorted:
  assumes "e \<in> set (drop n (backups s entries))" "d \<in> set (take n (backups s entries))"
  shows "fe_created_time e \<le> fe_created_time d"
proof -
  have "sorted (map (\<lambda>f. - int (fe_created_time f)) (take n (backups s entries) @ drop n (backups s entries)))"
    by (simp add: backups_def newest_first_def)
  then have "- int (fe_created_time d) \<le> - int (fe_created_time e)"
    using assms by (auto simp: sorted_append simp del: append_take_drop_id)
  then show ?thesis by simp
qed

lemma set_backups: "e \<in> set (backups s entries) \<longleftrightarrow> (\<exists>f \<in> set entries. file_entry s f = Some e)"
  by (simp add: backups_def newest_first_def set_map_filter_iff)

lemma backups_left:
  assumes "distinct (List.map_filter df_name entries)" "D = drop n (backups s entries)"
    "left = filter (\<lambda>f. \<forall>p \<in> set (map fe_path D). df_name f \<noteq> Some p) entries"
  shows "set (List.map_filter (file_entry s) left) = set (take n (backups s entries))"
    "length (List.map_filter (file_entry s) left) = min n (length (backups s entries))"
proof -
  let ?F = "List.map_filter (file_entry s) entries"
  let ?Q = "\<lambda>e. fe_path e \<notin> fe_path ` set D"
  have left: "List.map_filter (file_entry s) left = filter ?Q ?F"
    unfolding assms(3) by (rule map_filter_filter) (use file_entry_Some in fastforce)
  have m: "mset (backups s entries) = mset ?F" by (simp add: backups_def newest_first_def)
  then have "distinct (map fe_path (backups s entries))"
    using entry_paths_distinct [OF assms(1), of s] by (metis mset_eq_imp_distinct_iff mset_map)
  then have take: "filter ?Q (backups s entries) = take n (backups s entries)"
    unfolding assms(2) by (rule filter_not_dropped)
  have "mset (filter ?Q ?F) = mset (filter ?Q (backups s entries))" using m by (metis mset_filter)
  then have eq: "mset (List.map_filter (file_entry s) left) = mset (take n (backups s entries))"
    by (simp only: left take)
  show "set (List.map_filter (file_entry s) left) = set (take n (backups s entries))"
    using eq by (metis set_mset_mset)
  show "length (List.map_filter (file_entry s) left) = min n (length (backups s entries))"
    using eq by (metis length_take min.commute size_mset)
qed

text \<open>
  C32. Pruning keeps the newest backups: if files can be removed, then afterwards at most the
  retained number of datable backups of the server is left; each removed file is a backup of that
  server and is no newer than any of them, and no other file is touched.
\<close>

theorem prune_keeps_newest:
  assumes "\<forall>p. rm p = Inr ()" "distinct (List.map_filter df_name entries)"
  shows "\<exists>left. prune_xui_backups rm s (Some entries) = (Inr (), Some left) \<and> set left \<subseteq> set entries
    \<and> length (List.map_filter (file_entry s) left) = min RETAINED_XUI_DBNUM (length (List.map_filter (file_entry s) entries))
    \<and> (\<forall>f \<in> set entries - set left. \<exists>e. file_entry s f = Some e
         \<and> (\<forall>g \<in> set left. \<forall>d. file_entry s g = Some d \<longrightarrow> fe_created_time e \<le> fe_created_time d))"
proof -
  let ?n = "min RETAINED_XUI_DBNUM (length (backups s entries))"
  let ?D = "drop ?n (backups s entries)"
  let ?left = "filter (\<lambda>f. \<forall>p \<in> set (map fe_path ?D). df_name f \<noteq> Some p) entries"
  note left = backups_left [OF assms(2) refl [of ?D] refl]
  have "prune_xui_backups rm s (Some entries) = (Inr (), Some ?left)"
  proof (cases "?n < length (backups s entries)")
    case True
    then show ?thesis
      using remove_files_ok [of "map fe_path ?D" rm entries] assms(1)
      by (simp add: prune_xui_backups_def Let_def via_each_map [of "\<lambda>_. remove_file rm" fe_path, symmetric]
          backups_def [symmetric])
  next
    case False
    then show ?thesis by (simp add: prune_xui_backups_def Let_def backups_def)
  qed
  moreover have "\<exists>e. file_entry s f = Some e
      \<and> (\<forall>g \<in> set ?left. \<forall>d. file_entry s g = Some d \<longrightarrow> fe_created_time e \<le> fe_created_time d)"
    if f: "f \<in> set entries - set ?left" for f
  proof -
    from f obtain e where e: "e \<in> set ?D" "df_name f = Some (fe_path e)" "f \<in> set entries" by auto
    then obtain f' where f': "f' \<in> set entries" "file_entry s f' = Some e"
      using set_backups in_set_dropD by metis
    have "f' = f" using map_filter_inj [OF assms(2) f'(1) e(3)] file_entry_Some [OF f'(2)] e(2) by blast
    moreover have "fe_created_time e \<le> fe_created_time d" if "g \<in> set ?left" "file_entry s g = Some d" for g d
    proof -
      have "d \<in> set (List.map_filter (file_entry s) ?left)" using that by (auto simp: set_map_filter_iff)
      then show ?thesis using backups_sorted [OF e(1)] left(1) by blast
    qed
    ultimately show ?thesis using f'(2) by blast
  qed
  moreover have "length (backups s entries) = length (List.map_filter (file_entry s) entries)"
    by (simp add: backups_def newest_first_def)
  ultimately show ?thesis using left(2) by (intro exI [of _ ?left]) auto
qed

text \<open>
  The backups of other servers are safe: deleting the backups of a server, as a new full setup
  does, removes exactly the files that are backups of it, and none of them is a backup of another
  server with a proper name.
\<close>

lemma delete_backups_exact:
  assumes "\<forall>p. rm p = Inr ()" "is_proper (srv_name s)" "is_proper (srv_name t)" "srv_name t \<noteq> srv_name s"
  shows "\<exists>left. delete_xui_backups rm s (Some entries) = (Inr (), Some left)
    \<and> left = filter (\<lambda>f. backup_name s f = None) entries
    \<and> List.map_filter (backup_name t) left = List.map_filter (backup_name t) entries"
proof -
  let ?ps = "List.map_filter (backup_name s) entries"
  have "delete_xui_backups rm s (Some entries) = (Inr (), Some (filter (\<lambda>f. \<forall>p \<in> set ?ps. df_name f \<noteq> Some p) entries))"
    using remove_files_ok [of ?ps rm entries] assms(1) by (simp add: delete_xui_backups_def)
  moreover have "(\<forall>p \<in> set ?ps. df_name f \<noteq> Some p) \<longleftrightarrow> backup_name s f = None" if "f \<in> set entries" for f
    using that by (auto simp: set_map_filter_iff backup_name_def split: option.splits if_splits)
  then have "filter (\<lambda>f. \<forall>p \<in> set ?ps. df_name f \<noteq> Some p) entries = filter (\<lambda>f. backup_name s f = None) entries"
    by (rule filter_cong [OF refl])
  moreover have "List.map_filter (backup_name t) (filter (\<lambda>f. backup_name s f = None) xs) = List.map_filter (backup_name t) xs" for xs
  proof -
    have "backup_name s f = None" if "backup_name t f = Some p" for f p
      using that backup_of_one_server [OF _ _ assms(2,3)] assms(4)
      by (auto simp: backup_name_def split: option.splits if_splits)
    then show ?thesis by (induction xs) (auto simp: List.map_filter_simps split: option.splits)
  qed
  ultimately show ?thesis by simp
qed

section \<open>Concrete instances\<close>

definition demo_dir :: "DbFile list" where
  "demo_dir = [\<lparr>df_name = Some ''one-1-backup.db'', df_created = Some 1\<rparr>,
     \<lparr>df_name = Some ''two-1-backup.db'', df_created = Some 2\<rparr>, \<lparr>df_name = None, df_created = None\<rparr>]"

lemma demo_dir_distinct: "distinct (List.map_filter df_name demo_dir)"
  by (simp add: demo_dir_def List.map_filter_simps)

text \<open>Three more backups of one server than are kept.\<close>

definition demo_backup :: "nat \<Rightarrow> DbFile" where
  "demo_backup n = \<lparr>df_name = Some (''one-'' @ replicate n CHR ''1'' @ ''-backup.db''), df_created = Some n\<rparr>"

lemma demo_backup_entry:
  "file_entry (demo_server ''one'' 1 ''one.org'' Production) (demo_backup n)
     = Some \<lparr>fe_path = ''one-'' @ replicate n CHR ''1'' @ ''-backup.db'', fe_created_time = n\<rparr>"
proof -
  have "starts_with ''one-'' (''one-'' @ t)" for t by (simp add: starts_with_iff)
  moreover have "ends_with ''backup.db'' (''one-'' @ t @ ''-backup.db'')" for t
    unfolding ends_with_iff by (rule exI [of _ "''one-'' @ t @ ''-''"]) simp
  ultimately show ?thesis
    by (simp add: file_entry_def backup_name_def is_backup_of_def demo_backup_def demo_server_def)
qed

lemma map_filter_all: "(\<And>x. x \<in> set xs \<Longrightarrow> f x = Some (g x)) \<Longrightarrow> List.map_filter f xs = map g xs"
  by (induction xs) (simp_all add: List.map_filter_simps)

theorem prune_keeps_newest_witness:
  "\<exists>left f. prune_xui_backups (\<lambda>_. Inr ()) (demo_server ''one'' 1 ''one.org'' Production) (Some (map demo_backup [0..<4323])) = (Inr (), Some left)
     \<and> length (List.map_filter (file_entry (demo_server ''one'' 1 ''one.org'' Production)) left) = 4320
     \<and> f \<in> demo_backup ` {0..<4323} - set left"
proof -
  let ?s = "demo_server ''one'' 1 ''one.org'' Production" and ?dir = "map demo_backup [0..<4323]"
  have "List.map_filter df_name ?dir = map (\<lambda>f. the (df_name f)) ?dir"
    by (rule map_filter_all) (auto simp: demo_backup_def)
  moreover have "inj_on ((\<lambda>f. the (df_name f)) \<circ> demo_backup) A" for A
    by (rule inj_onI) (simp add: demo_backup_def)
  ultimately have dist: "distinct (List.map_filter df_name ?dir)" by (simp add: distinct_map del: upt_rec_numeral)
  have entries: "List.map_filter (file_entry ?s) xs = map (\<lambda>f. the (file_entry ?s f)) xs" if "set xs \<subseteq> range demo_backup" for xs
    using that by (intro map_filter_all) (auto simp: demo_backup_entry)
  have "length (List.map_filter (file_entry ?s) ?dir) = 4323"
    by (subst entries) (auto simp del: upt_rec_numeral)
  moreover obtain left where left: "prune_xui_backups (\<lambda>_. Inr ()) ?s (Some ?dir) = (Inr (), Some left)" "set left \<subseteq> set ?dir"
    "length (List.map_filter (file_entry ?s) left) = min RETAINED_XUI_DBNUM (length (List.map_filter (file_entry ?s) ?dir))"
    using prune_keeps_newest [OF _ dist, of "\<lambda>_. Inr ()" ?s] by auto
  ultimately have n: "length (List.map_filter (file_entry ?s) left) = 4320" by (simp add: RETAINED_XUI_DBNUM_def)
  have "List.map_filter (file_entry ?s) left = map (\<lambda>f. the (file_entry ?s f)) left"
    by (rule entries) (use left(2) in auto)
  with n have "card (set left) \<le> 4320" using card_length [of left] by simp
  moreover have "card (demo_backup ` {0..<4323}) = 4323"
    by (subst card_image) (auto intro!: inj_onI simp: demo_backup_def)
  ultimately have "\<not> demo_backup ` {0..<4323} \<subseteq> set left"
    using card_mono [of "set left" "demo_backup ` {0..<4323}"] by auto
  with left(1) n show ?thesis by blast
qed

theorem delete_backups_exact_witness:
  "\<exists>left. delete_xui_backups (\<lambda>_. Inr ()) (demo_server ''one'' 1 ''one.org'' Production) (Some demo_dir) = (Inr (), Some left)
     \<and> List.map_filter (backup_name (demo_server ''two'' 2 ''two.org'' Production)) left
       = List.map_filter (backup_name (demo_server ''two'' 2 ''two.org'' Production)) demo_dir"
proof -
  have "is_proper (srv_name (demo_server ''one'' 1 ''one.org'' Production))"
    "is_proper (srv_name (demo_server ''two'' 2 ''two.org'' Production))"
    "srv_name (demo_server ''two'' 2 ''two.org'' Production) \<noteq> srv_name (demo_server ''one'' 1 ''one.org'' Production)"
    by (simp_all add: demo_server_def is_proper_def alnum_def ascii_defs)
  from delete_backups_exact [OF _ this, of "\<lambda>_. Inr ()" demo_dir] show ?thesis by auto
qed

end
