(* ===== verification/Provisioning.thy ===== *)
theory Provisioning
  imports Daemon Nft_Props Xui_Backups
begin

text \<open>
  Running Ansible on a server, \<open>AnsibleRun\<close>, \<open>full_setup\<close> and \<open>destroy_server\<close> of
  \<^verbatim>\<open>src/ansible.rs\<close>.

  The files an Ansible run writes are the state \<open>Files\<close> of \<open>Nft_Rules\<close>; serializing, the
  \<open>ansible\<close> and \<open>ansible-playbook\<close> processes and the replies of the daemon are fields of \<open>RunEnv\<close>
  and \<open>ProvEnv\<close>. The ten seconds of grace before a setup and logging are left out.
\<close>

section \<open>Variables of a run\<close>

record AnsibleVars =
  av_ansible_tasks :: "string list"
  av_full_setup :: bool
  av_data_dir :: string
  av_node_name :: string
  av_base_hostname :: string
  av_node_region :: string
  av_ssh_port :: u16
  av_dns_subdomain :: string
  av_ui_subdomain :: string
  av_sub_subdomain :: string
  av_secrets :: Secrets
  av_cloudflare_proxied :: bool
  av_cloudflare_state :: CFState
  av_unbound_https_port :: u16
  av_ui_webport :: u16
  av_sub_port :: u16
  av_new_ports :: "u16 list"
  av_nftops :: "string \<rightharpoonup> string"
  av_inbound_data :: "Inbound list"
  av_sublinks_suffix :: string
  av_jsublinks_suffix :: string
  av_rebase_data :: "RebaseData option"
  av_extra :: "string \<rightharpoonup> string"

definition SUBLINKS_SUFFIX :: string where
  "SUBLINKS_SUFFIX = ''_sublinks.txt''"

definition JSON_SUBLINKS_SUFFIX :: string where
  "JSON_SUBLINKS_SUFFIX = ''_json_sublinks.txt''"

definition hidden_secret :: string where
  "hidden_secret = ''******''"

definition hide_secrets :: "AnsibleVars \<Rightarrow> AnsibleVars" where
  "hide_secrets v = v\<lparr>av_secrets := \<lparr>health_path = hidden_secret, doh_endpoint = hidden_secret,
     xui_username = hidden_secret, xui_password = hidden_secret, xui_token = Some hidden_secret,
     xui_webpath = hidden_secret, xui_subpath = hidden_secret, xui_jsubpath = hidden_secret,
     mother_subids = Map.empty\<rparr>\<rparr>"

record AnsibleRun =
  ar_server :: KetServer
  ar_actions :: "AnsibleAction list"
  ar_stream_it :: bool
  ar_rebase_data :: "RebaseData option"

record RunEnv =
  re_nft :: NftEnv
  re_data_dir :: string
  re_backups :: Dir
  re_inventory_json :: "(string \<rightharpoonup> AnsibleConn) \<Rightarrow> string res"
  re_vars_json :: "AnsibleVars \<Rightarrow> string res"
  re_vars_yaml :: "AnsibleVars \<Rightarrow> string res"
  re_cf_auth :: "string res"
  re_ping :: "(bool \<times> string) res"
  re_stream_all :: bool
  re_playbook :: "string \<Rightarrow> string \<Rightarrow> (bool \<times> string \<times> string) res"
  re_log_time :: string

definition inbound_data :: "KetServer \<Rightarrow> Inbound list" where
  "inbound_data s = filter (\<lambda>inb. inb_name inb \<noteq> super_name) (srv_inbounds s)"

definition extra_vars :: "RunEnv \<Rightarrow> AnsibleRun \<Rightarrow> (string \<rightharpoonup> string) res" where
  "extra_vars env ar =
     (if XrayRestoreDB \<in> set (ar_actions ar)
      then and_then (last_xui_db (ar_server ar) (re_backups env)) (\<lambda>path. Inr [''latest_backup'' \<mapsto> path])
      else Inr Map.empty)"

definition effective_proxied :: "KetServer \<Rightarrow> CFState \<Rightarrow> bool" where
  "effective_proxied s cf =
     (if too_deep cf \<and> srv_cloudflare_proxied s then False else srv_cloudflare_proxied s)"

definition new_ports :: "KetServer \<Rightarrow> AnsibleConn \<Rightarrow> bool \<Rightarrow> RebaseData option \<Rightarrow> u16 list" where
  "new_ports s conn is_full_setup rebase_data =
     (if ansible_port conn \<noteq> Some (srv_ssh_port s) then [srv_ssh_port s] else [])
     @ (if is_full_setup then [UNBOUND_PORT, UI_PORT, SUB_PORT]
        else case rebase_data of None \<Rightarrow> []
          | Some data \<Rightarrow> filter (\<lambda>p. p \<notin> set (map inb_port (removed_inbounds data)))
              (map inb_port (added_inbounds data)))"

definition localhost_conn :: AnsibleConn where
  "localhost_conn = \<lparr>ansible_host = None, ansible_port = None, ansible_user = None,
     ansible_connection = Some ''local''\<rparr>"

text \<open>The second insertion replaces the first if the server has this name.\<close>

definition inventory_hosts :: "KetServer \<Rightarrow> AnsibleConn \<Rightarrow> string \<rightharpoonup> AnsibleConn" where
  "inventory_hosts s conn = Map.empty(srv_name s \<mapsto> conn, ''localhost'' \<mapsto> localhost_conn)"

definition make_vars ::
  "RunEnv \<Rightarrow> AnsibleRun \<Rightarrow> AnsibleTasks \<Rightarrow> CFState \<Rightarrow> AnsibleConn \<Rightarrow> (string \<rightharpoonup> string) \<Rightarrow> (string \<rightharpoonup> string) \<Rightarrow> AnsibleVars" where
  "make_vars env ar tasks_and_id cf conn nftops extra =
     (let s = ar_server ar; full = FullSetup \<in> set (ar_actions ar) in
      \<lparr>av_ansible_tasks = at_tasks tasks_and_id, av_full_setup = full, av_data_dir = re_data_dir env, av_node_name = srv_name s,
       av_base_hostname = srv_domain s, av_node_region = srv_region s, av_ssh_port = srv_ssh_port s,
       av_dns_subdomain = srv_dns_subdomain s, av_ui_subdomain = srv_ui_subdomain s,
       av_sub_subdomain = srv_sub_subdomain s, av_secrets = srv_secrets s,
       av_cloudflare_proxied = effective_proxied s cf, av_cloudflare_state = cf,
       av_unbound_https_port = UNBOUND_PORT, av_ui_webport = UI_PORT, av_sub_port = SUB_PORT,
       av_new_ports = new_ports s conn full (ar_rebase_data ar), av_nftops = nftops,
       av_inbound_data = inbound_data s, av_sublinks_suffix = SUBLINKS_SUFFIX,
       av_jsublinks_suffix = JSON_SUBLINKS_SUFFIX, av_rebase_data = ar_rebase_data ar, av_extra = extra\<rparr>)"

record AnsibleData =
  ad_ansible_vars :: string
  ad_inventory_path :: string
  ad_stdout_path :: string
  ad_stderr_path :: string

definition server_file :: "KetServer \<Rightarrow> string \<Rightarrow> string \<Rightarrow> string" where
  "server_file s ident suffix = srv_name s @ ''/'' @ srv_name s @ ''-'' @ ident @ suffix"

definition log_file :: "RunEnv \<Rightarrow> KetServer \<Rightarrow> string \<Rightarrow> string \<Rightarrow> string" where
  "log_file env s ident suffix = srv_name s @ ''-'' @ ident @ ''-'' @ re_log_time env @ suffix"

definition write_ansible_vars :: "RunEnv \<Rightarrow> AnsibleRun \<Rightarrow> (AnsibleData \<times> AnsibleRun) on_files" where
  "write_ansible_vars env ar0 =
     (let s = ar_server ar0; nft = re_nft env in
      via (pure (nv_write nft (srv_name s))) (\<lambda>_.
      via (pure (extra_vars env ar0)) (\<lambda>extra.
      via (pure (ok_or (srv_cfstate s) CfStateMissing)) (\<lambda>cf.
      let ar = ar0\<lparr>ar_actions := sort_unique (ar_actions ar0)\<rparr> in
      via (pure (ok_or (srv_ansible_conn s) (ConnMissing (srv_name s)))) (\<lambda>conn.
      via (generate_nftops nft s (ar_actions ar)) (\<lambda>nftops.
      let tasks_and_id = task_gen (ar_actions ar);
          ident = at_id tasks_and_id;
          vars = make_vars env ar tasks_and_id cf conn nftops extra in
      via (pure (re_inventory_json env (inventory_hosts s conn))) (\<lambda>inventory_json.
      via (write_file nft (server_file s ident ''-inventory.json'') inventory_json) (\<lambda>inventory_path.
      via (pure (re_vars_json env vars)) (\<lambda>vars_json.
      via (pure (re_vars_yaml env (hide_secrets vars))) (\<lambda>vars_yaml.
      via (write_file nft (server_file s ident ''-general_vars.yaml'') vars_yaml) (\<lambda>_.
      pure (Inr (\<lparr>ad_ansible_vars = vars_json, ad_inventory_path = inventory_path,
        ad_stdout_path = log_file env s ident ''-ansible-stdout.log'',
        ad_stderr_path = log_file env s ident ''-ansible-stderr.log''\<rparr>, ar)))))))))))))"

section \<open>A run\<close>

fun contains :: "string \<Rightarrow> string \<Rightarrow> bool" where
  "contains pat [] \<longleftrightarrow> pat = []"
| "contains pat (c # cs) \<longleftrightarrow> starts_with pat (c # cs) \<or> contains pat cs"

definition test_ssh :: "(bool \<times> string) res \<Rightarrow> unit res" where
  "test_ssh ping =
     and_then ping (\<lambda>(success, stdout).
     if success then Inr ()
     else if contains ''Permission denied'' stdout then Inl (External ''problem with the SSH key'')
     else if contains ''Connection timed out'' stdout \<or> contains ''No route to host'' stdout
     then Inl (External ''network/firewall issue or port mismatch'')
     else if contains ''Host key verification failed'' stdout then Inl (External ''host key verification failed'')
     else Inl (External stdout))"

text \<open>
  A streamed run collects the output line by line and ends every line; otherwise the output is
  taken as it is. The result is whether the process succeeded.
\<close>

definition collect_output :: "bool \<Rightarrow> string \<Rightarrow> string" where
  "collect_output streamed out = (if streamed then concat (map (\<lambda>l. l @ nl) (str_lines out)) else out)"

definition run_ansible :: "RunEnv \<Rightarrow> AnsibleRun \<Rightarrow> bool on_files" where
  "run_ansible env ar =
     via (write_ansible_vars env ar) (\<lambda>(data, ar').
     via (pure (re_cf_auth env)) (\<lambda>cf_auth.
     via (pure (test_ssh (re_ping env))) (\<lambda>_.
     let streamed = ar_stream_it ar' \<or> re_stream_all env in
     via (pure (re_playbook env (ad_ansible_vars data) cf_auth)) (\<lambda>(success, stdout, stderr).
     via (write_file (re_nft env) (ad_stdout_path data) (collect_output streamed stdout)) (\<lambda>_.
     via (write_file (re_nft env) (ad_stderr_path data) (collect_output streamed stderr)) (\<lambda>_.
     pure (Inr success)))))))"

section \<open>Provisioning and destroying\<close>

record ProvState =
  ps_site :: Site
  ps_backups :: Dir
  ps_requests :: "DaemonComm list"

record ProvEnv =
  pe_toml :: TomlCrate
  pe_run :: "AnsibleAction \<Rightarrow> bool res"
  pe_cred :: "string res"
  pe_rm :: "string \<Rightarrow> unit res"
  pe_found :: "bool res"
  pe_reloaded :: "unit res"

type_synonym 'a prov = "(ProvState, BoxError, 'a) call"

definition on_site :: "'a site_call \<Rightarrow> 'a prov" where
  "on_site c w = (let (r, site) = c (ps_site w) in (r, w\<lparr>ps_site := site\<rparr>))"

definition on_backups :: "'a on_dir \<Rightarrow> 'a prov" where
  "on_backups c w = (let (r, dir) = c (ps_backups w) in (r, w\<lparr>ps_backups := dir\<rparr>))"

definition request :: "DaemonComm \<Rightarrow> unit prov" where
  "request cmd w = (Inr (), w\<lparr>ps_requests := ps_requests w @ [cmd]\<rparr>)"

definition inquire_and_reload :: "ProvEnv \<Rightarrow> TaskEntry \<Rightarrow> unit prov" where
  "inquire_and_reload env entry =
     via (request (DSetupInquiry entry)) (\<lambda>_.
     via (pure (pe_found env)) (\<lambda>found.
     if found then pure (Inr ())
     else via (request DReload) (\<lambda>_. pure (pe_reloaded env))))"

definition full_setup :: "ProvEnv \<Rightarrow> unit prov" where
  "full_setup env w =
     (case pe_run env FullSetup of
        Inr True \<Rightarrow>
          (let server = site_server (ps_site w) in
           via (pure (pe_cred env)) (\<lambda>token.
           via (on_site (mark_server_production (pe_toml env) token)) (\<lambda>_.
           via (on_backups (delete_xui_backups (pe_rm env) server)) (\<lambda>_.
           inquire_and_reload env (FullSetupTask (srv_name server))))) w)
      | _ \<Rightarrow> (Inr (), w))"

definition destroy_server :: "ProvEnv \<Rightarrow> unit prov" where
  "destroy_server env w =
     (case pe_run env DestroyServer of
        Inr True \<Rightarrow>
          via (on_site (mark_server_offgrid (pe_toml env))) (\<lambda>_.
          inquire_and_reload env (DestroyTask (srv_name (site_server (ps_site w))))) w
      | _ \<Rightarrow> (Inr (), w))"

end
