(* ===== verification/Xui_Api.thy ===== *)
theory Xui_Api
  imports Xui_Backups
begin

text \<open>
  \<^verbatim>\<open>src/xui/api.rs\<close> and the response types it reads from \<^verbatim>\<open>src/xui/types.rs\<close>: the clients of a
  panel, the calls with a token, the table of clients, the download of a backup, and the login
  protocol of the calls with a cookie.

  Building the HTTP clients, the answers of the panel and decoding them are fields of \<open>PanelEnv\<close>.
  The cookie protocol runs in many tasks at once, so it is a machine: one step of a task is what
  it does between two awaits.
\<close>

section \<open>Response types\<close>

record 'a ApiResponse =
  api_success :: bool
  api_msg :: string
  api_obj :: 'a

record ClientStat =
  cst_id :: u32
  cst_inbound_id :: u32
  cst_enable :: bool
  cst_email :: string
  cst_uuid :: string
  cst_sub_id :: string
  cst_up :: u64
  cst_down :: u64
  cst_expiry_time :: "64 word"
  cst_total :: u64
  cst_reset :: u64
  cst_last_online :: u64

record ClientSetting =
  cse_comment :: string
  cse_created_at :: u64
  cse_updated_at :: u64
  cse_id :: string
  cse_limit_ip :: "64 word"
  cse_reset :: "64 word"
  cse_security :: string
  cse_sub_id :: string
  cse_tg_id :: "64 word"
  cse_total_gb :: u64

record CSettings =
  cs_clients :: "ClientSetting list"
  cs_decryption :: string
  cs_encryption :: string

record Sniffing =
  sn_enabled :: bool
  sn_dest_override :: "string list"
  sn_metadata_only :: bool
  sn_route_only :: bool

record XuiApiInbound =
  xi_id :: u32
  xi_up :: u64
  xi_down :: u64
  xi_total :: u64
  xi_remark :: string
  xi_sub_sort_index :: u32
  xi_enable :: bool
  xi_expiry_time :: u64
  xi_traffic_reset :: string
  xi_last_traffic_reset_time :: u64
  xi_listen :: string
  xi_port :: u16
  xi_protocol :: string
  xi_tag :: string
  xi_share_addr_strategy :: string
  xi_share_addr :: string
  xi_client_stats :: "ClientStat list"
  xi_settings :: CSettings
  xi_sniffing :: Sniffing

section \<open>Clients of a panel\<close>

record PanelEnv =
  pn_crates :: Crates
  pn_clients :: "string \<Rightarrow> unit res"
  pn_get :: "string \<Rightarrow> string \<Rightarrow> string res"
  pn_inbounds_json :: "string \<Rightarrow> XuiApiInbound list ApiResponse res"
  pn_now :: string
  pn_file :: "string \<Rightarrow> unit res"
  pn_created :: "nat option"

definition new_xui_client :: "PanelEnv \<Rightarrow> KetServer \<Rightarrow> KetServer res" where
  "new_xui_client env s =
     and_then (ok_or (xui_token (srv_secrets s)) (TokenMissing (srv_name s))) (\<lambda>token.
     and_then (pn_clients env token) (\<lambda>_.
     and_then (ok_or (url_parse (pn_crates env) (''https://'' @ uihostname s @ ''/'' @ xui_webpath (srv_secrets s) @ ''/''))
                 (External ''url'')) (\<lambda>url.
     Inr (s\<lparr>srv_xui := Some \<lparr>xu_url_global = url, xu_username = xui_username (srv_secrets s),
       xu_password = xui_password (srv_secrets s), xu_token = token, xu_cookie_count = 0\<rparr>\<rparr>))))"

text \<open>
  A call with the token: the cell of the server may be filled on the way. \<open>pn_get token suburl\<close> is the
  body of a successful answer, after \<open>error_for_status\<close>, for a client that sends this token.
\<close>

definition xui_get_call_token :: "PanelEnv \<Rightarrow> string \<Rightarrow> (KetServer, BoxError, string) call" where
  "xui_get_call_token env suburl s =
     (case srv_xui s of
        Some cred \<Rightarrow> (pn_get env (xu_token cred) suburl, s)
      | None \<Rightarrow>
          (case new_xui_client env s of
             Inl e \<Rightarrow> (Inl e, s)
           | Inr s' \<Rightarrow> (and_then (ok_or (srv_xui s') (External ''no client'')) (\<lambda>cred. pn_get env (xu_token cred) suburl), s')))"

definition xui_call_inbounds :: "PanelEnv \<Rightarrow> (KetServer, BoxError, XuiApiInbound list ApiResponse) call" where
  "xui_call_inbounds env =
     via (xui_get_call_token env ''panel/api/inbounds/list'') (\<lambda>body. pure (pn_inbounds_json env body))"

text \<open>The \<open>{:<20}\<close> of a format string: filled with blanks on the right, never cut.\<close>

definition pad :: "nat \<Rightarrow> string \<Rightarrow> string" where
  "pad n s = s @ replicate (n - length s) (CHR '' '')"

definition tab6 :: string where
  "tab6 = replicate 6 (CHR '' '')"

definition newline :: string where
  "newline = [char_of (10 :: nat)]"

definition clients_header :: string where
  "clients_header = pad 20 ''inbound'' @ pad 20 ''email'' @ tab6 @ ''sublink & json sublink'' @ newline
     @ replicate 120 (CHR ''-'') @ newline"

definition shown_client :: "ClientStat \<Rightarrow> bool" where
  "shown_client c \<longleftrightarrow> \<not> starts_with ''mother_inbound'' (cst_email c) \<and> cst_sub_id c \<noteq> []"

definition client_line :: "KetServer \<Rightarrow> XuiApiInbound \<Rightarrow> ClientStat \<Rightarrow> string" where
  "client_line s inb c =
     pad 20 (xi_remark inb) @ pad 20 (cst_email c) @ tab6
     @ ''https://'' @ subhostname s @ ''/'' @ xui_subpath (srv_secrets s) @ ''/'' @ cst_sub_id c @ tab6
     @ ''https://'' @ subhostname s @ ''/'' @ xui_jsubpath (srv_secrets s) @ ''/'' @ cst_sub_id c @ newline"

definition clients_table :: "KetServer \<Rightarrow> XuiApiInbound list \<Rightarrow> string" where
  "clients_table s inbs =
     foldl (\<lambda>acc inb. acc @ foldl (\<lambda>txt c. txt @ client_line s inb c) [] (filter shown_client (xi_client_stats inb)) @ newline)
       clients_header inbs"

definition xui_call_clients :: "PanelEnv \<Rightarrow> (KetServer, BoxError, string) call" where
  "xui_call_clients env s = via (xui_call_inbounds env) (\<lambda>resp. pure (Inr (clients_table s (api_obj resp)))) s"

text \<open>
  The download of a backup: the directory is made when it is missing, and creating a file of an
  existing name replaces it. A failing write leaves the file behind.
\<close>

definition backup_file :: "PanelEnv \<Rightarrow> KetServer \<Rightarrow> string" where
  "backup_file env s = srv_name s @ ''-'' @ pn_now env @ ''-xui-backup.db''"

definition put_file :: "PanelEnv \<Rightarrow> string \<Rightarrow> DbFile list \<Rightarrow> DbFile list" where
  "put_file env fname entries =
     filter (\<lambda>f. df_name f \<noteq> Some fname) entries @ [\<lparr>df_name = Some fname, df_created = pn_created env\<rparr>]"

definition xui_call_db :: "PanelEnv \<Rightarrow> (KetServer \<times> Dir, BoxError, unit) call" where
  "xui_call_db env w =
     (let (s, dir) = w in
      case xui_get_call_token env ''panel/api/server/getDb'' s of
        (Inl e, s') \<Rightarrow> (Inl e, (s', dir))
      | (Inr body, s') \<Rightarrow>
          (let entries = (case dir of None \<Rightarrow> [] | Some fs \<Rightarrow> fs) in
           (pn_file env body, (s', Some (put_file env (backup_file env s) entries)))))"

section \<open>The login protocol\<close>

text \<open>
  The calls to the panel of one server run in many tasks at once, so they are a machine; one step is one
  access to what they share: the cell \<open>xui\<close>, the counter inside the object the cell points to, and
  \<open>login_gate\<close>. Every object that \<open>new_xui_client\<close> makes has a counter of its own, which starts at zero
  when the object is stored in the cell, before any login; a task may go on with an object that the
  cell no longer holds. Calls with the token make clients as well when they find the cell empty, and without
  the gate. A task can be dropped at any time, which frees the gate it holds.

  \<open>pl_logins\<close> records the logins: the object, and its counter before. The first call for a cookie logs in
  for itself; a refused one logs in for a \<open>Renewal\<close>, after it was refused with an object at a counter.
\<close>

datatype LoginFor = FirstCall | Renewal nat u64

datatype CallPc =
    Begin | FirstGate | FirstLocked | Got nat | Sent nat u64
  | Check nat u64 | CheckCount nat u64 nat | GateWait nat u64 | Locked nat u64 | LockedCount nat u64 nat
  | LoginLoad LoginFor | LoginMake LoginFor | LoginReload LoginFor | Posting LoginFor nat | Storing LoginFor nat
  | LoggedIn LoginFor | ReloadLocked | RetryLocked | Retry
  | TokenBegin | TokenMake | TokenReload | TokenSent
  | Finished bool

record Panel =
  pl_cell :: "nat option"
  pl_count :: "nat \<Rightarrow> u64"
  pl_fresh :: nat
  pl_gate :: "nat option"
  pl_logins :: "(nat \<times> u64) list"
  pl_pc :: "nat \<Rightarrow> CallPc"

definition goto :: "nat \<Rightarrow> CallPc \<Rightarrow> Panel \<Rightarrow> Panel" where
  "goto i pc p = p\<lparr>pl_pc := (pl_pc p)(i := pc)\<rparr>"

definition release :: "nat \<Rightarrow> Panel \<Rightarrow> Panel" where
  "release i p = p\<lparr>pl_gate := if pl_gate p = Some i then None else pl_gate p\<rparr>"

definition finish :: "nat \<Rightarrow> bool \<Rightarrow> Panel \<Rightarrow> Panel" where
  "finish i success p = goto i (Finished success) (release i p)"

text \<open>The end of \<open>new_xui_client\<close>: a new object with the counter at zero is in the cell.\<close>

definition store_new :: "Panel \<Rightarrow> Panel" where
  "store_new p = p\<lparr>pl_cell := Some (pl_fresh p), pl_count := (pl_count p)(pl_fresh p := 0), pl_fresh := Suc (pl_fresh p)\<rparr>"

text \<open>All requests of a login succeeded: the counter of the object is raised.\<close>

definition logged_in :: "nat \<Rightarrow> Panel \<Rightarrow> Panel" where
  "logged_in obj p = p\<lparr>pl_count := (pl_count p)(obj := pl_count p obj + 1), pl_logins := pl_logins p @ [(obj, pl_count p obj)]\<rparr>"

inductive call_step :: "Panel \<Rightarrow> Panel \<Rightarrow> bool" where
  begin_some: "pl_pc p i = Begin \<Longrightarrow> pl_cell p = Some obj \<Longrightarrow> call_step p (goto i (Got obj) p)"
| begin_none: "pl_pc p i = Begin \<Longrightarrow> pl_cell p = None \<Longrightarrow> call_step p (goto i FirstGate p)"
| first_gate: "pl_pc p i = FirstGate \<Longrightarrow> pl_gate p = None \<Longrightarrow> call_step p (goto i FirstLocked (p\<lparr>pl_gate := Some i\<rparr>))"
| first_some: "pl_pc p i = FirstLocked \<Longrightarrow> pl_cell p = Some obj \<Longrightarrow> call_step p (goto i (Got obj) (release i p))"
| first_none: "pl_pc p i = FirstLocked \<Longrightarrow> pl_cell p = None \<Longrightarrow> call_step p (goto i (LoginLoad FirstCall) p)"
| sends: "pl_pc p i = Got obj \<Longrightarrow> call_step p (goto i (Sent obj (pl_count p obj)) p)"
| answered: "pl_pc p i = Sent obj c \<Longrightarrow> call_step p (finish i b p)"
| refused: "pl_pc p i = Sent obj c \<Longrightarrow> call_step p (goto i (Check obj c) p)"
| check_load: "pl_pc p i = Check obj c \<Longrightarrow> pl_cell p = Some now \<Longrightarrow> call_step p (goto i (CheckCount obj c now) p)"
| check_none: "pl_pc p i = Check obj c \<Longrightarrow> pl_cell p = None \<Longrightarrow> call_step p (finish i False p)"
| check_renewed: "pl_pc p i = CheckCount obj c now \<Longrightarrow> pl_count p now \<noteq> c \<Longrightarrow> call_step p (goto i Retry p)"
| check_same: "pl_pc p i = CheckCount obj c now \<Longrightarrow> pl_count p now = c \<Longrightarrow> call_step p (goto i (GateWait obj c) p)"
| enter_gate: "pl_pc p i = GateWait obj c \<Longrightarrow> pl_gate p = None \<Longrightarrow> call_step p (goto i (Locked obj c) (p\<lparr>pl_gate := Some i\<rparr>))"
| locked_load: "pl_pc p i = Locked obj c \<Longrightarrow> pl_cell p = Some now \<Longrightarrow> call_step p (goto i (LockedCount obj c now) p)"
| locked_none: "pl_pc p i = Locked obj c \<Longrightarrow> pl_cell p = None \<Longrightarrow> call_step p (finish i False p)"
| locked_renewed: "pl_pc p i = LockedCount obj c now \<Longrightarrow> pl_count p now \<noteq> c \<Longrightarrow> call_step p (goto i ReloadLocked p)"
| locked_same: "pl_pc p i = LockedCount obj c now \<Longrightarrow> pl_count p now = c \<Longrightarrow> call_step p (goto i (LoginLoad (Renewal obj c)) p)"
| login_some: "pl_pc p i = LoginLoad k \<Longrightarrow> pl_cell p = Some obj \<Longrightarrow> call_step p (goto i (Posting k obj) p)"
| login_none: "pl_pc p i = LoginLoad k \<Longrightarrow> pl_cell p = None \<Longrightarrow> call_step p (goto i (LoginMake k) p)"
| login_makes: "pl_pc p i = LoginMake k \<Longrightarrow> call_step p (goto i (LoginReload k) (store_new p))"
| login_make_fails: "pl_pc p i = LoginMake k \<Longrightarrow> call_step p (finish i False p)"
| login_reload: "pl_pc p i = LoginReload k \<Longrightarrow> pl_cell p = Some obj \<Longrightarrow> call_step p (goto i (Posting k obj) p)"
| login_ok: "pl_pc p i = Posting k obj \<Longrightarrow> call_step p (goto i (Storing k obj) (logged_in obj p))"
| login_fails: "pl_pc p i = Posting k obj \<Longrightarrow> call_step p (finish i False p)"
| login_stores: "pl_pc p i = Storing k obj \<Longrightarrow> call_step p (goto i (LoggedIn k) (p\<lparr>pl_cell := Some obj\<rparr>))"
| logged_first: "pl_pc p i = LoggedIn FirstCall \<Longrightarrow> pl_cell p = Some obj \<Longrightarrow> call_step p (goto i (Got obj) (release i p))"
| logged_again: "pl_pc p i = LoggedIn (Renewal obj c) \<Longrightarrow> call_step p (goto i ReloadLocked p)"
| reloads: "pl_pc p i = ReloadLocked \<Longrightarrow> pl_cell p = Some obj \<Longrightarrow> call_step p (goto i RetryLocked p)"
| retried_locked: "pl_pc p i = RetryLocked \<Longrightarrow> call_step p (finish i b p)"
| retried: "pl_pc p i = Retry \<Longrightarrow> call_step p (finish i b p)"
| token_some: "pl_pc p i = TokenBegin \<Longrightarrow> pl_cell p = Some obj \<Longrightarrow> call_step p (goto i TokenSent p)"
| token_none: "pl_pc p i = TokenBegin \<Longrightarrow> pl_cell p = None \<Longrightarrow> call_step p (goto i TokenMake p)"
| token_makes: "pl_pc p i = TokenMake \<Longrightarrow> call_step p (goto i TokenReload (store_new p))"
| token_make_fails: "pl_pc p i = TokenMake \<Longrightarrow> call_step p (finish i False p)"
| token_reload: "pl_pc p i = TokenReload \<Longrightarrow> pl_cell p = Some obj \<Longrightarrow> call_step p (goto i TokenSent p)"
| token_done: "pl_pc p i = TokenSent \<Longrightarrow> call_step p (finish i b p)"
| dropped: "pl_pc p i \<notin> range Finished \<Longrightarrow> call_step p (finish i False p)"

text \<open>
  The calls at the start: those in \<open>tokens\<close> use the token, all others the cookie. The cell holds clients
  whose session has not been used, or is empty; the start of a cycle fills it before any call
  is made.
\<close>

definition panel_start :: "bool \<Rightarrow> nat set \<Rightarrow> Panel" where
  "panel_start filled tokens = \<lparr>pl_cell = (if filled then Some 0 else None), pl_count = \<lambda>_. 0,
     pl_fresh = (if filled then 1 else 0), pl_gate = None, pl_logins = [],
     pl_pc = \<lambda>i. if i \<in> tokens then TokenBegin else Begin\<rparr>"

section \<open>One login at a time\<close>

fun logs_in :: "CallPc \<Rightarrow> bool" where
  "logs_in (LoginLoad _) = True"
| "logs_in (LoginMake _) = True"
| "logs_in (LoginReload _) = True"
| "logs_in (Posting _ _) = True"
| "logs_in (Storing _ _) = True"
| "logs_in _ = False"

fun holds_gate :: "CallPc \<Rightarrow> bool" where
  "holds_gate FirstLocked = True"
| "holds_gate (Locked _ _) = True"
| "holds_gate (LockedCount _ _ _) = True"
| "holds_gate (LoggedIn _) = True"
| "holds_gate ReloadLocked = True"
| "holds_gate RetryLocked = True"
| "holds_gate pc = logs_in pc"

definition gated :: "Panel \<Rightarrow> bool" where
  "gated p \<longleftrightarrow> (\<forall>i. holds_gate (pl_pc p i) \<longleftrightarrow> pl_gate p = Some i)"

lemma logs_in_holds: "logs_in pc \<Longrightarrow> holds_gate pc"
  by (cases pc) auto

lemma gatedD: "gated p \<Longrightarrow> holds_gate (pl_pc p i) \<longleftrightarrow> pl_gate p = Some i"
  by (simp add: gated_def)

lemma gated_goto:
  assumes "gated p" "holds_gate pc = holds_gate (pl_pc p i)" "pl_pc q = pl_pc p" "pl_gate q = pl_gate p"
  shows "gated (goto i pc q)"
  using assms by (auto simp: gated_def goto_def)

lemma gated_enter:
  assumes "gated p" "pl_gate p = None" "holds_gate pc"
  shows "gated (goto i pc (p\<lparr>pl_gate := Some i\<rparr>))"
  using assms by (auto simp: gated_def goto_def)

lemma gated_leave:
  assumes "gated p" "\<not> holds_gate pc"
  shows "gated (goto i pc (release i p))"
  using assms by (auto simp: gated_def goto_def release_def)

lemma panel_frame [simp]:
  "pl_pc (store_new p) = pl_pc p" "pl_gate (store_new p) = pl_gate p" "pl_logins (store_new p) = pl_logins p"
  "pl_pc (logged_in obj p) = pl_pc p" "pl_gate (logged_in obj p) = pl_gate p" "pl_cell (logged_in obj p) = pl_cell p"
  "pl_fresh (logged_in obj p) = pl_fresh p"
  "pl_pc (release i p) = pl_pc p" "pl_cell (release i p) = pl_cell p" "pl_count (release i p) = pl_count p"
  "pl_fresh (release i p) = pl_fresh p" "pl_logins (release i p) = pl_logins p"
  "pl_cell (goto i pc p) = pl_cell p" "pl_count (goto i pc p) = pl_count p" "pl_fresh (goto i pc p) = pl_fresh p"
  "pl_logins (goto i pc p) = pl_logins p" "pl_pc (goto i pc p) = (pl_pc p)(i := pc)"
  by (simp_all add: store_new_def logged_in_def release_def goto_def)

lemma gated_step:
  assumes "call_step p q" "gated p"
  shows "gated q"
  using assms(1)
  by cases (simp_all only: finish_def,
    ((rule gated_leave [OF assms(2)]; simp; fail) | (rule gated_enter [OF assms(2)]; simp; fail)
      | (rule gated_goto [OF assms(2)]; simp; fail))+)

section \<open>The counters\<close>

text \<open>
  The counter of an object is the number of its logins, which started from the counters 0, 1, 2 and so on; every
  object in the hands of a task that logs in was made before.
\<close>

definition logins_of :: "nat \<Rightarrow> Panel \<Rightarrow> u64 list" where
  "logins_of obj p = map snd (filter (\<lambda>l. fst l = obj) (pl_logins p))"

definition numbered :: "u64 list \<Rightarrow> bool" where
  "numbered xs \<longleftrightarrow> xs = map of_nat [0..<length xs]"

lemma numbered_Nil [simp]: "numbered []"
  by (simp add: numbered_def)

lemma numbered_snoc: "numbered xs \<Longrightarrow> numbered (xs @ [of_nat (length xs)])"
  by (simp add: numbered_def)

fun in_hand :: "CallPc \<Rightarrow> nat set" where
  "in_hand (Posting _ obj) = {obj}"
| "in_hand (Storing _ obj) = {obj}"
| "in_hand _ = {}"

definition counted :: "Panel \<Rightarrow> bool" where
  "counted p \<longleftrightarrow> (\<forall>obj. numbered (logins_of obj p))
     \<and> (\<forall>obj < pl_fresh p. pl_count p obj = of_nat (length (logins_of obj p)))
     \<and> (\<forall>obj. pl_fresh p \<le> obj \<longrightarrow> logins_of obj p = [])
     \<and> (\<forall>obj. pl_cell p = Some obj \<longrightarrow> obj < pl_fresh p)
     \<and> (\<forall>i. \<forall>obj \<in> in_hand (pl_pc p i). obj < pl_fresh p)"

lemma logins_of_frame [simp]:
  "logins_of obj (goto i pc p) = logins_of obj p" "logins_of obj (release i p) = logins_of obj p"
  "logins_of obj (store_new p) = logins_of obj p" "logins_of obj (p\<lparr>pl_gate := g\<rparr>) = logins_of obj p"
  "logins_of obj (p\<lparr>pl_cell := x\<rparr>) = logins_of obj p"
  "logins_of obj (logged_in obj' p) = logins_of obj p @ (if obj = obj' then [pl_count p obj'] else [])"
  by (simp_all add: logins_of_def logged_in_def)

lemma in_hand_made: "counted p \<Longrightarrow> obj \<in> in_hand (pl_pc p i) \<Longrightarrow> obj < pl_fresh p"
  unfolding counted_def by blast

lemma counted_goto:
  assumes "counted p" "in_hand pc \<subseteq> in_hand (pl_pc p i) \<union> set_option (pl_cell p)"
  shows "counted (goto i pc p)"
  using assms by (fastforce simp: counted_def elem_set)

lemma counted_gate [simp]: "counted (release i p) = counted p" "counted (p\<lparr>pl_gate := g\<rparr>) = counted p"
  by (simp_all add: counted_def)

lemma counted_store_new:
  assumes "counted p"
  shows "counted (store_new p)"
proof -
  have "pl_fresh (store_new p) = Suc (pl_fresh p)" "pl_cell (store_new p) = Some (pl_fresh p)"
    "pl_count (store_new p) = (pl_count p)(pl_fresh p := 0)" by (simp_all add: store_new_def)
  then show ?thesis
    using assms by (auto simp: counted_def less_Suc_eq intro: less_SucI)
qed

lemma counted_logged_in:
  assumes "counted p" "obj < pl_fresh p"
  shows "counted (logged_in obj p)"
proof -
  have c: "pl_count p obj = of_nat (length (logins_of obj p))" "numbered (logins_of obj p)"
    using assms by (simp_all add: counted_def)
  have "numbered (logins_of x (logged_in obj p))" for x
    using assms(1) numbered_snoc [OF c(2)] c(1) by (cases "x = obj") (simp_all add: counted_def)
  moreover have "pl_count (logged_in obj p) x = of_nat (length (logins_of x (logged_in obj p)))" if "x < pl_fresh p" for x
    using assms(1) c(1) that by (cases "x = obj") (simp_all add: counted_def logged_in_def logins_of_def)
  moreover have "logins_of x (logged_in obj p) = []" if "pl_fresh p \<le> x" for x
    using assms that by (simp add: counted_def)
  ultimately show ?thesis using assms(1) unfolding counted_def by simp
qed

lemma counted_step:
  assumes "call_step p q" "counted p"
  shows "counted q"
  using assms(1)
proof cases
  case (login_ok i k obj)
  then have "obj < pl_fresh p" using in_hand_made [OF assms(2), of obj i] by simp
  then show ?thesis
    unfolding login_ok(1) using login_ok(2)
    by (intro counted_goto counted_logged_in [OF assms(2)]) simp_all
next
  case (login_stores i k obj)
  then have "obj < pl_fresh p" using in_hand_made [OF assms(2), of obj i] by simp
  then have "counted (p\<lparr>pl_cell := Some obj\<rparr>)" using assms(2) by (simp add: counted_def)
  then show ?thesis using login_stores by (simp add: counted_goto)
qed (simp_all only: finish_def, (rule counted_goto; simp add: assms(2) counted_store_new; fail)+)

interpretation panel: relation_system call_step "\<lambda>p. gated p \<and> counted p"
  by unfold_locales (use gated_step counted_step in blast)

lemma reachable_gated:
  assumes "call_step\<^sup>*\<^sup>* (panel_start filled tokens) p"
  shows "gated p \<and> counted p"
  using assms
  by (rule panel.reachable_inv) (auto simp: gated_def counted_def panel_start_def logins_of_def)

section \<open>One session\<close>

text \<open>
  If the cell is filled from the start, or no call with a token is made, there is only one object, and a task that
  is to log in again does so at the counter with which it was refused.
\<close>

fun cause_holds :: "u64 \<Rightarrow> LoginFor \<Rightarrow> bool" where
  "cause_holds n FirstCall = True"
| "cause_holds n (Renewal obj c) = (obj = 0 \<and> n = c)"

fun fits :: "nat option \<Rightarrow> u64 \<Rightarrow> CallPc \<Rightarrow> bool" where
  "fits cell n Begin = True"
| "fits cell n FirstGate = True"
| "fits cell n FirstLocked = True"
| "fits cell n (Finished b) = True"
| "fits cell n (LoginLoad k) = (cause_holds n k \<and> (k = FirstCall \<or> cell = Some 0))"
| "fits cell n (LoginMake k) = (cell = None \<and> k = FirstCall)"
| "fits cell n TokenMake = False"
| "fits cell n (LoginReload k) = (cell = Some 0 \<and> cause_holds n k)"
| "fits cell n (Posting k obj) = (cell = Some 0 \<and> cause_holds n k \<and> obj = 0)"
| "fits cell n (Storing k obj) = (cell = Some 0 \<and> obj = 0)"
| "fits cell n (Got obj) = (cell = Some 0 \<and> obj = 0)"
| "fits cell n (Sent obj c) = (cell = Some 0 \<and> obj = 0)"
| "fits cell n (Check obj c) = (cell = Some 0 \<and> obj = 0)"
| "fits cell n (CheckCount obj c now) = (cell = Some 0 \<and> obj = 0 \<and> now = 0)"
| "fits cell n (GateWait obj c) = (cell = Some 0 \<and> obj = 0)"
| "fits cell n (Locked obj c) = (cell = Some 0 \<and> obj = 0)"
| "fits cell n (LockedCount obj c now) = (cell = Some 0 \<and> obj = 0 \<and> now = 0)"
| "fits cell n pc = (cell = Some 0)"

definition single :: "Panel \<Rightarrow> bool" where
  "single p \<longleftrightarrow> (\<forall>i. fits (pl_cell p) (pl_count p 0) (pl_pc p i))
     \<and> (pl_cell p = None \<and> pl_fresh p = 0 \<or> pl_cell p = Some 0 \<and> pl_fresh p = 1)"

lemma fits_waiting: "fits cell n pc \<Longrightarrow> cell \<in> {None, Some 0} \<Longrightarrow> \<not> holds_gate pc \<Longrightarrow> fits (Some 0) n' pc"
  by (cases pc) auto

lemma single_frame [simp]: "single (release i p) = single p" "single (p\<lparr>pl_gate := g\<rparr>) = single p"
  by (simp_all add: single_def)

lemma single_goto:
  assumes "single p"
    and "fits (pl_cell p) (pl_count p 0) (pl_pc p i) \<Longrightarrow> pl_cell p = None \<or> pl_cell p = Some 0 \<Longrightarrow>
      fits (pl_cell p) (pl_count p 0) pc"
  shows "single (goto i pc p)"
  using assms unfolding single_def by auto

text \<open>The steps of the holder of the gate that change the cell or the counter.\<close>

lemma single_holder:
  assumes "single p" "gated p" "holds_gate (pl_pc p i)"
    and "pl_pc q = pl_pc p" "pl_cell q = Some 0" "pl_fresh q = 1" "fits (Some 0) (pl_count q 0) pc"
  shows "single (goto i pc q)"
proof -
  have "fits (Some 0) (pl_count q 0) (pl_pc p j)" if "j \<noteq> i" for j
  proof (rule fits_waiting)
    show "fits (pl_cell p) (pl_count p 0) (pl_pc p j)" "pl_cell p \<in> {None, Some 0}"
      using assms(1) by (auto simp: single_def)
    show "\<not> holds_gate (pl_pc p j)"
      using gatedD [OF assms(2), of i] gatedD [OF assms(2), of j] assms(3) that by simp
  qed
  then show ?thesis using assms(4-7) by (simp add: single_def)
qed

lemma single_step:
  assumes "call_step p q" "single p" "gated p"
  shows "single q"
  using assms(1)
proof cases
  case (login_makes i k)
  then have "fits (pl_cell p) (pl_count p 0) (LoginMake k)" using assms(2) unfolding single_def by metis
  then have "pl_cell p = None" "k = FirstCall" by simp_all
  then show ?thesis
    unfolding login_makes(1) using login_makes(2) assms(2)
    by (intro single_holder [OF assms(2,3)]) (simp_all add: single_def store_new_def)
next
  case (login_ok i k obj)
  then have "fits (pl_cell p) (pl_count p 0) (Posting k obj)" using assms(2) unfolding single_def by metis
  then have "pl_cell p = Some 0" "obj = 0" by simp_all
  then show ?thesis
    unfolding login_ok(1) using login_ok(2) assms(2)
    by (intro single_holder [OF assms(2,3)]) (simp_all add: single_def)
next
  case (login_stores i k obj)
  then have "fits (pl_cell p) (pl_count p 0) (Storing k obj)" using assms(2) unfolding single_def by metis
  then have "pl_cell p = Some 0" "obj = 0" by simp_all
  then show ?thesis
    unfolding login_stores(1) using login_stores(2) assms(2)
    by (intro single_holder [OF assms(2,3)]) (simp_all add: single_def)
next
  case (token_makes i)
  then have "fits (pl_cell p) (pl_count p 0) TokenMake" using assms(2) unfolding single_def by metis
  then show ?thesis by simp
qed (simp_all only: finish_def, (rule single_goto; simp add: assms(2); fail)+)

interpretation one_session: relation_system call_step "\<lambda>p. gated p \<and> single p"
  by unfold_locales (use gated_step single_step in blast)

lemma reachable_single:
  assumes "call_step\<^sup>*\<^sup>* (panel_start filled tokens) p" "filled \<or> tokens = {}"
  shows "gated p \<and> single p"
  using assms(1)
  by (rule one_session.reachable_inv) (use assms(2) in \<open>auto simp: gated_def single_def panel_start_def\<close>)

lemma single_logins:
  assumes "counted p" "single p"
  shows "pl_logins p = map (\<lambda>k. (0, of_nat k)) [0..<length (pl_logins p)]"
    "pl_cell p \<noteq> None \<Longrightarrow> pl_count p 0 = of_nat (length (pl_logins p))"
proof -
  have "fst l = 0" if "l \<in> set (pl_logins p)" for l
  proof (rule ccontr)
    assume "fst l \<noteq> 0"
    then have "pl_fresh p \<le> fst l" using assms(2) by (auto simp: single_def)
    then have "logins_of (fst l) p = []" using assms(1) by (simp add: counted_def)
    then show False using that by (auto simp: logins_of_def filter_empty_conv)
  qed
  then have "filter (\<lambda>l. fst l = 0) (pl_logins p) = pl_logins p" by (simp add: filter_id_conv)
  then have all: "logins_of 0 p = map snd (pl_logins p)" by (simp add: logins_of_def)
  have "pl_logins p = map (Pair 0) (map snd (pl_logins p))"
    using \<open>\<And>l. l \<in> set (pl_logins p) \<Longrightarrow> fst l = 0\<close> by (simp add: map_idI prod_eq_iff)
  also have "map snd (pl_logins p) = map of_nat [0..<length (pl_logins p)]"
    using assms(1) unfolding counted_def numbered_def all by (metis all length_map)
  finally show "pl_logins p = map (\<lambda>k. (0, of_nat k)) [0..<length (pl_logins p)]" by (simp add: comp_def)
  show "pl_count p 0 = of_nat (length (pl_logins p))" if "pl_cell p \<noteq> None"
    using assms that by (auto simp: single_def counted_def all)
qed

lemma distinct_of_nat:
  assumes "n \<le> 2 ^ 64"
  shows "distinct (map (of_nat :: nat \<Rightarrow> u64) [0..<n])"
proof -
  have "take_bit 64 x = x" if "x < n" for x :: nat
    using that assms by (intro take_bit_nat_eq_self) simp
  then show ?thesis by (auto simp: distinct_map inj_on_def word_of_nat_eq_iff)
qed

lemma distinct_by_fst: "(\<And>a. distinct (map snd (filter (\<lambda>l. fst l = a) ls))) \<Longrightarrow> distinct ls"
proof (induction ls)
  case (Cons l ls)
  have "distinct (map snd (filter (\<lambda>l. fst l = a) ls))" for a using Cons.prems [of a] by (simp split: if_splits)
  moreover have "l \<notin> set ls"
  proof
    assume "l \<in> set ls"
    then have "snd l \<in> set (map snd (filter (\<lambda>x. fst x = fst l) ls))" by auto
    then show False using Cons.prems [of "fst l"] by simp
  qed
  ultimately show ?case using Cons.IH by simp
qed simp

lemma counted_distinct:
  assumes "counted p" "length (pl_logins p) \<le> 2 ^ 64"
  shows "distinct (pl_logins p)"
proof (rule distinct_by_fst)
  fix a
  have "length (logins_of a p) \<le> length (pl_logins p)" by (simp add: logins_of_def)
  then have "distinct (map (of_nat :: nat \<Rightarrow> u64) [0..<length (logins_of a p)])"
    using assms(2) by (intro distinct_of_nat) linarith
  moreover have "logins_of a p = map of_nat [0..<length (logins_of a p)]"
    using assms(1) unfolding counted_def numbered_def by blast
  ultimately have "distinct (logins_of a p)" by argo
  then show "distinct (map snd (filter (\<lambda>l. fst l = a) (pl_logins p)))" by (simp add: logins_of_def)
qed

text \<open>
  C27. The session of a panel is renewed by one caller at a time and once: however many calls with the
  cookie or the token run, are refused or dropped at once, in whatever order they proceed, at most one is logging
  in, and no two logins start from the same session (up to the capacity of the counter). If the
  clients exist from the start, as they do in every cycle of the daemon, or no call uses the token, there
  is one line of sessions: the logins renew session 0, 1, 2 and so on, and a caller that logs in again
  renews exactly the session in which it was refused; all others find the renewed one.
\<close>

theorem login_once_per_session:
  assumes "call_step\<^sup>*\<^sup>* (panel_start filled tokens) p" "length (pl_logins p) \<le> 2 ^ 64"
  shows "(\<forall>i j. logs_in (pl_pc p i) \<and> logs_in (pl_pc p j) \<longrightarrow> i = j) \<and> distinct (pl_logins p)
    \<and> (filled \<or> tokens = {} \<longrightarrow>
         pl_logins p = map (\<lambda>k. (0, of_nat k)) [0..<length (pl_logins p)]
       \<and> (\<forall>i obj c obj'. pl_pc p i = Posting (Renewal obj c) obj' \<longrightarrow>
            obj' = obj \<and> pl_count p obj' = c \<and> c = of_nat (length (pl_logins p))))"
proof (intro conjI impI)
  have inv: "gated p" "counted p" using reachable_gated [OF assms(1)] by simp_all
  show "\<forall>i j. logs_in (pl_pc p i) \<and> logs_in (pl_pc p j) \<longrightarrow> i = j"
  proof (intro allI impI)
    fix i j assume "logs_in (pl_pc p i) \<and> logs_in (pl_pc p j)"
    then have "pl_gate p = Some i" "pl_gate p = Some j"
      using gatedD [OF inv(1), of i] gatedD [OF inv(1), of j] logs_in_holds by blast+
    then show "i = j" by simp
  qed
  show "distinct (pl_logins p)" by (rule counted_distinct [OF inv(2) assms(2)])
  assume "filled \<or> tokens = {}"
  then have single: "single p" using reachable_single [OF assms(1)] by blast
  note logins = single_logins [OF inv(2) single]
  show "pl_logins p = map (\<lambda>k. (0, of_nat k)) [0..<length (pl_logins p)]" by (rule logins(1))
  show "\<forall>i obj c obj'. pl_pc p i = Posting (Renewal obj c) obj' \<longrightarrow>
      obj' = obj \<and> pl_count p obj' = c \<and> c = of_nat (length (pl_logins p))"
  proof (intro allI impI)
    fix i obj c obj' assume "pl_pc p i = Posting (Renewal obj c) obj'"
    then have "fits (pl_cell p) (pl_count p 0) (Posting (Renewal obj c) obj')" using single unfolding single_def by metis
    then show "obj' = obj \<and> pl_count p obj' = c \<and> c = of_nat (length (pl_logins p))" using logins(2) by simp
  qed
qed

section \<open>A downloaded backup\<close>

lemma fold_max_ge: "(x :: 'a :: linorder) \<in> set (n # ns) \<Longrightarrow> x \<le> fold max ns n"
  by (simp add: Max.set_eq_fold [symmetric] del: fold_simps)

lemma backup_file_name: "backup_name s \<lparr>df_name = Some (backup_file env s), df_created = t\<rparr> = Some (backup_file env s)"
proof -
  have "ends_with ''backup.db'' (backup_file env s)"
    unfolding ends_with_iff backup_file_def by (intro exI [of _ "srv_name s @ ''-'' @ pn_now env @ ''-xui-''"]) simp
  then show ?thesis by (simp add: backup_name_def is_backup_of_def starts_with_iff backup_file_def)
qed

text \<open>
  A backup that was downloaded can be restored: after \<open>xui_call_db\<close> succeeded, the directory
  exists and \<open>last_xui_db\<close> finds a backup of the server, the new file or one with a later name.
\<close>

lemma downloaded_backup_is_found:
  assumes "xui_call_db env (s, dir) = (Inr (), (s', dir'))"
  shows "\<exists>f. last_xui_db s dir' = Inr f \<and> backup_file env s \<le> f"
proof -
  from assms obtain fs where dir: "dir' = Some (fs @ [\<lparr>df_name = Some (backup_file env s), df_created = pn_created env\<rparr>])"
    by (auto simp: xui_call_db_def Let_def put_file_def split: prod.splits sum.splits)
  have new: "backup_file env s \<in> set (List.map_filter (backup_name s) (the dir'))"
    by (auto simp: dir List.map_filter_def backup_file_name)
  then obtain n ns where ns: "List.map_filter (backup_name s) (the dir') = n # ns"
    by (cases "List.map_filter (backup_name s) (the dir')") auto
  show ?thesis using fold_max_ge [of "backup_file env s" n ns] new ns by (auto simp: last_xui_db_def dir)
qed

section \<open>Concrete instances\<close>

lemma call_run: "call_step\<^sup>*\<^sup>* p q \<Longrightarrow> call_step q r \<Longrightarrow> call_step\<^sup>*\<^sup>* p r"
  by (rule rtranclp.rtrancl_into_rtrancl)

lemmas panel_eval = panel_start_def goto_def release_def finish_def logged_in_def store_new_def

text \<open>A call that finds clients in the cell and is refused, up to the gate.\<close>

lemma refused_call:
  assumes "pl_pc p i = Begin" "pl_cell p = Some obj"
  shows "call_step\<^sup>*\<^sup>* p (goto i (GateWait obj (pl_count p obj)) p)"
proof -
  let ?c = "pl_count p obj"
  let ?p1 = "goto i (Got obj) p"
  let ?p2 = "goto i (Sent obj ?c) p"
  let ?p3 = "goto i (Check obj ?c) p"
  let ?p4 = "goto i (CheckCount obj ?c obj) p"
  have over: "goto i a (goto i b p) = goto i a p" for a b by (simp add: goto_def)
  have "call_step p ?p1" by (rule call_step.begin_some) (rule assms)+
  moreover have "call_step ?p1 ?p2" using call_step.sends [of ?p1 i obj] by (simp add: over)
  moreover have "call_step ?p2 ?p3" using call_step.refused [of ?p2 i obj ?c] by (simp add: over)
  moreover have "call_step ?p3 ?p4" using call_step.check_load [of ?p3 i obj ?c obj] assms(2) by (simp add: over)
  moreover have "call_step ?p4 (goto i (GateWait obj ?c) p)"
    using call_step.check_same [of ?p4 i obj ?c obj] by (simp add: over)
  ultimately show ?thesis by (meson call_run rtranclp.rtrancl_refl)
qed

text \<open>Two calls are refused in the same session; the second finds the session the first renewed.\<close>

lemma demo_two_calls:
  "\<exists>p. call_step\<^sup>*\<^sup>* (panel_start True {}) p \<and> pl_logins p = [(0, 0)] \<and> pl_pc p 1 = ReloadLocked"
proof -
  let ?p0 = "panel_start True {}"
  let ?p1 = "goto 0 (GateWait 0 0) ?p0"
  let ?p2 = "goto 1 (GateWait 0 0) ?p1"
  let ?p3 = "goto 0 (Locked 0 0) (?p2\<lparr>pl_gate := Some 0\<rparr>)"
  let ?p4 = "goto 0 (LockedCount 0 0 0) ?p3"
  let ?p5 = "goto 0 (LoginLoad (Renewal 0 0)) ?p4"
  let ?p6 = "goto 0 (Posting (Renewal 0 0) 0) ?p5"
  let ?p7 = "goto 0 (Storing (Renewal 0 0) 0) (logged_in 0 ?p6)"
  let ?p8 = "goto 0 (LoggedIn (Renewal 0 0)) (?p7\<lparr>pl_cell := Some 0\<rparr>)"
  let ?p9 = "goto 0 ReloadLocked ?p8"
  let ?p10 = "goto 0 RetryLocked ?p9"
  let ?p11 = "finish 0 True ?p10"
  let ?p12 = "goto 1 (Locked 0 0) (?p11\<lparr>pl_gate := Some 1\<rparr>)"
  let ?p13 = "goto 1 (LockedCount 0 0 0) ?p12"
  let ?p14 = "goto 1 ReloadLocked ?p13"
  have "call_step\<^sup>*\<^sup>* ?p0 ?p1" using refused_call [of ?p0 0 0] by (simp add: panel_eval)
  note r = this
  have "call_step\<^sup>*\<^sup>* ?p1 ?p2" using refused_call [of ?p1 1 0] by (simp add: panel_eval)
  note r = rtranclp_trans [OF r this]
  have "call_step ?p2 ?p3" by (rule call_step.enter_gate) (simp_all add: panel_eval)
  note r = call_run [OF r this]
  have "call_step ?p3 ?p4" by (rule call_step.locked_load) (simp_all add: panel_eval)
  note r = call_run [OF r this]
  have "call_step ?p4 ?p5" by (rule call_step.locked_same [where now = 0]) (simp_all add: panel_eval)
  note r = call_run [OF r this]
  have "call_step ?p5 ?p6" by (rule call_step.login_some) (simp_all add: panel_eval)
  note r = call_run [OF r this]
  have "call_step ?p6 ?p7" by (rule call_step.login_ok) (simp add: panel_eval)
  note r = call_run [OF r this]
  have "call_step ?p7 ?p8" by (rule call_step.login_stores) (simp add: panel_eval)
  note r = call_run [OF r this]
  have "call_step ?p8 ?p9" by (rule call_step.logged_again [where obj = 0 and c = 0]) (simp add: panel_eval)
  note r = call_run [OF r this]
  have "call_step ?p9 ?p10" by (rule call_step.reloads [where obj = 0]) (simp_all add: panel_eval)
  note r = call_run [OF r this]
  have "call_step ?p10 ?p11" by (rule call_step.retried_locked) (simp add: panel_eval)
  note r = call_run [OF r this]
  have "call_step ?p11 ?p12" by (rule call_step.enter_gate) (simp_all add: panel_eval)
  note r = call_run [OF r this]
  have "call_step ?p12 ?p13" by (rule call_step.locked_load) (simp_all add: panel_eval)
  note r = call_run [OF r this]
  have "call_step ?p13 ?p14"
    by (rule call_step.locked_renewed [where obj = 0 and c = 0 and now = 0]) (simp_all add: panel_eval)
  note r = call_run [OF r this]
  show ?thesis by (rule exI [of _ ?p14], intro conjI, rule r) (simp_all add: panel_eval)
qed

theorem login_once_per_session_witness:
  "\<exists>p. call_step\<^sup>*\<^sup>* (panel_start True {}) p \<and> pl_pc p 1 = ReloadLocked \<and> distinct (pl_logins p) \<and> pl_logins p = [(0, 0)]"
proof -
  obtain p where p: "call_step\<^sup>*\<^sup>* (panel_start True {}) p" "pl_logins p = [(0, 0)]" "pl_pc p 1 = ReloadLocked"
    using demo_two_calls by blast
  then show ?thesis using login_once_per_session [OF p(1)] by auto
qed

text \<open>
  While the cell is empty, a call with the token may replace the clients of a login: it has seen the
  empty cell before, and stores clients of its own, without a session, after the login is complete. The
  next call with the cookie has to log in again.
\<close>

lemma token_call_drops_session:
  "\<exists>p. call_step\<^sup>*\<^sup>* (panel_start False {1}) p \<and> pl_logins p = [(0, 0)] \<and> pl_pc p 0 = Got 0
     \<and> pl_cell p = Some 1 \<and> pl_count p 1 = 0"
proof -
  let ?p0 = "panel_start False {1}"
  let ?p1 = "goto 1 TokenMake ?p0"
  let ?p2 = "goto 0 FirstGate ?p1"
  let ?p3 = "goto 0 FirstLocked (?p2\<lparr>pl_gate := Some 0\<rparr>)"
  let ?p4 = "goto 0 (LoginLoad FirstCall) ?p3"
  let ?p5 = "goto 0 (LoginMake FirstCall) ?p4"
  let ?p6 = "goto 0 (LoginReload FirstCall) (store_new ?p5)"
  let ?p7 = "goto 0 (Posting FirstCall 0) ?p6"
  let ?p8 = "goto 0 (Storing FirstCall 0) (logged_in 0 ?p7)"
  let ?p9 = "goto 0 (LoggedIn FirstCall) (?p8\<lparr>pl_cell := Some 0\<rparr>)"
  let ?p10 = "goto 0 (Got 0) (release 0 ?p9)"
  let ?p11 = "goto 1 TokenReload (store_new ?p10)"
  have "call_step ?p0 ?p1" by (rule call_step.token_none) (simp_all add: panel_eval)
  note r = r_into_rtranclp [of call_step, OF this]
  have "call_step ?p1 ?p2" by (rule call_step.begin_none) (simp_all add: panel_eval)
  note r = call_run [OF r this]
  have "call_step ?p2 ?p3" by (rule call_step.first_gate) (simp_all add: panel_eval)
  note r = call_run [OF r this]
  have "call_step ?p3 ?p4" by (rule call_step.first_none) (simp_all add: panel_eval)
  note r = call_run [OF r this]
  have "call_step ?p4 ?p5" by (rule call_step.login_none) (simp_all add: panel_eval)
  note r = call_run [OF r this]
  have "call_step ?p5 ?p6" by (rule call_step.login_makes) (simp add: panel_eval)
  note r = call_run [OF r this]
  have "call_step ?p6 ?p7" by (rule call_step.login_reload) (simp_all add: panel_eval)
  note r = call_run [OF r this]
  have "call_step ?p7 ?p8" by (rule call_step.login_ok) (simp add: panel_eval)
  note r = call_run [OF r this]
  have "call_step ?p8 ?p9" by (rule call_step.login_stores) (simp add: panel_eval)
  note r = call_run [OF r this]
  have "call_step ?p9 ?p10" by (rule call_step.logged_first) (simp_all add: panel_eval)
  note r = call_run [OF r this]
  have "call_step ?p10 ?p11" by (rule call_step.token_makes) (simp add: panel_eval)
  note r = call_run [OF r this]
  show ?thesis by (rule exI [of _ ?p11], intro conjI, rule r) (simp_all add: panel_eval)
qed

definition demo_panel :: PanelEnv where
  "demo_panel = \<lparr>pn_crates = demo_crates, pn_clients = \<lambda>_. Inr (), pn_get = \<lambda>_ _. Inr [],
     pn_inbounds_json = \<lambda>_. Inr \<lparr>api_success = True, api_msg = [], api_obj = []\<rparr>, pn_now = ''2026-01-01_00-00-00'',
     pn_file = \<lambda>_. Inr (), pn_created = Some 7\<rparr>"

theorem downloaded_backup_is_found_witness:
  "\<exists>s dir f. xui_call_db demo_panel (demo_server ''one'' 1 ''one.org'' Production\<lparr>srv_secrets := empty_secrets\<lparr>xui_token := Some ''t''\<rparr>\<rparr>, None)
     = (Inr (), (s, dir)) \<and> last_xui_db (demo_server ''one'' 1 ''one.org'' Production\<lparr>srv_secrets := empty_secrets\<lparr>xui_token := Some ''t''\<rparr>\<rparr>) dir = Inr f"
proof -
  let ?s = "demo_server ''one'' 1 ''one.org'' Production\<lparr>srv_secrets := empty_secrets\<lparr>xui_token := Some ''t''\<rparr>\<rparr>"
  obtain s dir where r: "xui_call_db demo_panel (?s, None) = (Inr (), (s, dir))"
    by (simp add: xui_call_db_def xui_get_call_token_def new_xui_client_def demo_panel_def demo_crates_def
        demo_server_def Let_def)
  from downloaded_backup_is_found [OF r] r show ?thesis by blast
qed

end
