(* ===== verification/Daemon_Core.thy ===== *)
theory Daemon_Core
  imports Daemon Xui_Api
begin

text \<open>
  One cycle of the daemon before it listens for commands: \<open>daemon_core\<close> of \<^verbatim>\<open>src/daemon/core.rs\<close> with
  \<open>prepare_runtime\<close> of \<^verbatim>\<open>src/daemon/startup.rs\<close>.

  The state is the database beside the Cloudflare side of a reconciliation; what comes from the
  outside is the record \<open>CoreEnv\<close>. Spawning a task is an entry of the task map; the services for which
  a monitor is spawned are collected in \<open>rt_monitors\<close>.
\<close>

section \<open>Runtime data\<close>

record Runtime =
  rt_tasks :: TaskMap
  rt_chat :: "TaskEntry list"
  rt_actions :: ActionMap
  rt_port :: u16
  rt_monitors :: "SvcInfo list"

definition prepare_runtime :: Runtime where
  "prepare_runtime = \<lparr>rt_tasks = [], rt_chat = [], rt_actions = [], rt_port = PROXY_START_PORT, rt_monitors = []\<rparr>"

text \<open>A task is spawned unless the map has an entry for it.\<close>

definition start_task :: "TaskEntry \<Rightarrow> Runtime \<Rightarrow> Runtime" where
  "start_task e rt = (if get_task e (rt_tasks rt) = None then rt\<lparr>rt_tasks := spawn_entry e (rt_tasks rt)\<rparr> else rt)"

definition register_action :: "TaskEntry \<Rightarrow> Runtime \<Rightarrow> Runtime" where
  "register_action e rt =
     (if map_of (rt_actions rt) e = None then rt\<lparr>rt_actions := rt_actions rt @ [(e, default_action)]\<rparr> else rt)"

definition start_monitor_task :: "SvcInfo \<Rightarrow> Runtime \<Rightarrow> Runtime" where
  "start_monitor_task info rt0 =
     (let e = svc_task info; rt = register_action e rt0 in
      if get_task e (rt_tasks rt) = None
      then rt\<lparr>rt_chat := (if e \<in> set (rt_chat rt) then rt_chat rt else rt_chat rt @ [e]),
              rt_monitors := rt_monitors rt @ [info], rt_tasks := spawn_entry e (rt_tasks rt)\<rparr>
      else rt)"

definition start_inbound :: "Crates \<Rightarrow> KetServer \<Rightarrow> Runtime \<Rightarrow> Inbound \<Rightarrow> Runtime res" where
  "start_inbound lib s rt inb =
     (let (a_port, rt') = (if inb_name inb = super_name then (0, rt)
                           else (rt_port rt, rt\<lparr>rt_port := rt_port rt + 1\<rparr>)) in
      and_then (get_jsub lib inb s) (\<lambda>link.
      Inr (start_monitor_task \<lparr>si_server = s, si_port = a_port, si_kind = Xray (inb_name inb), si_link = Some link\<rparr> rt')))"

text \<open>The periodic tasks of a server, which prune its backups and check its certificate.\<close>

definition start_upkeep :: "string \<Rightarrow> Runtime \<Rightarrow> Runtime" where
  "start_upkeep nm rt = start_task (AcmeChecker nm) (start_task (XuiDbPruner nm) rt)"

definition start_server :: "PanelEnv \<Rightarrow> Runtime \<times> Cloud \<Rightarrow> KetServer \<Rightarrow> (Runtime \<times> Cloud) res" where
  "start_server env acc server =
     (let (rt, cloud) = acc in
      and_then (new_xui_client env server) (\<lambda>s.
      let rt1 = start_monitor_task \<lparr>si_server = s, si_port = srv_ssh_port s, si_kind = Ssh, si_link = None\<rparr> rt;
          rt2 = start_monitor_task \<lparr>si_server = s, si_port = NGINX_PORT, si_kind = Nginx, si_link = None\<rparr> rt1 in
      and_then (try_fold (start_inbound (pn_crates env) s) rt2 (srv_inbounds s)) (\<lambda>rt3.
      Inr (start_upkeep (srv_name s) rt3, update_server (srv_name s) (\<lambda>_. s) cloud))))"

definition start_services :: "PanelEnv \<Rightarrow> Cloud \<Rightarrow> Runtime \<Rightarrow> (Runtime \<times> Cloud) res" where
  "start_services env cloud rt =
     (let prod_servers = filter served (servers cloud) in
      if prod_servers \<noteq> [] then try_fold (start_server env) (start_task Aggregator rt, cloud) prod_servers
      else Inr (rt, cloud))"

text \<open>The number of statistics the aggregator waits for.\<close>

definition ndata :: "Cloud \<Rightarrow> nat" where
  "ndata cloud = sum_list (map svc_num (filter served (servers cloud)))"

section \<open>A cycle\<close>

record 'w CoreEnv =
  cv_parsed :: "Cloud res"
  cv_db :: DbCrates
  cv_config_file :: "string res"
  cv_order :: "string list"
  cv_iorder :: "string \<Rightarrow> string list"
  cv_panel :: PanelEnv
  cv_api :: "'w CFApi"
  cv_cf_list :: "string option"
  cv_rm_dir :: "string \<Rightarrow> unit res"
  cv_run :: RemoteRun
  cv_sched :: "RebaseJob list \<Rightarrow> RebaseJob list"
  cv_walk :: "string list"

definition old_cloud_of :: "'w CoreEnv \<Rightarrow> DaemonNext \<Rightarrow> Db \<Rightarrow> Cloud res" where
  "old_cloud_of env init db =
     (case dn_old_cloud init of None \<Rightarrow> load_cloud (cv_db env) (cv_order env) (cv_iorder env) db | Some cloud \<Rightarrow> Inr cloud)"

definition new_cloud_of :: "'w CoreEnv \<Rightarrow> DaemonNext \<Rightarrow> Cloud res" where
  "new_cloud_of env init = (case dn_new_cloud init of Some cloud \<Rightarrow> Inr cloud | None \<Rightarrow> cv_parsed env)"

text \<open>An error of the reconciliation is logged and the old cloud goes on; one of the database is passed on.\<close>

definition apply_cloud :: "'w CoreEnv \<Rightarrow> DaemonNext \<Rightarrow> Cloud \<Rightarrow> Cloud \<Rightarrow> (Db \<times> 'w, BoxError, Cloud) call" where
  "apply_cloud env init old_cloud new_cloud st =
     (let (db, w) = st in
      case reconcile_cloud (cv_api env) (cv_rm_dir env) (cv_run env) (cv_sched env) (cv_walk env) old_cloud new_cloud
             (dn_mode init) (cv_cf_list env) (dn_rebase_data init) w of
        (Inl e, w') \<Rightarrow> (Inr old_cloud, (db, w'))
      | (Inr (recon_cloud, _), w') \<Rightarrow>
          (case update_db (cv_db env) (cv_config_file env) recon_cloud db of
             (Inl e, db') \<Rightarrow> (Inl e, (db', w'))
           | (Inr _, db') \<Rightarrow> (Inr recon_cloud, (db', w'))))"

definition core_start :: "'w CoreEnv \<Rightarrow> DaemonNext \<Rightarrow> (Db \<times> 'w, BoxError, Runtime \<times> Cloud) call" where
  "core_start env init =
     via (pure (new_cloud_of env init)) (\<lambda>new_cloud.
     let rt = start_task GeoipUpdater (start_task SignalWatcher prepare_runtime) in
     via (\<lambda>(db, w). let (r, db') = create_db db in (r, (db', w))) (\<lambda>_.
     via (\<lambda>(db, w). (old_cloud_of env init db, (db, w))) (\<lambda>old_cloud.
     via (apply_cloud env init old_cloud new_cloud) (\<lambda>the_cloud.
     pure (start_services (cv_panel env) the_cloud rt)))))"

text \<open>The state in which the command processor starts; \<open>ans\<close> is what the monitors answer.\<close>

definition core_state :: "(TaskEntry \<Rightarrow> SvcSummary option) \<Rightarrow> Runtime \<times> Cloud \<Rightarrow> CoreState" where
  "core_state ans rc = \<lparr>co_cloud = snd rc, co_tasks = rt_tasks (fst rc), co_chat = map (\<lambda>e. (e, ans e)) (rt_chat (fst rc)),
     co_resets = []\<rparr>"

section \<open>Started monitors\<close>

text \<open>What tells the monitored services of a cloud apart.\<close>

definition svc_of :: "SvcInfo \<Rightarrow> string \<times> SvcKind" where
  "svc_of info = (srv_name (si_server info), si_kind info)"

definition proxied :: "SvcInfo \<Rightarrow> bool" where
  "proxied info \<longleftrightarrow> (case si_kind info of Xray nm \<Rightarrow> nm \<noteq> super_name | _ \<Rightarrow> False)"

fun is_monitor :: "TaskEntry \<Rightarrow> bool" where
  "is_monitor (SshMonitor _) = True"
| "is_monitor (NginxMonitor _) = True"
| "is_monitor (XrayMonitor _) = True"
| "is_monitor _ = False"

definition proxy_ports :: "Runtime \<Rightarrow> u16 list" where
  "proxy_ports rt = map si_port (filter proxied (rt_monitors rt))"

text \<open>
  Every monitor has a channel and a task of its own, and the proxy ports were handed out in
  sequence.
\<close>

definition monitors_inv :: "Runtime \<Rightarrow> bool" where
  "monitors_inv rt \<longleftrightarrow> rt_chat rt = map svc_task (rt_monitors rt) \<and> distinct (rt_chat rt)
     \<and> rt_chat rt = filter is_monitor (map fst (rt_tasks rt))
     \<and> proxy_ports rt = map (\<lambda>k. PROXY_START_PORT + of_nat k) [0..<length (proxy_ports rt)]
     \<and> rt_port rt = PROXY_START_PORT + of_nat (length (proxy_ports rt))"

lemma monitors_inv_tasks: "monitors_inv rt \<Longrightarrow> rt_chat rt = filter is_monitor (map fst (rt_tasks rt))"
  unfolding monitors_inv_def by blast

lemma svc_task_monitor [simp]: "is_monitor (svc_task info)"
  by (simp add: svc_task_def split: SvcKind.split)

lemma svc_task_svc_of: "svc_task a = svc_task b \<Longrightarrow> svc_of a = svc_of b"
  by (auto simp: svc_task_def svc_of_def svc_key_def split: SvcKind.splits)

lemma get_task_None: "get_task e m = None \<longleftrightarrow> e \<notin> fst ` set m"
  by (simp add: get_task_def map_of_eq_None_iff)

lemma spawn_entry_fresh: "get_task e m = None \<Longrightarrow> spawn_entry e m = m @ [(e, Detached False)]"
  by (simp add: spawn_entry_def)

lemma start_task_inv:
  assumes "monitors_inv rt" "\<not> is_monitor e"
  shows "monitors_inv (start_task e rt)" "rt_monitors (start_task e rt) = rt_monitors rt"
  using assms by (auto simp: start_task_def monitors_inv_def proxy_ports_def spawn_entry_fresh)

lemma start_monitor_task_inv:
  assumes inv: "monitors_inv (rt\<lparr>rt_port := rt_port rt - (if proxied info then 1 else 0)\<rparr>)"
    and fresh: "svc_of info \<notin> svc_of ` set (rt_monitors rt)"
    and port: "proxied info \<Longrightarrow> si_port info = rt_port rt - 1"
  shows "monitors_inv (start_monitor_task info rt)"
    "rt_monitors (start_monitor_task info rt) = rt_monitors rt @ [info]"
proof -
  let ?e = "svc_task info"
  have chat: "rt_chat rt = map svc_task (rt_monitors rt)" using inv by (simp add: monitors_inv_def)
  have new: "?e \<notin> set (rt_chat rt)"
  proof
    assume "?e \<in> set (rt_chat rt)"
    then obtain m where m: "m \<in> set (rt_monitors rt)" "svc_task info = svc_task m" by (auto simp: chat)
    from svc_task_svc_of [OF m(2)] m(1) fresh show False by (metis image_eqI)
  qed
  moreover have tasks: "rt_chat rt = filter is_monitor (map fst (rt_tasks rt))"
    using monitors_inv_tasks [OF inv] by simp
  ultimately have none: "get_task ?e (rt_tasks rt) = None" by (auto simp: get_task_None)
  define rt' where "rt' = register_action ?e rt"
  have frame: "rt_tasks rt' = rt_tasks rt" "rt_chat rt' = rt_chat rt" "rt_port rt' = rt_port rt"
    "rt_monitors rt' = rt_monitors rt"
    by (simp_all add: rt'_def register_action_def)
  have eq: "start_monitor_task info rt = rt'\<lparr>rt_chat := rt_chat rt @ [?e], rt_monitors := rt_monitors rt @ [info],
      rt_tasks := rt_tasks rt @ [(?e, Detached False)]\<rparr>"
    using new none by (simp add: start_monitor_task_def Let_def frame spawn_entry_fresh flip: rt'_def)
  show "rt_monitors (start_monitor_task info rt) = rt_monitors rt @ [info]" by (simp add: eq)
  show "monitors_inv (start_monitor_task info rt)"
    using inv new port by (auto simp: eq monitors_inv_def proxy_ports_def frame algebra_simps)
qed

lemma start_inbound_Inr:
  "start_inbound lib s rt i = Inr rt' \<longleftrightarrow> (\<exists>link. get_jsub lib i s = Inr link \<and>
     rt' = start_monitor_task \<lparr>si_server = s, si_port = if inb_name i = super_name then 0 else rt_port rt,
       si_kind = Xray (inb_name i), si_link = Some link\<rparr>
       (if inb_name i = super_name then rt else rt\<lparr>rt_port := rt_port rt + 1\<rparr>))"
  by (auto simp: start_inbound_def)

lemma start_inbounds_inv:
  assumes "try_fold (start_inbound lib s) rt inbs = Inr rt'" "monitors_inv rt"
    and "distinct (map inb_name inbs)"
    and "\<And>i. i \<in> set inbs \<Longrightarrow> (srv_name s, Xray (inb_name i)) \<notin> svc_of ` set (rt_monitors rt)"
  shows "monitors_inv rt' \<and> map svc_of (rt_monitors rt')
    = map svc_of (rt_monitors rt) @ map (\<lambda>i. (srv_name s, Xray (inb_name i))) inbs"
  using assms
proof (induction inbs arbitrary: rt)
  case (Cons i inbs)
  define rt1 where "rt1 = (if inb_name i = super_name then rt else rt\<lparr>rt_port := rt_port rt + 1\<rparr>)"
  from Cons.prems(1) obtain link where rest': "try_fold (start_inbound lib s) (start_monitor_task
      \<lparr>si_server = s, si_port = if inb_name i = super_name then 0 else rt_port rt, si_kind = Xray (inb_name i),
       si_link = Some link\<rparr> rt1) inbs = Inr rt'"
    by (auto simp: start_inbound_Inr rt1_def simp del: if_split)
  define info where "info = \<lparr>si_server = s, si_port = if inb_name i = super_name then 0 else rt_port rt,
    si_kind = Xray (inb_name i), si_link = Some link\<rparr>"
  have info: "si_server info = s" "si_kind info = Xray (inb_name i)"
    "si_port info = (if inb_name i = super_name then 0 else rt_port rt)"
    by (simp_all add: info_def)
  have rest: "try_fold (start_inbound lib s) (start_monitor_task info rt1) inbs = Inr rt'"
    using rest' by (simp only: info_def)
  have same: "rt_monitors rt1 = rt_monitors rt" by (simp add: rt1_def)
  have svc: "svc_of info = (srv_name s, Xray (inb_name i))" by (simp add: svc_of_def info)
  have fresh: "svc_of info \<notin> svc_of ` set (rt_monitors rt1)"
    using Cons.prems(4) [of i] by (simp add: same svc)
  have pre: "monitors_inv (rt1\<lparr>rt_port := rt_port rt1 - (if proxied info then 1 else 0)\<rparr>)"
    using Cons.prems(2) by (simp add: proxied_def rt1_def info)
  have port: "si_port info = rt_port rt1 - 1" if "proxied info" using that by (simp add: proxied_def info rt1_def)
  note inv = start_monitor_task_inv [OF pre fresh port]
  have mons: "map svc_of (rt_monitors (start_monitor_task info rt1))
      = map svc_of (rt_monitors rt) @ [(srv_name s, Xray (inb_name i))]"
    by (simp add: inv(2) same svc)
  have "(srv_name s, Xray (inb_name j)) \<notin> svc_of ` set (rt_monitors (start_monitor_task info rt1))"
    if "j \<in> set inbs" for j
    using that Cons.prems(3,4) by (auto simp: inv(2) same svc) (metis imageI)
  with Cons.IH [OF rest inv(1)] Cons.prems(3) mons show ?case by simp
qed simp

lemma new_xui_client_Inr:
  "new_xui_client env s = Inr t \<Longrightarrow> srv_name t = srv_name s \<and> srv_inbounds t = srv_inbounds s
     \<and> srv_ssh_port t = srv_ssh_port s \<and> srv_secrets t = srv_secrets s \<and> xui_token (srv_secrets s) \<noteq> None"
  by (auto simp: new_xui_client_def)

lemma plain_monitor_inv:
  assumes "monitors_inv rt" "si_kind info \<in> {Ssh, Nginx}" "svc_of info \<notin> svc_of ` set (rt_monitors rt)"
  shows "monitors_inv (start_monitor_task info rt)"
    "rt_monitors (start_monitor_task info rt) = rt_monitors rt @ [info]"
proof -
  have "\<not> proxied info" using assms(2) by (auto simp: proxied_def)
  then show "monitors_inv (start_monitor_task info rt)"
    "rt_monitors (start_monitor_task info rt) = rt_monitors rt @ [info]"
    using start_monitor_task_inv [of rt info] assms(1,3) by simp_all
qed

lemma start_server_inv:
  assumes "start_server env (rt, c) server = Inr (rt', c')" "monitors_inv rt"
    and "distinct (map inb_name (srv_inbounds server))"
    and new: "\<And>k. (srv_name server, k) \<notin> svc_of ` set (rt_monitors rt)"
  shows "monitors_inv rt' \<and> map svc_of (rt_monitors rt') = map svc_of (rt_monitors rt) @ map (Pair (srv_name server)) (svc_kinds server)"
proof -
  from assms(1) obtain s rt3 where s: "new_xui_client env server = Inr s"
    and fold: "try_fold (start_inbound (pn_crates env) s) (start_monitor_task \<lparr>si_server = s, si_port = NGINX_PORT,
       si_kind = Nginx, si_link = None\<rparr> (start_monitor_task \<lparr>si_server = s, si_port = srv_ssh_port s, si_kind = Ssh,
       si_link = None\<rparr> rt)) (srv_inbounds s) = Inr rt3"
    and rt': "rt' = start_task (AcmeChecker (srv_name s)) (start_task (XuiDbPruner (srv_name s)) rt3)"
    by (auto simp: start_server_def start_upkeep_def Let_def)
  note same = new_xui_client_Inr [OF s]
  let ?ssh = "\<lparr>si_server = s, si_port = srv_ssh_port s, si_kind = Ssh, si_link = None\<rparr>"
  let ?nginx = "\<lparr>si_server = s, si_port = NGINX_PORT, si_kind = Nginx, si_link = None\<rparr>"
  have "monitors_inv (start_monitor_task ?ssh rt)" "rt_monitors (start_monitor_task ?ssh rt) = rt_monitors rt @ [?ssh]"
    using plain_monitor_inv [of rt ?ssh] assms(2) new [of Ssh] same by (simp_all add: svc_of_def)
  moreover from this have "monitors_inv (start_monitor_task ?nginx (start_monitor_task ?ssh rt))"
    "rt_monitors (start_monitor_task ?nginx (start_monitor_task ?ssh rt)) = rt_monitors rt @ [?ssh, ?nginx]"
    using plain_monitor_inv [of "start_monitor_task ?ssh rt" ?nginx] new [of Nginx] same by (simp_all add: svc_of_def)
  ultimately have "monitors_inv rt3 \<and> map svc_of (rt_monitors rt3)
      = map svc_of (rt_monitors rt @ [?ssh, ?nginx]) @ map (\<lambda>i. (srv_name s, Xray (inb_name i))) (srv_inbounds s)"
    using start_inbounds_inv [OF fold] assms(3) new same by (simp add: svc_of_def)
  then show ?thesis
    using start_task_inv by (simp add: rt' svc_kinds_alt svc_of_def same comp_def)
qed

lemma start_servers_inv:
  assumes "try_fold (start_server env) (rt, c) ss = Inr (rt', c')" "monitors_inv rt" "distinct (map srv_name ss)"
    and "\<And>s. s \<in> set ss \<Longrightarrow> distinct (map inb_name (srv_inbounds s))"
    and "\<And>s k. s \<in> set ss \<Longrightarrow> (srv_name s, k) \<notin> svc_of ` set (rt_monitors rt)"
  shows "monitors_inv rt' \<and> map svc_of (rt_monitors rt')
    = map svc_of (rt_monitors rt) @ concat (map (\<lambda>s. map (Pair (srv_name s)) (svc_kinds s)) ss)"
  using assms
proof (induction ss arbitrary: rt c)
  case (Cons s ss)
  from Cons.prems(1) obtain rt1 c1 where first: "start_server env (rt, c) s = Inr (rt1, c1)"
    and rest: "try_fold (start_server env) (rt1, c1) ss = Inr (rt', c')"
    by auto
  have one: "monitors_inv rt1" "map svc_of (rt_monitors rt1) = map svc_of (rt_monitors rt) @ map (Pair (srv_name s)) (svc_kinds s)"
    using start_server_inv [OF first Cons.prems(2)] Cons.prems(4,5) by simp_all
  have set: "svc_of ` set (rt_monitors rt1) = svc_of ` set (rt_monitors rt) \<union> Pair (srv_name s) ` set (svc_kinds s)"
    using arg_cong [OF one(2), of set] by simp
  have "(srv_name t, k) \<notin> svc_of ` set (rt_monitors rt1)" if "t \<in> set ss" for t k
    using that Cons.prems(3,5) unfolding set by auto (metis imageI)
  then show ?case using Cons.IH [OF rest one(1)] Cons.prems(3,4) one(2) by simp
qed simp

definition fresh_runtime :: Runtime where
  "fresh_runtime = start_task GeoipUpdater (start_task SignalWatcher prepare_runtime)"

lemma fresh_runtime_inv: "monitors_inv fresh_runtime" "rt_monitors fresh_runtime = []"
proof -
  have "monitors_inv prepare_runtime" "rt_monitors prepare_runtime = []"
    by (simp_all add: monitors_inv_def prepare_runtime_def proxy_ports_def)
  then show "monitors_inv fresh_runtime" "rt_monitors fresh_runtime = []"
    by (simp_all add: fresh_runtime_def start_task_inv)
qed

lemma start_services_inv:
  assumes "start_services env cloud fresh_runtime = Inr (rt, cloud')" "distinct (server_names cloud)"
    and "\<forall>s \<in> set (servers cloud). distinct (map inb_name (srv_inbounds s))"
  shows "monitors_inv rt \<and> map svc_of (rt_monitors rt)
    = concat (map (\<lambda>s. map (Pair (srv_name s)) (svc_kinds s)) (filter served (servers cloud)))"
proof (cases "filter served (servers cloud) = []")
  case True
  then show ?thesis using assms(1) fresh_runtime_inv by (simp add: start_services_def)
next
  case False
  then have "try_fold (start_server env) (start_task Aggregator fresh_runtime, cloud) (filter served (servers cloud)) = Inr (rt, cloud')"
    using assms(1) by (simp add: start_services_def)
  from start_servers_inv [OF this] show ?thesis
    using assms(2,3) fresh_runtime_inv start_task_inv [OF fresh_runtime_inv(1), of Aggregator]
    by (simp add: distinct_map_filter)
qed

text \<open>
  C12. A cycle monitors every service exactly once: after the start there is one monitor for each
  service of each enabled Production server and no other, each with a task and a command channel of
  its own, and their number is what the aggregator is told to wait for.
\<close>

theorem monitors_exact:
  assumes "start_services env cloud fresh_runtime = Inr (rt, cloud')" "distinct (server_names cloud)"
    and "\<forall>s \<in> set (servers cloud). distinct (map inb_name (srv_inbounds s))"
  shows "map svc_of (rt_monitors rt)
      = concat (map (\<lambda>s. map (Pair (srv_name s)) (svc_kinds s)) (filter served (servers cloud)))
    \<and> rt_chat rt = map svc_task (rt_monitors rt) \<and> distinct (rt_chat rt)
    \<and> rt_chat rt = filter is_monitor (map fst (rt_tasks rt)) \<and> length (rt_chat rt) = ndata cloud"
proof -
  note inv = start_services_inv [OF assms]
  from inv have "length (rt_monitors rt) = ndata cloud"
    by (metis (no_types, lifting) length_map length_concat ndata_def map_map comp_def svc_num_def map_eq_conv)
  then show ?thesis using inv unfolding monitors_inv_def by (metis length_map)
qed

text \<open>
  No two monitors share a local proxy port: as long as a cycle starts at most 55536 proxied
  inbounds, their ports are pairwise different and the counter has not wrapped, so none of them
  falls below the first port of the range.
\<close>

lemma proxy_ports_distinct:
  assumes "start_services env cloud fresh_runtime = Inr (rt, cloud')" "distinct (server_names cloud)"
    and "\<forall>s \<in> set (servers cloud). distinct (map inb_name (srv_inbounds s))"
    and "length (proxy_ports rt) \<le> 55536"
  shows "distinct (proxy_ports rt) \<and> (\<forall>p \<in> set (proxy_ports rt). PROXY_START_PORT \<le> p)"
proof -
  from start_services_inv [OF assms(1-3)]
  have ports: "proxy_ports rt = map (\<lambda>k. PROXY_START_PORT + of_nat k) [0..<length (proxy_ports rt)]"
    by (simp add: monitors_inv_def)
  have val: "unat (PROXY_START_PORT + of_nat k) = 10000 + k" if "k < length (proxy_ports rt)" for k
    using that assms(4) by (simp add: PROXY_START_PORT_def unat_word_ariths unat_of_nat)
  have "distinct (map (\<lambda>k. PROXY_START_PORT + (of_nat k :: u16)) [0..<length (proxy_ports rt)])"
  proof (subst distinct_map, intro conjI inj_onI)
    fix x y
    assume "x \<in> set [0..<length (proxy_ports rt)]" "y \<in> set [0..<length (proxy_ports rt)]"
      "PROXY_START_PORT + (of_nat x :: u16) = PROXY_START_PORT + of_nat y"
    then have "10000 + x = 10000 + y" using val [of x] val [of y] by (metis atLeastLessThan_iff set_upt)
    then show "x = y" by simp
  qed simp
  moreover have "PROXY_START_PORT \<le> PROXY_START_PORT + of_nat k" if "k < length (proxy_ports rt)" for k
    using val [OF that] by (simp add: word_le_nat_alt PROXY_START_PORT_def)
  moreover have "\<exists>k < length (proxy_ports rt). p = PROXY_START_PORT + of_nat k" if "p \<in> set (proxy_ports rt)" for p
    using that by (subst (asm) ports) auto
  ultimately show ?thesis using ports by metis
qed

end
