(* ===== verification/Daemon_Props.thy ===== *)
theory Daemon_Props
  imports Daemon_Core
begin

text \<open>
  What a cycle of the daemon guarantees: when its start succeeds and when it fails, that the
  commands keep at most one full setup under way, what ends a cycle and what the replies hold.
\<close>

section \<open>The start of a cycle\<close>

text \<open>
  A server whose monitors can be started: it has a token for which the clients can be built,
  the address of its panel is a URL, and each of its inbounds has an identifier with which the link to its
  subscription is a URL.
\<close>

definition panel_url :: "KetServer \<Rightarrow> string" where
  "panel_url s = ''https://'' @ uihostname s @ ''/'' @ xui_webpath (srv_secrets s) @ ''/''"

definition startable :: "PanelEnv \<Rightarrow> KetServer \<Rightarrow> bool" where
  "startable env s \<longleftrightarrow> (\<exists>token. xui_token (srv_secrets s) = Some token \<and> pn_clients env token = Inr ())
     \<and> url_parse (pn_crates env) (panel_url s) \<noteq> None
     \<and> list_all (\<lambda>i. \<exists>subid. mother_subids (srv_secrets s) (inb_name i) = Some subid
         \<and> url_parse (pn_crates env) (''https://'' @ subhostname s @ ''/'' @ xui_jsubpath (srv_secrets s) @ ''/'' @ subid) \<noteq> None)
       (srv_inbounds s)"

text \<open>A server of the running cloud: one that is served has clients with its own credentials and no session yet.\<close>

definition opened :: "PanelEnv \<Rightarrow> KetServer \<Rightarrow> KetServer \<Rightarrow> bool" where
  "opened env s t \<longleftrightarrow>
     (if served s
      then \<exists>url token. url_parse (pn_crates env) (panel_url s) = Some url \<and> xui_token (srv_secrets s) = Some token
        \<and> t = s\<lparr>srv_xui := Some \<lparr>xu_url_global = url, xu_username = xui_username (srv_secrets s),
            xu_password = xui_password (srv_secrets s), xu_token = token, xu_cookie_count = 0\<rparr>\<rparr>
      else t = s)"

lemma new_xui_client_opened:
  "served s \<Longrightarrow> new_xui_client env s = Inr t \<Longrightarrow> opened env s t"
  by (auto simp: new_xui_client_def opened_def panel_url_def)

lemma new_xui_client_total: "startable env s \<Longrightarrow> \<exists>x. new_xui_client env s = Inr (s\<lparr>srv_xui := Some x\<rparr>)"
  by (auto simp: new_xui_client_def startable_def panel_url_def)

lemma start_server_total:
  assumes "startable env s"
  shows "\<exists>acc'. start_server env acc s = Inr acc'"
proof -
  obtain x where t: "new_xui_client env s = Inr (s\<lparr>srv_xui := Some x\<rparr>)" (is "_ = Inr ?t")
    using new_xui_client_total [OF assms] by blast
  have inb: "\<exists>rt'. start_inbound (pn_crates env) ?t rt i = Inr rt'" if i: "i \<in> set (srv_inbounds ?t)" for rt i
  proof -
    obtain subid where "mother_subids (srv_secrets s) (inb_name i) = Some subid"
      "url_parse (pn_crates env) (''https://'' @ subhostname s @ ''/'' @ xui_jsubpath (srv_secrets s) @ ''/'' @ subid) \<noteq> None"
      using i assms by (auto simp: startable_def list_all_iff)
    moreover have "subhostname ?t = subhostname s" by (simp add: subhostname_def)
    ultimately show ?thesis by (auto simp: start_inbound_Inr get_jsub_def)
  qed
  have "\<exists>rt3. try_fold (start_inbound (pn_crates env) ?t) rt (srv_inbounds ?t) = Inr rt3" for rt
    by (rule try_fold_total) (rule inb)
  then show ?thesis by (cases acc) (auto simp: start_server_def start_upkeep_def t Let_def)
qed

lemma start_services_total:
  assumes "\<forall>s \<in> set (servers cloud). served s \<longrightarrow> startable env s"
  shows "\<exists>rt' cloud'. start_services env cloud rt = Inr (rt', cloud')"
proof -
  have "\<exists>acc'. try_fold (start_server env) acc (filter served (servers cloud)) = Inr acc'" for acc
    by (rule try_fold_total) (rule start_server_total, use assms in auto)
  then show ?thesis by (auto simp: start_services_def Let_def)
qed

text \<open>What the start does to the cloud: it stores the clients of the servers it serves, and nothing else.\<close>

lemma start_server_cloud:
  assumes "start_server env (rt, c) s = Inr (rt', c')"
  shows "\<exists>t. new_xui_client env s = Inr t \<and> c' = update_server (srv_name s) (\<lambda>_. t) c"
  using assms new_xui_client_Inr by (auto simp: start_server_def Let_def)

lemma start_servers_cloud:
  assumes "try_fold (start_server env) (rt, c) ss = Inr (rt', c')" "distinct (map srv_name ss)"
  shows "\<exists>f. (\<forall>s \<in> set ss. new_xui_client env s = Inr (f (srv_name s)))
    \<and> c' = c\<lparr>servers := map (\<lambda>s. if srv_name s \<in> srv_name ` set ss then f (srv_name s) else s) (servers c)\<rparr>"
  using assms
proof (induction ss arbitrary: rt c)
  case (Cons s ss)
  from Cons.prems(1) obtain rt1 c1 where first: "start_server env (rt, c) s = Inr (rt1, c1)"
    and rest: "try_fold (start_server env) (rt1, c1) ss = Inr (rt', c')" by auto
  from start_server_cloud [OF first] obtain t where t: "new_xui_client env s = Inr t"
    "c1 = update_server (srv_name s) (\<lambda>_. t) c" by blast
  have name: "srv_name t = srv_name s" using new_xui_client_Inr [OF t(1)] by simp
  obtain f where f: "\<forall>s \<in> set ss. new_xui_client env s = Inr (f (srv_name s))"
    "c' = c1\<lparr>servers := map (\<lambda>s. if srv_name s \<in> srv_name ` set ss then f (srv_name s) else s) (servers c1)\<rparr>"
    using Cons.IH [OF rest] Cons.prems(2) by auto
  let ?g = "f(srv_name s := t)"
  have "\<forall>x \<in> set (s # ss). new_xui_client env x = Inr (?g (srv_name x))"
    using f(1) t(1) Cons.prems(2) by (auto simp: image_iff)
  moreover have "c' = c\<lparr>servers := map (\<lambda>x. if srv_name x \<in> srv_name ` set (s # ss) then ?g (srv_name x) else x) (servers c)\<rparr>"
    using f(2) t(2) name Cons.prems(2) by (auto simp: update_server_def)
  ultimately show ?case by blast
qed simp

lemma list_all2_refl_set: "(\<And>x. x \<in> set xs \<Longrightarrow> P x x) \<Longrightarrow> list_all2 P xs xs"
  by (simp add: list_all2_same)

lemma start_services_cloud:
  assumes "start_services env c rt = Inr (rt', c')" "distinct (server_names c)"
  shows "\<exists>ss. c' = c\<lparr>servers := ss\<rparr> \<and> list_all2 (opened env) (servers c) ss"
proof (cases "filter served (servers c) = []")
  case True
  then have "c' = c" using assms(1) by (simp add: start_services_def)
  moreover have "list_all2 (opened env) (servers c) (servers c)"
    using True by (auto simp: filter_empty_conv opened_def list_all2_same)
  ultimately show ?thesis by (intro exI [of _ "servers c"]) simp
next
  case False
  then have "try_fold (start_server env) (start_task Aggregator rt, c) (filter served (servers c)) = Inr (rt', c')"
    using assms(1) by (simp add: start_services_def)
  from start_servers_cloud [OF this distinct_map_filter [OF assms(2)]] obtain f where
    f: "\<forall>s \<in> set (filter served (servers c)). new_xui_client env s = Inr (f (srv_name s))"
    "c' = c\<lparr>servers := map (\<lambda>s. if srv_name s \<in> srv_name ` set (filter served (servers c)) then f (srv_name s) else s) (servers c)\<rparr>"
    by blast
  have "opened env s (if srv_name s \<in> srv_name ` set (filter served (servers c)) then f (srv_name s) else s)"
    if s: "s \<in> set (servers c)" for s
  proof -
    have "served s \<longleftrightarrow> srv_name s \<in> srv_name ` set (filter served (servers c))"
      using s assms(2) by (auto simp: image_iff distinct_map dest: inj_onD)
    then show ?thesis
      using f(1) s new_xui_client_opened by (simp add: opened_def split: if_splits)
  qed
  then have "list_all2 (opened env) (servers c)
      (map (\<lambda>s. if srv_name s \<in> srv_name ` set (filter served (servers c)) then f (srv_name s) else s) (servers c))"
    unfolding list_all2_map2 by (intro list_all2_refl_set)
  then show ?thesis using f(2) by blast
qed

text \<open>A database with all references intact becomes one with the full schema.\<close>

definition intact :: "Db \<Rightarrow> bool" where
  "intact db \<longleftrightarrow> fst ` dom (db_stats db) \<subseteq> dom (db_servers db) \<and> fst ` dom (db_inbounds db) \<subseteq> dom (db_servers db)"

lemma core_start_unfold:
  assumes "dn_new_cloud init = Some new" "dn_old_cloud init = Some old"
  shows "core_start env init (db, w) = via (apply_cloud env init old new) (\<lambda>c. pure (start_services (cv_panel env) c fresh_runtime))
    (snd (create_db db), w)"
  using assms by (simp add: core_start_def new_cloud_of_def old_cloud_of_def create_db_result fresh_runtime_def Let_def)

text \<open>
  C11. A cycle starts: after a command has handed over the running and the declared cloud, and they
  have been reconciled to a cloud that can be stored, in which every enabled Production server can be started
  (it has a token, identifiers for its inbounds, and proper URLs), the daemon comes up: the database holds exactly
  that cloud, the running cloud is that cloud with clients, built from their own credentials, in the served servers and
  with no other difference, and every service of every served server has its monitor, and nothing else has.
\<close>

theorem cycle_starts:
  assumes "dn_new_cloud init = Some new" "dn_old_cloud init = Some old" "intact db" "cv_config_file env = Inr txt"
    and rec: "reconcile_cloud (cv_api env) (cv_rm_dir env) (cv_run env) (cv_sched env) (cv_walk env) old new
      (dn_mode init) (cv_cf_list env) (dn_rebase_data init) w = (Inr (c, lst), w')"
    and c: "storable_cloud c" "\<forall>s \<in> set (servers c). served s \<longrightarrow> startable (cv_panel env) s"
  shows "\<exists>rt ss. core_start env init (db, w)
      = (Inr (rt, c\<lparr>servers := ss\<rparr>), (stored (cv_db env) txt c (snd (create_db db)), w'))
    \<and> list_all2 (opened (cv_panel env)) (servers c) ss
    \<and> map svc_of (rt_monitors rt)
        = concat (map (\<lambda>s. map (Pair (srv_name s)) (svc_kinds s)) (filter served (servers c)))"
proof -
  have schema: "has_schema (snd (create_db db))" using assms(3) by (simp add: create_db_schema intact_def)
  have names: "distinct (server_names c)" "\<forall>s \<in> set (servers c). distinct (map inb_name (srv_inbounds s))"
    using c(1) by (simp_all add: storable_cloud_def storable_def list_all_iff)
  have applied: "apply_cloud env init old new (snd (create_db db), w) = (Inr c, (stored (cv_db env) txt c (snd (create_db db)), w'))"
    by (simp add: apply_cloud_def rec assms(4) update_db_stored [OF schema c(1)])
  obtain rt c' where svc: "start_services (cv_panel env) c fresh_runtime = Inr (rt, c')"
    using start_services_total [OF c(2)] by blast
  obtain ss where ss: "c' = c\<lparr>servers := ss\<rparr>" "list_all2 (opened (cv_panel env)) (servers c) ss"
    using start_services_cloud [OF svc names(1)] by blast
  have "core_start env init (db, w) = (Inr (rt, c\<lparr>servers := ss\<rparr>), (stored (cv_db env) txt c (snd (create_db db)), w'))"
    using svc ss(1) by (simp add: core_start_unfold [OF assms(1,2)] applied via_def pure_def)
  with ss(2) start_services_inv [OF svc names] show ?thesis by blast
qed

lemma linked_inbounds: "linked mode s t \<Longrightarrow> srv_inbounds t = srv_inbounds s"
  by (auto simp: linked_def split: if_splits) (metis KetServer.select_convs(13) KetServer.surjective KetServer.update_convs(15,17))+

text \<open>
  C38. A Remap that declares an inbound the running server does not have takes the daemon down: the
  merged server keeps the old secrets, which hold no identifier for it, so writing the cloud fails
  after the table of servers has been replaced, and the error ends the daemon.
\<close>

theorem remap_added_inbound_fatal:
  assumes "dn_new_cloud init = Some new" "dn_old_cloud init = Some old" "dn_mode init = Remap"
    and "intact db" "cv_config_file env = Inr txt"
    and rec: "reconcile_cloud (cv_api env) (cv_rm_dir env) (cv_run env) (cv_sched env) (cv_walk env) old new
      Remap (cv_cf_list env) (dn_rebase_data init) w = (Inr (c, lst), w')"
    and walk: "is_walk (cv_walk env) (set (server_names old) \<union> set (server_names new))"
    and uniq: "distinct (server_names old)" "distinct (server_names new)"
    and ol: "ol \<in> set (servers old)" and n: "n \<in> set (servers new)" "srv_name n = srv_name ol"
    and i: "i \<in> set (srv_inbounds n)" "mother_subids (srv_secrets ol) (inb_name i) = None"
  shows "\<exists>e db'. core_start env init (db, w) = (Inl e, (db', w')) \<and> db_servers db' = server_table (cv_db env) c"
proof -
  have ne: "servers old \<noteq> []" using ol by auto
  from reconcile_result [OF rec ne walk] obtain m :: Cloud where m: "distinct (server_names m)"
    "set (server_names m) = set (server_names new)" "list_all2 (linked Remap) (servers m) (servers c)" by blast
  have names: "server_names c = server_names m" by (rule list_all2_map_eq [OF m(3) linked_fields(1)])
  then obtain t where t: "t \<in> set (servers c)" "srv_name t = srv_name ol" using m(2) n by (metis image_iff list.set_map)
  obtain s n' where s: "by_name new (srv_name ol) = Some n'" "linked Remap s t"
    "merge_server Remap (inbound_nps (inbound_set (settings new))) ol n' = Inr s"
    by (rule reconciled_merge [OF rec walk uniq(1) ol t])
  have "n' = n" using s(1) n by (metis by_name_find [OF uniq(2)] find_server_unique [OF uniq(2)] option.inject)
  then have "i \<in> set (srv_inbounds t)" "mother_subids (srv_secrets t) (inb_name i) = None"
    using i s(2,3) linked_inbounds [OF s(2)] linked_fields(4) [OF s(2)] by (auto simp: merge_server_def remap_merge_def)
  moreover have "has_schema (snd (create_db db))" using assms(4) by (simp add: create_db_schema intact_def)
  ultimately obtain e db' where "update_db (cv_db env) (Inr txt) c (snd (create_db db)) = (Inl e, db')"
    "db_servers db' = server_table (cv_db env) c"
    using missing_subid_half_update t(1) m(1) names by metis
  then show ?thesis
    by (simp add: core_start_unfold [OF assms(1,2)] apply_cloud_def assms(3,5) rec via_def)
qed

section \<open>One full setup at a time\<close>

text \<open>
  What happens to the core between two cycles: it handles a command or a signal, a task ends by
  itself, or a task stores into the shared cells of a server.
\<close>

datatype DaemonEvent =
    Handle CheckEnv "KetServer \<Rightarrow> string res" DaemonComm
  | Signalled CheckEnv "KetServer \<Rightarrow> string res" UnixSignal
  | TaskEnds TaskEntry
  | CellsChange Cloud

definition continue :: "CoreStep \<Rightarrow> CoreState \<Rightarrow> CoreState" where
  "continue r st = (case r of Goes _ st' \<Rightarrow> st' | _ \<Rightarrow> st)"

fun daemon_event :: "CoreState \<Rightarrow> DaemonEvent \<Rightarrow> CoreState" where
  "daemon_event st (Handle env clients cmd) = continue (core_step env clients st cmd) st"
| "daemon_event st (Signalled env clients sig) = continue (sigx_watcher env clients st sig) st"
| "daemon_event st (TaskEnds e) = st\<lparr>co_tasks := finish_task e (co_tasks st)\<rparr>"
| "daemon_event st (CellsChange c) = st\<lparr>co_cloud := c\<rparr>"

definition setups :: "TaskMap \<Rightarrow> TaskMap" where
  "setups m = filter (\<lambda>(e, h). full_setup_server e \<noteq> None) m"

definition detached :: "TaskMap \<Rightarrow> bool" where
  "detached m \<longleftrightarrow> (\<forall>(e, h) \<in> set m. \<exists>b. h = Detached b)"

definition one_setup :: "TaskMap \<Rightarrow> bool" where
  "one_setup m \<longleftrightarrow> distinct (map fst m) \<and> detached m \<and> length (setups m) \<le> 1"

lemma distinct_fst_filter: "distinct (map fst m) \<Longrightarrow> distinct (map fst (filter P m))"
  by (induction m) auto

lemma setups_remove: "setups (remove_task e m) = remove_task e (setups m)"
  unfolding setups_def remove_task_def filter_filter by (rule filter_cong) auto

lemma one_setup_remove:
  assumes "one_setup m"
  shows "one_setup (remove_task e m)"
proof -
  have "length (setups (remove_task e m)) \<le> length (setups m)"
    unfolding setups_remove by (simp add: remove_task_def)
  then show ?thesis
    using assms by (auto simp: one_setup_def detached_def distinct_fst_filter remove_task_def)
qed

lemma one_setup_finish: "one_setup m \<Longrightarrow> one_setup (finish_task e m)"
proof -
  have "map fst (finish_task e m) = map fst m" by (induction m) (auto simp: finish_task_def)
  moreover have "length (setups (finish_task e m)) = length (setups m)"
    by (induction m) (auto simp: finish_task_def setups_def)
  moreover have "detached m \<Longrightarrow> detached (finish_task e m)" by (auto simp: detached_def finish_task_def)
  ultimately show "one_setup m \<Longrightarrow> one_setup (finish_task e m)" by (simp add: one_setup_def)
qed

lemma one_setup_spawn:
  assumes "one_setup m" "full_setup_server e \<noteq> None \<longrightarrow> setups m = []"
  shows "one_setup (spawn_entry e m)"
  using assms by (auto simp: one_setup_def spawn_entry_def setups_def detached_def get_task_None)

text \<open>The first full setup of the map is the only one, so when it is removed none is left.\<close>

lemma only_setup:
  assumes "one_setup m" "find (\<lambda>(e, _). full_setup_server e \<noteq> None) m = Some (entry, h)"
  shows "setups (remove_task entry m) = []" "get_task entry m = Some h"
proof -
  have mem: "(entry, h) \<in> set m" "full_setup_server entry \<noteq> None" using find_Some_in [OF assms(2)] by auto
  then have "(entry, h) \<in> set (setups m)" by (simp add: setups_def)
  moreover have "length (setups m) \<le> 1" using assms(1) by (simp add: one_setup_def)
  ultimately have "setups m = [(entry, h)]" by (cases "setups m") auto
  then show "setups (remove_task entry m) = []" unfolding setups_remove by (simp add: remove_task_def)
  show "get_task entry m = Some h" using assms(1) mem by (simp add: get_task_def one_setup_def)
qed

lemma no_setup: "find (\<lambda>(e, _). full_setup_server e \<noteq> None) m = None \<Longrightarrow> setups m = []"
  by (auto simp: setups_def find_None_iff filter_empty_conv)

lemma expand_one_setup:
  assumes "one_setup m"
  shows "one_setup (snd (expand_cloud cloud opt m))"
proof (cases "choose_server cloud opt")
  case (Inl e)
  then show ?thesis using assms by (simp add: expand_cloud_def)
next
  case (Inr s)
  show ?thesis
  proof (cases "find (\<lambda>(e, _). full_setup_server e \<noteq> None) m")
    case None
    then show ?thesis using assms Inr one_setup_spawn no_setup [OF None] by (simp add: expand_cloud_def Let_def)
  next
    case (Some p)
    obtain entry h where p: "p = (entry, h)" by fastforce
    note only = only_setup [OF assms Some [unfolded p]]
    show ?thesis
      using assms Inr only Some p one_setup_spawn [OF one_setup_remove [OF assms]]
      by (auto simp: expand_cloud_def Let_def split: TaskHandle.split)
  qed
qed

lemma destroy_one_setup: "one_setup m \<Longrightarrow> one_setup (snd (perform_server_destruction cloud name m))"
  by (auto simp: perform_server_destruction_def one_setup_spawn split: option.splits ServerState.splits bool.splits)

lemma core_step_one_setup:
  assumes "core_step env clients st cmd = Goes r st'" "one_setup (co_tasks st)"
  shows "one_setup (co_tasks st')"
proof (cases cmd)
  case (DExpand opt)
  then show ?thesis using assms expand_one_setup [of "co_tasks st" "co_cloud st" opt]
    by (auto simp: core_step_def split: prod.splits)
next
  case (DDestroy name)
  then show ?thesis using assms destroy_one_setup [of "co_tasks st" "co_cloud st" name]
    by (auto simp: core_step_def split: prod.splits)
next
  case (DSetupInquiry entry)
  then show ?thesis using assms one_setup_remove by (auto simp: core_step_def setup_inquiry_def Let_def)
qed (use assms in \<open>auto simp: core_step_def split: sum.splits option.splits prod.splits\<close>)

lemma event_one_setup: "one_setup (co_tasks st) \<Longrightarrow> one_setup (co_tasks (daemon_event st ev))"
proof (cases ev)
  case (Signalled env clients sig)
  then show "one_setup (co_tasks st) \<Longrightarrow> one_setup (co_tasks (daemon_event st ev))"
    using core_step_one_setup one_setup_finish
    by (auto simp: continue_def sigx_watcher_def split: CoreStep.splits)
qed (auto simp: continue_def one_setup_finish dest: core_step_one_setup split: CoreStep.splits)

interpretation daemon: step_system daemon_event "\<lambda>st. one_setup (co_tasks st)" "\<lambda>_. True"
  by unfold_locales (rule event_one_setup)

lemma spawn_plain:
  assumes "one_setup m \<and> setups m = []" "full_setup_server e = None"
  shows "one_setup (spawn_entry e m) \<and> setups (spawn_entry e m) = []"
  using assms one_setup_spawn by (auto simp: spawn_entry_def setups_def)

definition no_setups :: "Runtime \<Rightarrow> bool" where
  "no_setups rt \<longleftrightarrow> one_setup (rt_tasks rt) \<and> setups (rt_tasks rt) = []"

lemma no_setups_start: "no_setups rt \<Longrightarrow> full_setup_server e = None \<Longrightarrow> no_setups (start_task e rt)"
  by (simp add: no_setups_def start_task_def spawn_plain)

lemma no_setups_monitor: "no_setups rt \<Longrightarrow> no_setups (start_monitor_task info rt)"
proof -
  have "full_setup_server (svc_task info) = None" by (simp add: svc_task_def split: SvcKind.split)
  then show "no_setups rt \<Longrightarrow> no_setups (start_monitor_task info rt)"
    by (simp add: no_setups_def start_monitor_task_def register_action_def spawn_plain Let_def)
qed

lemma no_setups_server:
  assumes "start_server env acc s = Inr acc'" "no_setups (fst acc)"
  shows "no_setups (fst acc')"
proof -
  obtain t rt1 rt3 where t: "try_fold (start_inbound (pn_crates env) t) rt1 (srv_inbounds t) = Inr rt3" "no_setups rt1"
    and acc': "fst acc' = start_task (AcmeChecker (srv_name t)) (start_task (XuiDbPruner (srv_name t)) rt3)"
    using assms by (auto simp: start_server_def start_upkeep_def Let_def no_setups_monitor split: prod.splits)
  have "no_setups rt3"
    using t(1,2) by (rule try_fold_invariant)
      (auto simp: start_inbound_Inr no_setups_def intro!: no_setups_monitor [unfolded no_setups_def])
  then show ?thesis by (simp add: acc' no_setups_start)
qed

lemma start_services_no_setups:
  assumes "start_services env cloud fresh_runtime = Inr rc"
  shows "no_setups (fst rc)"
proof -
  have "no_setups prepare_runtime"
    by (simp add: prepare_runtime_def no_setups_def one_setup_def setups_def detached_def)
  then have fresh: "no_setups fresh_runtime" by (simp add: fresh_runtime_def no_setups_start)
  show ?thesis
  proof (cases "filter served (servers cloud) = []")
    case True
    then show ?thesis using assms fresh by (auto simp: start_services_def)
  next
    case False
    then have "try_fold (start_server env) (start_task Aggregator fresh_runtime, cloud) (filter served (servers cloud)) = Inr rc"
      using assms by (simp add: start_services_def Let_def)
    then show ?thesis
      by (rule try_fold_invariant) (use fresh no_setups_start no_setups_server in auto)
  qed
qed

text \<open>
  C13. At most one full setup runs: from the start of a cycle on, through any sequence of commands,
  signals, ending tasks and changes of the servers' states, the task map never holds two full
  setups that have not finished.
\<close>

theorem single_full_setup:
  assumes "start_services env cloud fresh_runtime = Inr rc"
  shows "length (filter (\<lambda>(e, h). full_setup_server e \<noteq> None \<and> \<not> handle_finished h)
    (co_tasks (foldl daemon_event (core_state ans rc) es))) \<le> 1"
proof -
  let ?m = "co_tasks (foldl daemon_event (core_state ans rc) es)"
  have "one_setup ?m"
    by (rule daemon.run_inv)
      (use start_services_no_setups [OF assms] in \<open>simp_all add: core_state_def no_setups_def list_all_iff\<close>)
  then have "length (setups ?m) \<le> 1" by (simp add: one_setup_def)
  moreover have "filter (\<lambda>(e, h). full_setup_server e \<noteq> None \<and> \<not> handle_finished h) ?m
      = filter (\<lambda>(e, h). \<not> handle_finished h) (setups ?m)"
    unfolding setups_def filter_filter by (rule filter_cong) auto
  ultimately show ?thesis by (metis (no_types, lifting) le_trans length_filter_le)
qed

lemma choose_server_Inr:
  assumes "choose_server cloud opt = Inr s"
  shows "s \<in> set (servers cloud) \<and> fresh_server s \<and> (\<forall>nm. opt = Some nm \<longrightarrow> srv_name s = nm)"
proof (cases opt)
  case None
  then show ?thesis using assms find_Some_in [of fresh_server "servers cloud"]
    by (auto simp: choose_server_def split: option.splits)
next
  case (Some nm)
  then show ?thesis using assms find_server_Some [of nm cloud]
    by (auto simp: choose_server_def fresh_server_def split: option.splits if_splits ServerState.splits)
qed

lemma expand_cases:
  assumes "expand_cloud cloud opt m = (r, m')"
  shows "m' = m \<or> (\<exists>s. choose_server cloud opt = Inr s \<and> (m' = spawn_entry (FullSetupTask (srv_name s)) m
    \<or> (\<exists>d. m' = spawn_entry (FullSetupTask (srv_name s)) (remove_task d m))))"
proof (cases "choose_server cloud opt")
  case (Inl e)
  then show ?thesis using assms by (simp add: expand_cloud_def)
next
  case (Inr s)
  then show ?thesis
    using assms by (auto simp: expand_cloud_def Let_def split: option.splits TaskHandle.splits if_splits)
qed

text \<open>
  C14. Only fresh servers are provisioned: when an expansion adds a full setup to the task map, it is
  for a server of the cloud that is enabled, Offgrid and has no token yet, the named one if a name
  was given.
\<close>

theorem expand_provisions_fresh:
  assumes "expand_cloud cloud opt m = (r, m')" "e \<in> fst ` set m'" "e \<notin> fst ` set m"
  shows "\<exists>s \<in> set (servers cloud). e = FullSetupTask (srv_name s) \<and> srv_enabled s \<and> srv_state s = Offgrid
    \<and> xui_token (srv_secrets s) = None \<and> (\<forall>nm. opt = Some nm \<longrightarrow> srv_name s = nm)"
proof -
  have "set (remove_task d m) \<subseteq> set m" for d by (auto simp: remove_task_def)
  with expand_cases [OF assms(1)] assms(2,3) obtain s m0 where
    s: "choose_server cloud opt = Inr s" "set m0 \<subseteq> set m" "m' = spawn_entry (FullSetupTask (srv_name s)) m0" by (metis order_refl)
  then have "e = FullSetupTask (srv_name s)"
    using assms(2,3) by (auto simp: spawn_entry_def split: if_splits)
  then show ?thesis using choose_server_Inr [OF s(1)] by (auto simp: fresh_server_def)
qed

section \<open>Signals\<close>

definition deaf :: "CoreState \<Rightarrow> bool" where
  "deaf st \<longleftrightarrow> get_task SignalWatcher (co_tasks st) \<noteq> Some (Detached False)"

lemma get_task_spawn: "e' \<noteq> e \<Longrightarrow> get_task e' (spawn_entry e m) = get_task e' m"
  by (auto simp: get_task_def spawn_entry_def map_add_def split: option.split)

lemma get_task_remove: "get_task e' (remove_task e m) = (if e' = e then None else get_task e' m)"
  by (induction m) (auto simp: get_task_def remove_task_def)

lemma get_task_finish: "get_task e' (finish_task e m) = (if e' = e then map_option (\<lambda>_. Detached True) (get_task e' m) else get_task e' m)"
  by (induction m) (auto simp: get_task_def finish_task_def)

lemma core_step_deaf:
  assumes "core_step env clients st cmd = Goes r st'" "deaf st"
  shows "deaf st'"
proof (cases cmd)
  case (DExpand opt)
  obtain r m' where m': "expand_cloud (co_cloud st) opt (co_tasks st) = (r, m')" by fastforce
  from expand_cases [OF m'] have "get_task SignalWatcher m' = get_task SignalWatcher (co_tasks st) \<or> get_task SignalWatcher m' = None"
    by (auto simp: get_task_spawn get_task_remove split: if_splits)
  then show ?thesis using assms DExpand m' by (auto simp: core_step_def deaf_def)
next
  case (DDestroy name)
  then show ?thesis using assms
    by (auto simp: core_step_def deaf_def perform_server_destruction_def get_task_spawn
        split: prod.splits option.splits ServerState.splits bool.splits if_splits)
next
  case (DSetupInquiry entry)
  then show ?thesis using assms by (auto simp: core_step_def setup_inquiry_def deaf_def get_task_remove Let_def split: if_splits)
qed (use assms in \<open>auto simp: core_step_def deaf_def split: sum.splits option.splits prod.splits\<close>)

lemma event_deaf:
  assumes "deaf st"
  shows "deaf (daemon_event st ev)"
proof (cases ev)
  case (TaskEnds e)
  then show ?thesis using assms by (auto simp: deaf_def get_task_finish)
qed (use assms core_step_deaf in \<open>auto simp: continue_def sigx_watcher_def deaf_def split: CoreStep.splits\<close>)

interpretation deaf: step_system daemon_event deaf "\<lambda>_. True"
  by unfold_locales (rule event_deaf)

text \<open>
  A SIGHUP with a broken configuration file makes the daemon deaf to signals: the reload is
  refused and the cycle goes on, but the watcher has ended with it, so no later signal, not even
  SIGINT or SIGTERM, reaches the core for the rest of the cycle.
\<close>

lemma refused_reload_ends_watcher:
  assumes "ce_parsed env = Inl err"
  shows "sigx_watcher env' clients' (foldl daemon_event (daemon_event st (Signalled env clients SIGHUP)) es) sig
    = Goes None (foldl daemon_event (daemon_event st (Signalled env clients SIGHUP)) es)"
proof -
  have "deaf (daemon_event st (Signalled env clients SIGHUP))"
    by (auto simp: continue_def sigx_watcher_def core_step_def check_and_backup_def assms deaf_def get_task_finish Let_def)
  from deaf.run_inv [OF this, of es] show ?thesis by (simp add: sigx_watcher_def deaf_def list_all_iff)
qed

section \<open>The end of a cycle\<close>

text \<open>
  A rejected change leaves the daemon as it is: if the configuration file does not pass its
  check, or a Rebase finds a difference it must not apply, the command is answered with an error
  and the core goes on in the very state it had.
\<close>

lemma refused_change_keeps_core:
  assumes "cmd \<in> {DReload, DRestart, DRemap} \<union> range DRebase"
    and "ce_parsed env = Inl err \<or> (\<exists>forced new. cmd = DRebase forced \<and> ce_parsed env = Inr new
      \<and> create_rebase_data forced (ce_order env) (ce_iorder env) (co_cloud st) new = Inl err)"
  shows "\<exists>err'. core_step env clients st cmd = Goes (Some (Inl err')) st"
  using assms by (auto simp: core_step_def check_and_backup_def Let_def)

text \<open>
  C15. A cycle hands over to the next one: it returns only for a shutdown, which leaves the daemon,
  or with the running cloud and a declared cloud that passed its check, after a backup was made; a
  Rebase is never handed over without its comparison.
\<close>

theorem cycle_handover:
  assumes "core_step env clients st cmd = Returns reply next"
  shows "(cmd = DShutdown \<and> outer_step (dn_code next) = Leave)
    \<or> (\<exists>new. ce_parsed env = Inr new \<and> ce_backup env (comm_to_string cmd) = Inr ()
        \<and> dn_old_cloud next = Some (co_cloud st) \<and> dn_new_cloud next = Some new
        \<and> outer_step (dn_code next) = (if cmd = DRestart then Recheck else Again)
        \<and> (dn_mode next = Rebase \<longleftrightarrow> dn_rebase_data next \<noteq> None)
        \<and> (\<forall>data. dn_rebase_data next = Some data \<longrightarrow> (\<exists>forced. cmd = DRebase forced
             \<and> create_rebase_data forced (ce_order env) (ce_iorder env) (co_cloud st) new = Inr data)))"
  using assms
  by (cases cmd) (auto simp: core_step_def check_and_backup_def shutdown_exit_def outer_step_def EXIT_OK_def EXIT_ERROR_def
      EXIT_RESTART_def EXIT_RELOAD_def EXIT_REMAP_def EXIT_REBASE_def Let_def split: sum.splits option.splits prod.splits)

section \<open>Status\<close>

lemma ask_monitor_simps [simp]:
  "ask_monitor (e, Some a) = Inr a" "ask_monitor (e, None) = Inl (External ''channel closed'')"
  by (simp_all add: ask_monitor_def)

lemma ask_all: "(\<exists>err. try_map ask_monitor chat = Inl err) \<longleftrightarrow> (\<exists>e. (e, None) \<in> set chat)"
proof (induction chat)
  case (Cons c chat)
  obtain e ans where c: "c = (e, ans)" by fastforce
  show ?case using Cons by (cases ans; cases "try_map ask_monitor chat") (auto simp: c)
qed simp

text \<open>
  One ended monitor is enough to take the daemon down: asking for the status, or resetting the
  attempts, fails exactly if the channel of some monitor is closed, and this failure is not answered
  but ends the core.
\<close>

lemma status_fails_iff:
  "((\<exists>err. core_step env clients st (DStatus full) = Fails err) \<longleftrightarrow> (\<exists>e. (e, None) \<in> set (co_chat st)))
   \<and> ((\<exists>err. core_step env clients st DResetFix = Fails err) \<longleftrightarrow> (\<exists>e. (e, None) \<in> set (co_chat st)))"
  unfolding ask_all [symmetric] by (simp add: core_step_def split: sum.split)

definition all_ok :: string where
  "all_ok = ''All tasks are running. All services are Ok.''"

definition rows_of :: "(string \<times> SvcHealthSummary list) list \<Rightarrow> SvcHealthSummary list" where
  "rows_of hm = concat (map snd hm)"

lemma rows_push:
  "set (rows_of (map (\<lambda>(s, rows). (s, if s = nm then rows @ [row] else rows)) hm))
    = set (rows_of hm) \<union> (if nm \<in> fst ` set hm then {row} else {})"
proof (induction hm)
  case (Cons a hm)
  then show ?case by (cases "fst a = nm") (auto simp: rows_of_def split: prod.splits if_splits)
qed (simp add: rows_of_def)

lemma add_summary_rows:
  "set (rows_of (add_summary hm svc)) = insert \<lparr>shs_service = svc_nice_display (sum_service svc), shs_health = sum_health svc\<rparr> (set (rows_of hm))"
proof (cases "map_of hm (sum_server svc) = None")
  case True
  then show ?thesis by (simp add: add_summary_def rows_of_def Let_def)
next
  case False
  then have "sum_server svc \<in> fst ` set hm" by (simp add: map_of_eq_None_iff)
  then show ?thesis using False by (auto simp: add_summary_def rows_push Let_def)
qed

lemma summary_rows:
  "shs_health ` set (rows_of (foldl add_summary hm services)) = shs_health ` set (rows_of hm) \<union> sum_health ` set services"
  by (induction services arbitrary: hm) (auto simp: add_summary_rows)

lemma add_summary_ne: "add_summary hm svc \<noteq> []"
  by (auto simp: add_summary_def Let_def)

lemma summaries_empty: "foldl add_summary [] services = [] \<longleftrightarrow> services = []"
  by (induction services rule: rev_induct) (simp_all add: add_summary_ne)

lemma join_head: "ls \<noteq> [] \<Longrightarrow> hd ls \<noteq> [] \<Longrightarrow> join sep ls \<noteq> [] \<and> hd (join sep ls) = hd (hd ls)"
  by (cases ls; cases "tl ls") auto

lemma report_not_all_ok:
  assumes "ls \<noteq> []" "\<forall>l \<in> set ls. l \<noteq> [] \<and> hd l \<in> {CHR ''T'', CHR ''S''}"
  shows "join sep ls \<noteq> all_ok"
proof -
  have "hd ls \<in> set ls" using assms(1) by simp
  then have "hd (join sep ls) \<in> {CHR ''T'', CHR ''S''}" using join_head [OF assms(1)] assms(2) by simp
  then show ?thesis by (auto simp: all_ok_def)
qed

text \<open>
  The short status report is trustworthy: it says that all tasks are running and all services
  are Ok exactly if there is a service to report on, every task is running and every monitored
  service is Ok.
\<close>

lemma short_report_exact:
  "get_summary services tasks False = Message all_ok
   \<longleftrightarrow> services \<noteq> [] \<and> (\<forall>t \<in> set tasks. tsm_running t) \<and> (\<forall>s \<in> set services. sum_health s = HOk)"
proof -
  let ?hm = "foldl add_summary [] services"
  let ?cloud = "map (\<lambda>(s, rows). \<lparr>ss_server = s, ss_services = rows\<rparr>) ?hm"
  let ?crashed = "map (\<lambda>t. ''Task '' @ quoted (tsm_task t) @ '' has crashed.'') (filter (\<lambda>t. \<not> tsm_running t) tasks)"
  let ?bad = "concat (map (\<lambda>srv. map (\<lambda>svc. ''Service '' @ shs_service svc @ '' on server '' @ quoted (ss_server srv)
              @ '' is '' @ health_to_string (shs_health svc) @ ''.'')
            (filter (\<lambda>svc. shs_health svc \<noteq> HOk) (ss_services srv))) ?cloud)"
  let ?lines = "?crashed @ ?bad"
  have bad: "?bad = [] \<longleftrightarrow> (\<forall>s \<in> set services. sum_health s = HOk)"
  proof -
    have "?bad = [] \<longleftrightarrow> (\<forall>h \<in> shs_health ` set (rows_of ?hm). h = HOk)"
      by (auto simp: rows_of_def filter_empty_conv)
    also have "shs_health ` set (rows_of ?hm) = sum_health ` set services"
      using summary_rows [of "[]" services] by (simp add: rows_of_def)
    finally show ?thesis by simp
  qed
  have ne: "join [char_of (10 :: nat)] ?lines \<noteq> all_ok" if "?lines \<noteq> []"
    by (rule report_not_all_ok [OF that]) auto
  have "?crashed = [] \<longleftrightarrow> (\<forall>t \<in> set tasks. tsm_running t)" by (auto simp: filter_empty_conv)
  with bad have lines: "?lines = [] \<longleftrightarrow> (\<forall>t \<in> set tasks. tsm_running t) \<and> (\<forall>s \<in> set services. sum_health s = HOk)"
    by simp
  define L where "L = ?lines"
  have "get_summary services tasks False = Message (if L \<noteq> [] then join [char_of (10 :: nat)] L
      else if services = [] then ''All tasks are running.'' else all_ok)"
    by (simp add: get_summary_def humanize_status_report_def Let_def all_ok_def summaries_empty L_def)
  moreover have "''All tasks are running.'' \<noteq> all_ok" by (simp add: all_ok_def)
  ultimately show ?thesis using ne lines unfolding L_def [symmetric] by auto
qed

section \<open>Credentials\<close>

lemma creds_fold:
  assumes "distinct (map srv_name ss)" "srv_name ` set ss \<inter> dom hm = {}"
  shows "foldl (\<lambda>hm s. or_insert hm (srv_name s) (f s)) hm ss = hm ++ map_of (map (\<lambda>s. (srv_name s, f s)) ss)"
  using assms
proof (induction ss arbitrary: hm)
  case (Cons s ss)
  then have "hm (srv_name s) = None" by auto
  then have ins: "or_insert hm (srv_name s) (f s) = hm(srv_name s \<mapsto> f s)" by (simp add: or_insert_def)
  have "foldl (\<lambda>hm s. or_insert hm (srv_name s) (f s)) (hm(srv_name s \<mapsto> f s)) ss
      = hm(srv_name s \<mapsto> f s) ++ map_of (map (\<lambda>s. (srv_name s, f s)) ss)"
    by (rule Cons.IH) (use Cons.prems in \<open>simp_all del: fun_upd_apply\<close>)
  moreover have "srv_name s \<notin> dom (map_of (map (\<lambda>s. (srv_name s, f s)) ss))"
    using Cons.prems(1) by (auto simp: dom_map_of_conv_image_fst)
  ultimately show ?case by (simp add: ins map_add_upd_left del: or_insert_apply fun_upd_apply)
qed simp

text \<open>
  Credentials are shown for exactly the enabled Production servers, each under its own name, and
  without \<open>--show-all\<close> no user name, password or token is among them.
\<close>

lemma credentials_exact:
  assumes "distinct (server_names cloud)"
  shows "\<exists>m. build_servers_creds cloud show_all = Credentials m
    \<and> dom m = srv_name ` {s \<in> set (servers cloud). served s}
    \<and> (\<forall>s \<in> set (servers cloud). served s \<longrightarrow> m (srv_name s) = Some (server_creds show_all s))
    \<and> (\<not> show_all \<longrightarrow> (\<forall>c \<in> ran m. sc_xui_username c = None \<and> sc_xui_password c = None \<and> sc_xui_token c = None))"
proof -
  let ?ss = "filter served (servers cloud)"
  let ?m = "map_of (map (\<lambda>s. (srv_name s, server_creds show_all s)) ?ss)"
  have d: "distinct (map srv_name ?ss)" using assms by (rule distinct_map_filter)
  have creds: "build_servers_creds cloud show_all = Credentials ?m"
    "dom ?m = srv_name ` {s \<in> set (servers cloud). served s}"
    "\<forall>s \<in> set (servers cloud). served s \<longrightarrow> ?m (srv_name s) = Some (server_creds show_all s)"
    using creds_fold [OF d, of Map.empty] d
    by (simp_all add: build_servers_creds_def dom_map_of_conv_image_fst image_image comp_def map_of_is_SomeI)
  have "\<forall>c \<in> ran ?m. \<exists>s. c = server_creds show_all s" by (auto simp: ran_def dest!: map_of_SomeD)
  moreover have "sc_xui_username (server_creds False s) = None \<and> sc_xui_password (server_creds False s) = None
      \<and> sc_xui_token (server_creds False s) = None" for s
    by (simp add: server_creds_def Let_def)
  ultimately have "\<not> show_all \<longrightarrow> (\<forall>c \<in> ran ?m. sc_xui_username c = None \<and> sc_xui_password c = None \<and> sc_xui_token c = None)"
    by fastforce
  with creds show ?thesis by (intro exI [of _ ?m]) blast
qed

section \<open>Concrete instances\<close>

definition demo_live :: KetServer where
  "demo_live = (demo_server ''one'' 1 ''one.org'' Production)\<lparr>srv_inbounds := demo_set @ [super_inbound],
     srv_secrets := empty_secrets\<lparr>xui_token := Some ''t'',
       mother_subids := [''alpha'' \<mapsto> ''a1'', ''beta'' \<mapsto> ''b1'', super_name \<mapsto> super_name]\<rparr>\<rparr>"

definition demo_live_cloud :: Cloud where
  "demo_live_cloud = demo_cloud [demo_live, demo_server ''two'' 2 ''two.org'' Offgrid]"

lemmas demo_live_defs = demo_live_def demo_live_cloud_def demo_cloud_def super_inbound_def super_name_def demo_defs

lemma demo_live_served: "filter served (servers demo_live_cloud) = [demo_live]"
  by (simp add: served_def demo_live_defs)

lemma demo_live_startable: "startable demo_panel s" if "srv_secrets s = srv_secrets demo_live" "srv_inbounds s = srv_inbounds demo_live"
  using that by (simp add: startable_def demo_panel_def demo_live_defs)

lemma demo_started: obtains rt c where "start_services demo_panel demo_live_cloud fresh_runtime = Inr (rt, c)"
proof -
  have "\<forall>s \<in> set (servers demo_live_cloud). served s \<longrightarrow> startable demo_panel s"
  proof (intro ballI impI)
    fix s
    assume "s \<in> set (servers demo_live_cloud)" "served s"
    then have "s \<in> set (filter served (servers demo_live_cloud))" by simp
    then show "startable demo_panel s" using demo_live_startable by (simp add: demo_live_served)
  qed
  from start_services_total [OF this, of fresh_runtime] that show ?thesis by blast
qed

lemma demo_live_names: "distinct (server_names demo_live_cloud)"
  "\<forall>s \<in> set (servers demo_live_cloud). distinct (map inb_name (srv_inbounds s))"
  by (simp_all add: demo_live_defs)

theorem monitors_exact_witness:
  "\<exists>rt c. start_services demo_panel demo_live_cloud fresh_runtime = Inr (rt, c) \<and> distinct (rt_chat rt) \<and> length (rt_chat rt) = 5"
proof -
  obtain rt c where r: "start_services demo_panel demo_live_cloud fresh_runtime = Inr (rt, c)" by (rule demo_started)
  have "ndata demo_live_cloud = 5" by (simp add: ndata_def demo_live_served) (simp add: demo_live_defs)
  with monitors_exact [OF r demo_live_names] r show ?thesis by auto
qed

theorem proxy_ports_distinct_witness:
  "\<exists>rt c. start_services demo_panel demo_live_cloud fresh_runtime = Inr (rt, c) \<and> distinct (proxy_ports rt)"
proof -
  obtain rt c where r: "start_services demo_panel demo_live_cloud fresh_runtime = Inr (rt, c)" by (rule demo_started)
  have "length (rt_monitors rt) = length (concat (map (\<lambda>s. map (Pair (srv_name s)) (svc_kinds s)) [demo_live]))"
    using start_services_inv [OF r demo_live_names] by (metis demo_live_served length_map)
  also have "\<dots> = 5" by (simp add: svc_kinds_alt) (simp add: demo_live_defs)
  finally have "length (proxy_ports rt) \<le> 55536"
    using length_filter_le [of proxied "rt_monitors rt"] by (simp add: proxy_ports_def)
  with proxy_ports_distinct [OF r demo_live_names] r show ?thesis by blast
qed

definition demo_core_env :: "unit CoreEnv" where
  "demo_core_env = \<lparr>cv_parsed = Inr demo_live_cloud, cv_db = demo_db_crates, cv_config_file = Inr ''txt'',
     cv_order = [], cv_iorder = \<lambda>_. [], cv_panel = demo_panel, cv_api = demo_api, cv_cf_list = None,
     cv_rm_dir = \<lambda>_. Inr (), cv_run = \<lambda>_ _ _. Inr True, cv_sched = \<lambda>js. js, cv_walk = [''one'', ''two'']\<rparr>"

definition demo_next_cycle :: "ReconMode \<Rightarrow> Cloud \<Rightarrow> Cloud \<Rightarrow> DaemonNext" where
  "demo_next_cycle mode old new = \<lparr>dn_code = EXIT_RELOAD, dn_mode = mode, dn_old_cloud = Some old, dn_new_cloud = Some new,
     dn_rebase_data = None\<rparr>"

lemma demo_intact: "intact empty_db"
  by (simp add: intact_def empty_db_def)

lemma demo_first_prepare:
  "\<exists>c. prepare_cloudflare_state demo_api demo_live_cloud None () = (Inr (c, None), ())"
  by (simp add: cf_defs demo_cf_defs demo_live_defs ends_with_def ascii_defs)

theorem cycle_starts_witness:
  "\<exists>rt c w. core_start demo_core_env (demo_next_cycle Reload (demo_cloud []) demo_live_cloud) (empty_db, ()) = (Inr (rt, c), w)
     \<and> map srv_name (servers c) = [''one'', ''two''] \<and> length (rt_monitors rt) = 5"
proof -
  let ?init = "demo_next_cycle Reload (demo_cloud []) demo_live_cloud"
  obtain c where c: "prepare_cloudflare_state demo_api demo_live_cloud None () = (Inr (c, None), ())"
    using demo_first_prepare by blast
  have rec: "reconcile_cloud (cv_api demo_core_env) (cv_rm_dir demo_core_env) (cv_run demo_core_env) (cv_sched demo_core_env)
      (cv_walk demo_core_env) (demo_cloud []) demo_live_cloud (dn_mode ?init) (cv_cf_list demo_core_env) (dn_rebase_data ?init) ()
      = (Inr (c, None), ())"
    using c by (simp add: reconcile_cloud_def demo_core_env_def demo_cloud_def)
  from prepare_ready [OF c] have ready: "list_all2 cf_ready (servers demo_live_cloud) (servers c)" by blast
  then obtain s1 s2 where s: "servers c = [s1, s2]" "cf_ready demo_live s1" "cf_ready (demo_server ''two'' 2 ''two.org'' Offgrid) s2"
    by (auto simp: demo_live_cloud_def demo_cloud_def list_all2_Cons1)
  have s1: "s1 = demo_live\<lparr>srv_cfstate := srv_cfstate s1\<rparr>"
    and s2: "s2 = (demo_server ''two'' 2 ''two.org'' Offgrid)\<lparr>srv_cfstate := srv_cfstate s2\<rparr>"
    using s(2,3) cf_ready_keeps by blast+
  have "storable_cloud c"
    unfolding storable_cloud_def s(1)
    by (subst (1 2) s1, subst (1 2) s2) (simp add: storable_def demo_live_defs)
  moreover have "\<forall>s \<in> set (servers c). served s \<longrightarrow> startable (cv_panel demo_core_env) s"
  proof -
    have "\<not> served s2" by (subst s2) (simp add: served_def demo_server_def)
    moreover have "startable demo_panel s1" by (rule demo_live_startable; subst s1; simp)
    ultimately show ?thesis by (simp add: s(1) demo_core_env_def)
  qed
  ultimately obtain rt ss where run: "core_start demo_core_env ?init (empty_db, ())
      = (Inr (rt, c\<lparr>servers := ss\<rparr>), (stored (cv_db demo_core_env) ''txt'' c (snd (create_db empty_db)), ()))"
    "list_all2 (opened (cv_panel demo_core_env)) (servers c) ss"
    "map svc_of (rt_monitors rt) = concat (map (\<lambda>s. map (Pair (srv_name s)) (svc_kinds s)) (filter served (servers c)))"
    using cycle_starts [OF _ _ demo_intact _ rec] by (fastforce simp: demo_core_env_def demo_next_cycle_def)
  have kinds: "served s1" "\<not> served s2" "length (svc_kinds s1) = 5"
    by (subst s1, simp add: served_def demo_live_defs, subst s2, simp add: served_def demo_server_def,
        subst s1, simp add: svc_kinds_alt demo_live_defs)
  have "length (map svc_of (rt_monitors rt)) = 5" unfolding run(3) using kinds by (simp add: s(1))
  moreover have "map srv_name ss = [''one'', ''two'']"
  proof -
    have "srv_name t = srv_name x" if "opened (cv_panel demo_core_env) x t" for x t
      using that by (auto simp: opened_def split: if_splits)
    moreover have "srv_name s1 = ''one''" "srv_name s2 = ''two''"
      by (subst s1, simp add: demo_live_defs, subst s2, simp add: demo_server_def)
    ultimately show ?thesis using run(2) by (auto simp: s(1) list_all2_Cons1)
  qed
  ultimately show ?thesis using run(1) by (intro exI conjI) (assumption | simp)+
qed

theorem remap_added_inbound_fatal_witness:
  "\<exists>e w. core_start demo_core_env (demo_next_cycle Remap demo_old demo_new) (empty_db, ()) = (Inl e, w)"
proof -
  let ?init = "demo_next_cycle Remap demo_old demo_new"
  obtain c where c: "demo_reconcile Remap = (Inr (c, None), ())" using demo_reconcile_ok(2) by blast
  then have rec: "reconcile_cloud (cv_api demo_core_env) (cv_rm_dir demo_core_env) (cv_run demo_core_env) (cv_sched demo_core_env)
      (cv_walk demo_core_env) demo_old demo_new Remap (cv_cf_list demo_core_env) (dn_rebase_data ?init) () = (Inr (c, None), ())"
    by (simp add: demo_reconcile_def demo_core_env_def demo_next_cycle_def)
  have walk: "is_walk (cv_walk demo_core_env) (set (server_names demo_old) \<union> set (server_names demo_new))"
    using demo_walk by (simp add: demo_core_env_def)
  let ?ol = "demo_ready ''one'' 1 ''one.org'' Production"
  let ?n = "demo_ready ''one'' 1 ''a.org'' Production"
  have facts: "distinct (server_names demo_new)" "?n \<in> set (servers demo_new)" "srv_name ?n = srv_name ?ol"
    "demo_inbound ''alpha'' 2053 \<in> set (srv_inbounds ?n)"
    "mother_subids (srv_secrets ?ol) (inb_name (demo_inbound ''alpha'' 2053)) = None"
    by (simp_all add: demo_merge_defs)
  from remap_added_inbound_fatal [OF _ _ _ demo_intact _ rec walk demo_old_facts(1) facts(1) demo_old_facts(2) facts(2-5)]
  show ?thesis by (fastforce simp: demo_core_env_def demo_next_cycle_def)
qed

theorem single_full_setup_witness:
  "\<exists>rc. start_services demo_panel demo_live_cloud fresh_runtime = Inr rc
    \<and> length (filter (\<lambda>(e, h). full_setup_server e \<noteq> None \<and> \<not> handle_finished h)
        (co_tasks (foldl daemon_event (core_state (\<lambda>_. None) rc)
          [Handle \<lparr>ce_parsed = Inr demo_live_cloud, ce_backup = \<lambda>_. Inr (), ce_order = [], ce_iorder = \<lambda>_. []\<rparr> (\<lambda>_. Inr []) (DExpand None),
           Handle \<lparr>ce_parsed = Inr demo_live_cloud, ce_backup = \<lambda>_. Inr (), ce_order = [], ce_iorder = \<lambda>_. []\<rparr> (\<lambda>_. Inr []) (DExpand (Some ''two''))])))
      \<le> 1"
proof -
  obtain rt c where r: "start_services demo_panel demo_live_cloud fresh_runtime = Inr (rt, c)" by (rule demo_started)
  from single_full_setup [OF r] r show ?thesis by blast
qed

theorem expand_provisions_fresh_witness:
  "\<exists>s \<in> set (servers demo_live_cloud). FullSetupTask ''two'' = FullSetupTask (srv_name s) \<and> srv_enabled s \<and> srv_state s = Offgrid"
proof -
  obtain r m where e: "expand_cloud demo_live_cloud None [] = (r, m)" by fastforce
  then have "m = [(FullSetupTask ''two'', Detached False)]"
    by (auto simp: expand_cloud_def choose_server_def fresh_server_def spawn_entry_def get_task_def demo_live_defs)
  then have "FullSetupTask ''two'' \<in> fst ` set m" by simp
  from expand_provisions_fresh [OF e this] show ?thesis by auto
qed

definition demo_check_env :: "Cloud res \<Rightarrow> CheckEnv" where
  "demo_check_env config = \<lparr>ce_parsed = config, ce_backup = \<lambda>_. Inr (), ce_order = [], ce_iorder = \<lambda>_. []\<rparr>"

definition demo_core :: CoreState where
  "demo_core = \<lparr>co_cloud = demo_live_cloud, co_tasks = [(SignalWatcher, Detached False)], co_chat = [], co_resets = []\<rparr>"

theorem refused_reload_ends_watcher_witness:
  "let st = daemon_event demo_core (Signalled (demo_check_env (Inl EmptyInboundSet)) (\<lambda>_. Inr []) SIGHUP)
   in sigx_watcher (demo_check_env (Inr demo_live_cloud)) (\<lambda>_. Inr []) st SIGTERM = Goes None st
     \<and> get_task SignalWatcher (co_tasks demo_core) = Some (Detached False)"
  using refused_reload_ends_watcher [of "demo_check_env (Inl EmptyInboundSet)" EmptyInboundSet _ _ demo_core _ "[]"]
  by (simp add: demo_check_env_def demo_core_def get_task_def)

theorem cycle_handover_witness:
  "\<exists>reply next. core_step (demo_check_env (Inr demo_live_cloud)) (\<lambda>_. Inr []) demo_core DRemap = Returns reply next
     \<and> dn_new_cloud next = Some demo_live_cloud \<and> outer_step (dn_code next) = Again"
proof -
  obtain reply nxt where r: "core_step (demo_check_env (Inr demo_live_cloud)) (\<lambda>_. Inr []) demo_core DRemap = Returns reply nxt"
    by (simp add: core_step_def check_and_backup_def demo_check_env_def Let_def)
  from cycle_handover [OF r] r show ?thesis by (auto simp: demo_check_env_def)
qed

theorem short_report_exact_witness:
  "get_summary [\<lparr>sum_service = Ssh, sum_server = ''one'', sum_health = HOk\<rparr>] [\<lparr>tsm_task = ''Aggregator'', tsm_running = True\<rparr>] False
     = Message all_ok"
  using short_report_exact [of "[\<lparr>sum_service = Ssh, sum_server = ''one'', sum_health = HOk\<rparr>]"
      "[\<lparr>tsm_task = ''Aggregator'', tsm_running = True\<rparr>]"]
  by simp

theorem credentials_exact_witness:
  "\<exists>m. build_servers_creds demo_live_cloud False = Credentials m \<and> dom m = {''one''}"
proof -
  have "srv_name ` {s \<in> set (servers demo_live_cloud). served s} = set (map srv_name (filter served (servers demo_live_cloud)))"
    by simp
  also have "\<dots> = {''one''}" unfolding demo_live_served by (simp add: demo_live_def demo_server_def)
  finally show ?thesis using credentials_exact [OF demo_live_names(1), of False] by auto
qed

end
