(* ===== verification/Provisioning_Props.thy ===== *)
theory Provisioning_Props
  imports Provisioning Daemon_Props
begin

text \<open>
  What provisioning guarantees: which task asks for the reload, what the files of a run show of the
  secrets, which host a run reaches and which ports it checks.
\<close>

section \<open>Who reloads\<close>

text \<open>A provisioning task, by whether it is a setup, with the environment it runs in and what it works on.\<close>

record ProvJob =
  pj_setup :: bool
  pj_env :: ProvEnv
  pj_start :: ProvState

definition job_entry :: "ProvJob \<Rightarrow> TaskEntry" where
  "job_entry j = (let nm = srv_name (site_server (ps_site (pj_start j))) in if pj_setup j then FullSetupTask nm else DestroyTask nm)"

text \<open>The requests the task sends when the daemon answers its inquiry with \<open>found\<close>.\<close>

definition job_requests :: "bool \<Rightarrow> ProvJob \<Rightarrow> DaemonComm list" where
  "job_requests found j =
     ps_requests (snd ((if pj_setup j then full_setup else destroy_server) ((pj_env j)\<lparr>pe_found := Inr found\<rparr>)
       ((pj_start j)\<lparr>ps_requests := []\<rparr>)))"

text \<open>
  Tasks that were started together end in the order of the list. The daemon answers an inquiry from
  its task map and drops the entry; a task that ends without one stays in the map as finished.
\<close>

fun finish_jobs :: "TaskMap \<Rightarrow> ProvJob list \<Rightarrow> DaemonComm list" where
  "finish_jobs m [] = []"
| "finish_jobs m (j # js) =
     (let (found, m') = setup_inquiry (job_entry j) m; reqs = job_requests found j
      in reqs @ finish_jobs (if DSetupInquiry (job_entry j) \<in> set reqs then m' else finish_task (job_entry j) m) js)"

definition completes :: "ProvJob \<Rightarrow> bool" where
  "completes j \<longleftrightarrow> DSetupInquiry (job_entry j) \<in> set (job_requests True j)"

lemma on_site_requests: "on_site c w = (r, w') \<Longrightarrow> ps_requests w' = ps_requests w"
  by (auto simp: on_site_def split: prod.splits)

lemma on_backups_requests: "on_backups c w = (r, w') \<Longrightarrow> ps_requests w' = ps_requests w"
  by (auto simp: on_backups_def split: prod.splits)

lemma inquire_requests:
  "ps_requests (snd (inquire_and_reload (env\<lparr>pe_found := Inr found\<rparr>) entry w))
    = ps_requests w @ DSetupInquiry entry # (if found then [] else [DReload])"
  by (simp add: inquire_and_reload_def request_def via_def pure_def)

lemma pe_found_irrelevant:
  "pe_run (env\<lparr>pe_found := f\<rparr>) = pe_run env" "pe_cred (env\<lparr>pe_found := f\<rparr>) = pe_cred env"
  "pe_toml (env\<lparr>pe_found := f\<rparr>) = pe_toml env" "pe_rm (env\<lparr>pe_found := f\<rparr>) = pe_rm env"
  by simp_all

lemma full_setup_requests:
  "\<exists>ok. \<forall>found. ps_requests (snd (full_setup (env\<lparr>pe_found := Inr found\<rparr>) w))
     = ps_requests w @ (if ok then DSetupInquiry (FullSetupTask (srv_name (site_server (ps_site w)))) # (if found then [] else [DReload]) else [])"
proof (cases "pe_run env FullSetup = Inr True")
  case False
  then show ?thesis by (intro exI [of _ False]) (auto simp: full_setup_def split: sum.splits)
next
  case run: True
  show ?thesis
  proof (cases "pe_cred env")
    case (Inl e)
    then show ?thesis using run by (intro exI [of _ False]) (simp add: full_setup_def via_def pure_def)
  next
    case (Inr token)
    obtain r1 w1 where m: "on_site (mark_server_production (pe_toml env) token) w = (r1, w1)" by fastforce
    obtain r2 w2 where d: "on_backups (delete_xui_backups (pe_rm env) (site_server (ps_site w))) w1 = (r2, w2)" by fastforce
    note same = on_site_requests [OF m] on_backups_requests [OF d]
    show ?thesis
      using run Inr m d same
      by (cases r1; cases r2) (auto simp: full_setup_def via_def pure_def Let_def inquire_requests
          intro: exI [of _ False] exI [of _ True])
  qed
qed

lemma destroy_requests:
  "\<exists>ok. \<forall>found. ps_requests (snd (destroy_server (env\<lparr>pe_found := Inr found\<rparr>) w))
     = ps_requests w @ (if ok then DSetupInquiry (DestroyTask (srv_name (site_server (ps_site w)))) # (if found then [] else [DReload]) else [])"
proof (cases "pe_run env DestroyServer = Inr True")
  case False
  then show ?thesis by (intro exI [of _ False]) (auto simp: destroy_server_def split: sum.splits)
next
  case run: True
  obtain r w' where m: "on_site (mark_server_offgrid (pe_toml env)) w = (r, w')" by fastforce
  note same = on_site_requests [OF m]
  show ?thesis
    using run m same
    by (cases r) (auto simp: destroy_server_def via_def inquire_requests intro: exI [of _ False] exI [of _ True])
qed

lemma job_requests_cases:
  "job_requests found j = (if completes j then DSetupInquiry (job_entry j) # (if found then [] else [DReload]) else [])"
proof -
  let ?w = "(pj_start j)\<lparr>ps_requests := []\<rparr>"
  obtain ok where "\<And>f. job_requests f j = (if ok then DSetupInquiry (job_entry j) # (if f then [] else [DReload]) else [])"
    using full_setup_requests [of "pj_env j" ?w] destroy_requests [of "pj_env j" ?w]
    by (cases "pj_setup j") (fastforce simp: job_requests_def job_entry_def Let_def)+
  then show ?thesis by (auto simp: completes_def)
qed

text \<open>The provisioning entries of the map that have not finished.\<close>

definition running :: "TaskMap \<Rightarrow> TaskEntry set" where
  "running m = {e. is_provisioning e \<and> (\<exists>h. (e, h) \<in> set m \<and> \<not> handle_finished h)}"

lemma running_simps [simp]:
  "running [] = {}"
  "running ((e, h) # m) = (if is_provisioning e \<and> \<not> handle_finished h then insert e (running m) else running m)"
  by (auto simp: running_def)

lemma job_entry_provisioning [simp]: "is_provisioning (job_entry j)"
  by (simp add: job_entry_def Let_def)

lemma running_remove: "running (remove_task e m) = running m - {e}"
  by (auto simp: running_def remove_task_def)

lemma running_finish: "running (finish_task e m) = running m - {e}"
  by (auto simp: running_def finish_task_def split: if_splits)

lemma inquiry_found: "setup_inquiry e m = (running m - {e} \<noteq> {}, remove_task e m)"
  unfolding running_remove [symmetric] by (auto simp: setup_inquiry_def running_def list_ex_iff Let_def)

text \<open>
  C33. Whether the daemon reloads after provisioning is decided by the task that ends last: of any
  setups and destructions that run together, exactly if the last one to end completes is a Reload
  requested. If it fails, the servers the others have finished are not taken over.
\<close>

theorem reload_iff_last_completes:
  assumes "js \<noteq> []" "distinct (map job_entry js)" "running m = job_entry ` set js"
  shows "DReload \<in> set (finish_jobs m js) \<longleftrightarrow> completes (last js)"
  using assms
proof (induction js arbitrary: m)
  case (Cons j js)
  have rest: "running m - {job_entry j} = job_entry ` set js" using Cons.prems(2,3) by auto
  let ?m = "if completes j then remove_task (job_entry j) m else finish_task (job_entry j) m"
  have run: "running ?m = job_entry ` set js" using rest by (simp add: running_remove running_finish)
  have "finish_jobs m (j # js) = job_requests (js \<noteq> []) j @ finish_jobs ?m js"
    using rest by (simp add: inquiry_found job_requests_cases)
  then show ?case
    using Cons.IH [OF _ _ run] Cons.prems(2) by (cases "js = []") (auto simp: job_requests_cases)
qed simp

section \<open>Secrets\<close>

text \<open>The rule files depend on the addresses and ports of a server, not on its secrets.\<close>

lemma ops_without_secrets:
  "via_each (add_op env (s\<lparr>srv_secrets := sec\<rparr>)) ops (action_sets (s\<lparr>srv_secrets := sec\<rparr>) a)
    = via_each (add_op env s) ops (action_sets s a)"
  by (cases a) (simp_all add: action_sets_def add_op_def write_set_rule_def set_rule_def generate_ssh_rule_def
      generate_inbound_rule_def ssh_elements_def inbound_elements_def rule_path_def Let_def cong: if_cong)

lemma nftops_without_secrets: "generate_nftops env (s\<lparr>srv_secrets := sec\<rparr>) acts = generate_nftops env s acts"
  by (simp add: generate_nftops_def ops_without_secrets)

lemma backups_without_secrets: "last_xui_db (s\<lparr>srv_secrets := sec\<rparr>) = last_xui_db s"
proof
  fix dir
  have "is_backup_of (s\<lparr>srv_secrets := sec\<rparr>) = is_backup_of s" by (simp add: fun_eq_iff is_backup_of_def)
  then have "backup_name (s\<lparr>srv_secrets := sec\<rparr>) = backup_name s"
    by (simp add: fun_eq_iff backup_name_def cong: option.case_cong)
  then show "last_xui_db (s\<lparr>srv_secrets := sec\<rparr>) dir = last_xui_db s dir" by (simp add: last_xui_db_def)
qed

lemma hidden_vars:
  "hide_secrets (make_vars env (ar\<lparr>ar_server := (ar_server ar)\<lparr>srv_secrets := sec\<rparr>, ar_actions := acts\<rparr>) tasks cf conn nftops extra)
    = hide_secrets (make_vars env (ar\<lparr>ar_actions := acts\<rparr>) tasks cf conn nftops extra)"
  by (simp add: hide_secrets_def make_vars_def inbound_data_def effective_proxied_def new_ports_def Let_def)

text \<open>
  C30. The files that describe a run to the user do not depend on the secrets of the server: for any
  two sets of secrets the inventory, the rule files and the file of variables that are written are
  the same.
\<close>

theorem files_hide_secrets:
  assumes "\<forall>v. \<exists>json. re_vars_json env v = Inr json"
  shows "snd (write_ansible_vars env (ar\<lparr>ar_server := (ar_server ar)\<lparr>srv_secrets := sec\<rparr>\<rparr>) fs)
    = snd (write_ansible_vars env ar fs)"
proof -
  let ?ar = "ar\<lparr>ar_server := (ar_server ar)\<lparr>srv_secrets := sec\<rparr>\<rparr>"
  have extra: "extra_vars env ?ar = extra_vars env ar" by (simp add: extra_vars_def backups_without_secrets)
  obtain f where f: "\<And>v. re_vars_json env v = Inr (f v)" using assms by metis
  show ?thesis
    by (auto simp: write_ansible_vars_def f via_def pure_def extra nftops_without_secrets hidden_vars server_file_def
        log_file_def inventory_hosts_def Let_def split: prod.split sum.split)
qed

section \<open>Hosts and ports\<close>

lemma inventory_own_conn: "srv_name s \<noteq> ''localhost'' \<Longrightarrow> inventory_hosts s conn (srv_name s) = Some conn"
  by (simp add: inventory_hosts_def)

text \<open>
  A run reaches its server unless the server is called \<open>localhost\<close>: under that name, which the
  checks of the configuration accept, the inventory leads to the controller itself.
\<close>

lemma localhost_reaches_controller:
  "is_proper ''localhost'' \<and> inventory_hosts s conn (srv_name s)
    = Some (if srv_name s = ''localhost'' then localhost_conn else conn)"
  by (simp add: inventory_hosts_def is_proper_def alnum_def ascii_defs)

text \<open>
  No new port goes unchecked in a Rebase: when a run is connected through the SSH port of the
  running server and hands any port to check to Ansible, the actions of the Rebase include the check.
\<close>

lemma new_ports_are_checked:
  assumes "rebase_actions old new data = Inr acts" "ansible_port conn = Some (srv_ssh_port old)"
    and "new_ports new conn (FullSetup \<in> set acts) data \<noteq> []"
  shows "PortsCheck \<in> set acts \<and> FullSetup \<notin> set acts"
proof -
  from assms(1) obtain old_cf new_cf where acts: "set acts = set (spec_actions old new) \<union> set (proxy_actions old new old_cf new_cf)
      \<union> set (inbound_actions data)"
    by (auto simp: rebase_actions_def Un_assoc)
  then have full: "FullSetup \<notin> set acts"
    by (auto simp: spec_actions_def proxy_actions_def inbound_actions_def split: option.splits if_splits)
  show ?thesis
  proof (cases "srv_ssh_port old = srv_ssh_port new")
    case False
    then show ?thesis using full by (auto simp: acts spec_actions_def)
  next
    case True
    with assms(2,3) full obtain d where d: "data = Some d" by (cases data) (auto simp: new_ports_def)
    have "added_inbounds d \<noteq> []"
    proof
      assume "added_inbounds d = []"
      then show False using assms(2,3) full True by (simp add: new_ports_def d)
    qed
    then show ?thesis using full by (auto simp: acts inbound_actions_def d)
  qed
qed

section \<open>Concrete instances\<close>

text \<open>A setup that completes and a destruction of another server that fails after it.\<close>

definition demo_prov_env :: "bool \<Rightarrow> ProvEnv" where
  "demo_prov_env ok = \<lparr>pe_toml = demo_toml, pe_run = \<lambda>_. Inr ok, pe_cred = Inr ''tok'', pe_rm = \<lambda>_. Inr (),
     pe_found = Inr False, pe_reloaded = Inr ()\<rparr>"

definition demo_setup_job :: ProvJob where
  "demo_setup_job = \<lparr>pj_setup = True, pj_env = demo_prov_env True,
     pj_start = \<lparr>ps_site = demo_site None, ps_backups = None, ps_requests = []\<rparr>\<rparr>"

definition demo_destroy_job :: ProvJob where
  "demo_destroy_job = \<lparr>pj_setup = False, pj_env = demo_prov_env False,
     pj_start = \<lparr>ps_site = demo_site None, ps_backups = None, ps_requests = []\<rparr>\<rparr>"

lemma demo_destroy_fails: "\<not> completes demo_destroy_job"
  by (simp add: completes_def job_requests_def demo_destroy_job_def destroy_server_def demo_prov_env_def)

lemma demo_setup_completes: "completes demo_setup_job"
proof -
  have "xui_token (srv_secrets (site_server (demo_site None))) = None" "srv_name (site_server (demo_site None)) = ''one''"
    by (simp_all add: demo_site_def build_inventory_def demo_db_defs Let_def)
  moreover obtain conn row where "srv_ansible_conn (site_server (demo_site None)) = Some conn"
    "db_servers (site_db (demo_site None)) ''one'' = Some row"
    by (simp add: demo_site_def build_inventory_def Let_def)
  ultimately obtain w where "mark_server_production demo_toml ''tok'' (demo_site None) = (Inr (), w)"
    using mark_production_recorded [of "demo_site None" conn row demo_toml, OF _ _ _ demo_editable, of "''tok''"]
    by (auto simp: Let_def)
  then show ?thesis
    by (simp add: completes_def job_requests_def demo_setup_job_def full_setup_def demo_prov_env_def via_def pure_def
        on_site_def on_backups_def delete_xui_backups_def inquire_and_reload_def request_def job_entry_def Let_def)
qed

theorem reload_iff_last_completes_witness:
  "completes demo_setup_job \<and> DReload \<notin> set (finish_jobs [(FullSetupTask ''one'', Detached False), (DestroyTask ''one'', Detached False)]
     [demo_setup_job, demo_destroy_job])"
proof -
  let ?m = "[(FullSetupTask ''one'', Detached False), (DestroyTask ''one'', Detached False)]"
  let ?js = "[demo_setup_job, demo_destroy_job]"
  have nm: "srv_name (site_server (demo_site None)) = ''one''"
    by (simp add: demo_site_def build_inventory_def demo_db_defs Let_def)
  have entries: "map job_entry ?js = [FullSetupTask ''one'', DestroyTask ''one'']"
    by (simp add: job_entry_def demo_setup_job_def demo_destroy_job_def nm)
  have "running ?m = set (map job_entry ?js)" unfolding entries by simp
  then have run: "running ?m = job_entry ` set ?js" by simp
  have d: "distinct (map job_entry ?js)" unfolding entries by simp
  have "DReload \<in> set (finish_jobs ?m ?js) \<longleftrightarrow> completes (last ?js)"
    by (rule reload_iff_last_completes [OF list.distinct(2) d run])
  also have "last ?js = demo_destroy_job" by simp
  finally show ?thesis using demo_setup_completes demo_destroy_fails by (simp only: simp_thms)
qed

definition demo_run_env :: RunEnv where
  "demo_run_env = \<lparr>re_nft = demo_env, re_data_dir = ''data'', re_backups = None, re_inventory_json = \<lambda>_. Inr ''{}'',
     re_vars_json = \<lambda>v. Inr (xui_password (av_secrets v)), re_vars_yaml = \<lambda>v. Inr (xui_password (av_secrets v)),
     re_cf_auth = Inr ''auth'', re_ping = Inr (True, []), re_stream_all = False,
     re_playbook = \<lambda>_ _. Inr (True, [], []), re_log_time = ''now''\<rparr>"

definition demo_run :: AnsibleRun where
  "demo_run = \<lparr>ar_server = demo_cur, ar_actions = [NginxRestart], ar_stream_it = False, ar_rebase_data = None\<rparr>"

theorem files_hide_secrets_witness:
  "snd (write_ansible_vars demo_run_env (demo_run\<lparr>ar_server := (ar_server demo_run)\<lparr>srv_secrets := empty_secrets\<lparr>xui_password := ''pw''\<rparr>\<rparr>\<rparr>) Map.empty)
     = snd (write_ansible_vars demo_run_env demo_run Map.empty)"
  by (rule files_hide_secrets) (simp add: demo_run_env_def)

theorem new_ports_are_checked_witness:
  "\<exists>acts. rebase_actions demo_cur demo_next (Some demo_rebase) = Inr acts \<and> PortsCheck \<in> set acts"
proof -
  obtain acts where acts: "rebase_actions demo_cur demo_next (Some demo_rebase) = Inr acts"
    using demo_actions by blast
  have "new_ports demo_next (demo_conn (srv_ssh_port demo_cur)) b (Some demo_rebase) \<noteq> []" for b
    by (simp add: new_ports_def demo_rebase_defs port_defs)
  from new_ports_are_checked [OF acts _ this] acts show ?thesis by (auto simp: demo_conn_def)
qed

end
