(* ===== verification/Lifecycle.thy ===== *)
theory Lifecycle
  imports Provisioning_Props Daemon_Props
begin

text \<open>
  A server from its setup to its monitors, across the components: \<open>full_setup\<close> of
  \<^verbatim>\<open>src/ansible.rs\<close> changes the server that the running cloud shares with the task and asks for a
  Reload; the core answers by handing the cloud and the declaration to the next cycle
  (\<^verbatim>\<open>src/daemon.rs\<close>), which reconciles them and starts the services (\<^verbatim>\<open>src/daemon/core.rs\<close>).
\<close>

section \<open>What a setup leaves in memory\<close>

text \<open>The server in place of the one of its name: the cloud and the task hold the same server.\<close>

definition share_server :: "KetServer \<Rightarrow> Cloud \<Rightarrow> Cloud" where
  "share_server s = update_server (srv_name s) (\<lambda>_. s)"

lemma mark_production_server:
  assumes "mark_server_production toml token w = (Inr (), w')"
  shows "\<exists>conn. site_server w' = (site_server w)\<lparr>srv_state := Production,
    srv_secrets := (srv_secrets (site_server w))\<lparr>xui_token := Some token\<rparr>, srv_ansible_conn := Some conn\<rparr>"
  using assms
  by (auto simp: mark_server_production_def store_server_def set_token_def move_conn_def on_db_def mark_config_def
      update_state_row_def Let_def via_def pure_def split: option.splits sum.splits if_splits prod.splits)

text \<open>A setup asks for a Reload only after it has recorded the server.\<close>

lemma setup_recorded:
  assumes "full_setup env w = (r, w')" "ps_requests w = []" "DReload \<in> set (ps_requests w')"
  obtains token conn where "pe_cred env = Inr token" "site_server (ps_site w') = (site_server (ps_site w))\<lparr>srv_state := Production,
    srv_secrets := (srv_secrets (site_server (ps_site w)))\<lparr>xui_token := Some token\<rparr>, srv_ansible_conn := Some conn\<rparr>"
proof (cases "pe_run env FullSetup = Inr True")
  case False
  then show ?thesis using assms by (auto simp: full_setup_def split: sum.splits)
next
  case run: True
  show ?thesis
  proof (cases "pe_cred env")
    case (Inl e)
    then show ?thesis using run assms by (auto simp: full_setup_def via_def pure_def Let_def)
  next
    case (Inr token)
    obtain r1 site where m: "mark_server_production (pe_toml env) token (ps_site w) = (r1, site)" by fastforce
    obtain r2 dir where d: "delete_xui_backups (pe_rm env) (site_server (ps_site w)) (ps_backups w) = (r2, dir)" by fastforce
    have "r1 = Inr () \<and> ps_site w' = site"
      using assms run Inr m d
      by (cases r1; cases r2; cases "pe_found env")
        (auto simp: full_setup_def via_def pure_def on_site_def on_backups_def inquire_and_reload_def request_def Let_def split: if_splits)
    with mark_production_server [of "pe_toml env" token "ps_site w" site] m Inr that show ?thesis by auto
  qed
qed

section \<open>What a start keeps\<close>

definition identity_of :: "KetServer \<Rightarrow> string \<times> ServerState \<times> Secrets" where
  "identity_of s = (srv_name s, srv_state s, srv_secrets s)"

lemma start_server_keeps:
  assumes "start_server env (rt, c) s = Inr (rt', c')" "\<forall>t \<in> set (servers c). srv_name t = srv_name s \<longrightarrow> identity_of t = identity_of s"
  shows "map identity_of (servers c') = map identity_of (servers c)"
proof -
  from assms(1) obtain t where t: "new_xui_client env s = Inr t" "c' = update_server (srv_name t) (\<lambda>_. t) c"
    by (auto simp: start_server_def start_upkeep_def Let_def)
  then have "identity_of t = identity_of s" "srv_name t = srv_name s"
    by (auto simp: new_xui_client_def identity_of_def split: option.splits sum.splits)
  with assms(2) t(2) show ?thesis by (simp add: update_server_def)
qed

lemma start_servers_keep:
  assumes "try_fold (start_server env) (rt, c) ss = Inr (rt', c')"
    and "\<forall>s \<in> set ss. \<forall>t \<in> set (servers c). srv_name t = srv_name s \<longrightarrow> identity_of t = identity_of s"
  shows "map identity_of (servers c') = map identity_of (servers c)"
  using assms
proof (induction ss arbitrary: rt c)
  case (Cons s ss)
  from Cons.prems(1) obtain rt1 c1 where first: "start_server env (rt, c) s = Inr (rt1, c1)"
    and rest: "try_fold (start_server env) (rt1, c1) ss = Inr (rt', c')" by auto
  have same: "map identity_of (servers c1) = map identity_of (servers c)"
    using start_server_keeps [OF first] Cons.prems(2) by simp
  have "\<forall>t \<in> set (servers c1). \<exists>u \<in> set (servers c). identity_of t = identity_of u"
    using arg_cong [OF same, of set] by (metis (mono_tags, lifting) image_iff list.set_map)
  then have "\<forall>s \<in> set ss. \<forall>t \<in> set (servers c1). srv_name t = srv_name s \<longrightarrow> identity_of t = identity_of s"
    using Cons.prems(2) by (metis identity_of_def list.set_intros(2) prod.inject)
  from Cons.IH [OF rest this] same show ?case by simp
qed simp

lemma start_services_keeps:
  assumes "start_services env cloud rt = Inr (rt', cloud')" "distinct (server_names cloud)"
  shows "map identity_of (servers cloud') = map identity_of (servers cloud)"
proof (cases "filter served (servers cloud) = []")
  case True
  then show ?thesis using assms(1) by (simp add: start_services_def)
next
  case False
  have "\<forall>s \<in> set (filter served (servers cloud)). \<forall>t \<in> set (servers cloud). srv_name t = srv_name s \<longrightarrow> identity_of t = identity_of s"
    using assms(2) by (auto simp: distinct_map inj_on_def)
  from start_servers_keep [OF _ this] False assms(1) show ?thesis by (auto simp: start_services_def)
qed

section \<open>A Reload keeps a provisioned server\<close>

definition tidy :: "Cloud \<Rightarrow> bool" where
  "tidy c \<longleftrightarrow> distinct (server_names c) \<and> list_all (\<lambda>s. distinct (map inb_name (srv_inbounds s))) (servers c)"

lemma reload_merged:
  assumes "merge_server Reload nps ol n = Inr s" "srv_state ol = Production" "linked Reload s t"
  shows "t = ol\<lparr>srv_enabled := srv_enabled n, srv_cfstate := srv_cfstate t\<rparr>"
  using assms by (simp add: merge_server_def reload_merge_iff linked_def)

lemma reload_tidy:
  assumes rec: "reconcile_cloud api rm_dir run sched order old new Reload lst hm w = (Inr (c, lst'), w')"
    and walk: "is_walk order (set (server_names old) \<union> set (server_names new))"
    and ne: "servers old \<noteq> []" and tidy: "tidy old" "tidy new"
  shows "tidy c \<and> set (server_names c) = set (server_names new)"
proof -
  from reconcile_result [OF rec ne walk] obtain m :: Cloud where
    m: "list_all (merged_from Reload old new) (servers m)" "distinct (server_names m)"
      "set (server_names m) = set (server_names new)" "list_all2 (linked Reload) (servers m) (servers c)" by blast
  have names: "server_names c = server_names m" using list_all2_map_eq [OF m(4) linked_fields(1)] by simp
  have "distinct (map inb_name (srv_inbounds t))" if t: "t \<in> set (servers c)" for t
  proof -
    obtain s where s: "merged_from Reload old new s" "linked Reload s t"
      by (rule reconcile_server [OF rec ne walk t])
    have "distinct (map inb_name (srv_inbounds s))"
      using s(1) tidy by (auto simp: merged_from_def merge_server_def reload_merge_iff tidy_def list_all_iff
          dest!: by_name_Some split: option.splits if_splits)
    then show ?thesis using linked_inbounds [OF s(2)] by simp
  qed
  then show ?thesis using names m(2,3) by (auto simp: tidy_def list_all_iff)
qed

text \<open>
  The cloud the next cycle runs with, whether the reconciliation succeeds or fails: the provisioned
  server is in it, as it was.
\<close>

lemma applied_keeps_server:
  assumes app: "apply_cloud env init old new (db, w) = (Inr c, fin)" and mode: "dn_mode init = Reload"
    and walk: "is_walk (cv_walk env) (set (server_names old) \<union> set (server_names new))"
    and tidy: "tidy old" "tidy new" and s: "s \<in> set (servers old)" "srv_state s = Production" "srv_enabled s"
    and n: "n \<in> set (servers new)" "srv_name n = srv_name s" "srv_enabled n"
  obtains t where "tidy c" "t \<in> set (servers c)" "served t" "identity_of t = identity_of s" "srv_inbounds t = srv_inbounds s"
proof -
  obtain r w' where rec: "reconcile_cloud (cv_api env) (cv_rm_dir env) (cv_run env) (cv_sched env) (cv_walk env) old new
      Reload (cv_cf_list env) (dn_rebase_data init) w = (r, w')" by force
  show ?thesis
  proof (cases r)
    case (Inl e)
    then have "c = old" using app rec mode by (simp add: apply_cloud_def)
    then show ?thesis using that [of s] tidy s by (simp add: served_def)
  next
    case (Inr p)
    obtain c0 lst where p: "p = (c0, lst)" by force
    then have c0: "c0 = c" using app rec mode Inr by (auto simp: apply_cloud_def split: prod.splits sum.splits)
    note rec' = rec [unfolded Inr p c0]
    have ne: "servers old \<noteq> []" using s(1) by auto
    note keep = reload_tidy [OF rec' walk ne tidy]
    have "srv_name s \<in> set (server_names c)" using keep n(1,2) by (metis image_eqI list.set_map)
    then obtain t where t: "t \<in> set (servers c)" "srv_name t = srv_name s" by auto
    have uniq: "distinct (server_names old)" using tidy(1) by (simp add: tidy_def)
    obtain m n' where m: "by_name new (srv_name s) = Some n'" "linked Reload m t"
      "merge_server Reload (inbound_nps (inbound_set (settings new))) s n' = Inr m"
      by (rule reconciled_merge [OF rec' walk uniq s(1) t])
    have "n' = n" using by_name_Some [OF m(1)] n(1,2) tidy(2) by (auto simp: tidy_def distinct_map inj_on_def)
    then obtain cf where cf: "t = s\<lparr>srv_enabled := True, srv_cfstate := cf\<rparr>"
      using reload_merged [OF m(3) s(2) m(2)] n(3) by simp
    have "served t \<and> identity_of t = identity_of s \<and> srv_inbounds t = srv_inbounds s"
      using s(2) by (simp add: cf identity_of_def served_def)
    with that keep t(1) show ?thesis by blast
  qed
qed

text \<open>A cycle that comes up has applied its cloud and started its services.\<close>

lemma core_start_result:
  assumes "core_start env init (db, w) = (Inr (rt, c), fin)" "dn_new_cloud init = Some new" "dn_old_cloud init = Some old"
  shows "\<exists>c0 mid. apply_cloud env init old new (snd (create_db db), w) = (Inr c0, mid)
    \<and> start_services (cv_panel env) c0 fresh_runtime = Inr (rt, c)"
  using assms(1) unfolding core_start_unfold [OF assms(2,3)]
  by (cases "apply_cloud env init old new (snd (create_db db), w)"; cases "fst (apply_cloud env init old new (snd (create_db db), w))")
    (auto simp: via_def pure_def)

text \<open>
  The Reload that a setup or a destruction asked for: the next cycle starts from the running cloud with
  the changed server in its place, and comes up with what \<open>apply_cloud\<close> makes of it.
\<close>

lemma reload_cycle:
  assumes running: "co_cloud st = share_server live cloud" and live: "s \<in> set (servers cloud)" "srv_name live = srv_name s"
      "srv_inbounds live = srv_inbounds s"
    and reload: "core_step cenv clients st DReload = Returns reply nxt" and parsed: "ce_parsed cenv = Inr new"
    and start: "core_start denv nxt (db, cf) = (Inr (rt, c), fin)" and tidy: "tidy cloud"
  obtains c0 mid where "dn_mode nxt = Reload" "tidy (share_server live cloud)" "live \<in> set (servers (share_server live cloud))"
    "server_names (share_server live cloud) = server_names cloud"
    "apply_cloud denv nxt (share_server live cloud) new (snd (create_db db), cf) = (Inr c0, mid)"
    "start_services (cv_panel denv) c0 fresh_runtime = Inr (rt, c)"
proof -
  let ?old = "share_server live cloud"
  have nxt: "dn_mode nxt = Reload" "dn_old_cloud nxt = Some ?old" "dn_new_cloud nxt = Some new"
    using reload running parsed by (auto simp: core_step_def check_and_backup_def Let_def split: sum.splits)
  have names: "server_names ?old = server_names cloud"
    by (auto simp: share_server_def update_server_def live(2))
  moreover have "tidy ?old"
    unfolding tidy_def names using tidy live
    by (auto simp: tidy_def list_all_iff share_server_def update_server_def)
  moreover have "live \<in> set (servers ?old)"
    using live by (auto simp: share_server_def update_server_def image_iff)
  ultimately show ?thesis using nxt(1) that core_start_result [OF start nxt(3,2)] by blast
qed

lemma monitors_of_start:
  assumes "start_services env c0 fresh_runtime = Inr (rt, c)" "tidy c0"
  shows "svc_of ` set (rt_monitors rt) = (\<Union>x \<in> {x \<in> set (servers c0). served x}. Pair (srv_name x) ` set (svc_kinds x))"
proof -
  have "distinct (server_names c0)" "\<forall>s \<in> set (servers c0). distinct (map inb_name (srv_inbounds s))"
    using assms(2) by (simp_all add: tidy_def list_all_iff)
  from arg_cong [OF conjunct2 [OF start_services_inv [OF assms(1) this]], of set] show ?thesis by simp
qed

text \<open>
  C16. A server that has been set up is monitored in the next cycle: when a setup has asked for a Reload
  and the core has answered it, and the declaration still has the server enabled, then a cycle that
  comes up runs with the server in Production, holding the token of that setup, and with a monitor for
  each of its services, whether or not the reconciliation succeeded.
\<close>

theorem provisioned_is_monitored:
  assumes set_up: "full_setup penv w = (r, w')" "ps_requests w = []" "DReload \<in> set (ps_requests w')"
    and server: "site_server (ps_site w) = s" "s \<in> set (servers cloud)" "srv_enabled s"
    and running: "co_cloud st = share_server (site_server (ps_site w')) cloud"
    and reload: "core_step cenv clients st DReload = Returns reply nxt"
    and declared: "ce_parsed cenv = Inr new" "n \<in> set (servers new)" "srv_name n = srv_name s" "srv_enabled n"
    and start: "core_start denv nxt (db, cf) = (Inr (rt, c), fin)"
    and walk: "is_walk (cv_walk denv) (set (server_names cloud) \<union> set (server_names new))"
    and tidy: "tidy cloud" "tidy new"
  shows "\<exists>token. pe_cred penv = Inr token
    \<and> (\<exists>t \<in> set (servers c). srv_name t = srv_name s \<and> srv_state t = Production \<and> xui_token (srv_secrets t) = Some token)
    \<and> Pair (srv_name s) ` set (svc_kinds s) \<subseteq> svc_of ` set (rt_monitors rt)"
proof -
  obtain token conn where token: "pe_cred penv = Inr token" and live: "site_server (ps_site w') = s\<lparr>srv_state := Production,
    srv_secrets := (srv_secrets s)\<lparr>xui_token := Some token\<rparr>, srv_ansible_conn := Some conn\<rparr>" (is "_ = ?live")
    using setup_recorded [OF set_up] server(1) by metis
  obtain c0 mid where mode: "dn_mode nxt = Reload" and old: "tidy (share_server ?live cloud)" "?live \<in> set (servers (share_server ?live cloud))"
      "server_names (share_server ?live cloud) = server_names cloud"
    and app: "apply_cloud denv nxt (share_server ?live cloud) new (snd (create_db db), cf) = (Inr c0, mid)"
    and svc: "start_services (cv_panel denv) c0 fresh_runtime = Inr (rt, c)"
    by (rule reload_cycle [OF running [unfolded live] server(2) _ _ reload declared(1) start tidy(1)]) simp_all
  obtain t where t: "tidy c0" "t \<in> set (servers c0)" "served t" "identity_of t = identity_of ?live" "srv_inbounds t = srv_inbounds ?live"
    by (rule applied_keeps_server [OF app mode walk [folded old(3)] old(1) tidy(2) old(2) _ _ declared(2) _ declared(4)])
      (use server(3) declared(3) in simp_all)
  have "identity_of ` set (servers c) = identity_of ` set (servers c0)"
    using arg_cong [OF start_services_keeps [OF svc], of set] t(1) by (simp add: tidy_def)
  then obtain u where "u \<in> set (servers c)" "identity_of u = identity_of ?live"
    using t(2,4) by (metis (no_types, lifting) image_iff)
  then have "\<exists>u \<in> set (servers c). srv_name u = srv_name s \<and> srv_state u = Production \<and> xui_token (srv_secrets u) = Some token"
    by (auto simp: identity_of_def)
  moreover have "svc_kinds t = svc_kinds s" "srv_name t = srv_name s"
    using t(4,5) by (simp_all add: svc_kinds_alt identity_of_def)
  ultimately show ?thesis using token t(2,3) monitors_of_start [OF svc t(1)] by auto
qed

text \<open>
  A setup that is still running is no reason to wait: a Reload that passes its check and its backup
  cuts it short, so the server it provisions is never recorded.
\<close>

lemma reload_aborts_setup:
  assumes "ce_parsed cenv = Inr new" "ce_backup cenv (comm_to_string DReload) = Inr ()"
    and "(FullSetupTask nm, h) \<in> set (co_tasks st)" "\<not> handle_finished h"
  shows "FullSetupTask nm \<in> set (aborted_by st (core_step cenv clients st DReload))"
  using assms by (force simp: aborted_by_def abort_all_def core_step_def check_and_backup_def Let_def)

section \<open>A concrete life\<close>

definition demo_unborn :: KetServer where
  "demo_unborn = demo_live\<lparr>srv_state := Offgrid, srv_secrets := (srv_secrets demo_live)\<lparr>xui_token := None\<rparr>,
     srv_ansible_conn := Some \<lparr>ansible_host = Some ''8.8.8.1'', ansible_port = Some ANSIBLE_PORT, ansible_user = Some ''root'',
       ansible_connection = None\<rparr>\<rparr>"

definition demo_birth :: ProvState where
  "demo_birth = \<lparr>ps_site = \<lparr>site_server = demo_unborn, site_db = demo_db\<lparr>db_servers := [''one'' \<mapsto> server_row demo_db_crates demo_unborn]\<rparr>,
     site_config = Inr ''one'', site_dirs = [''one'']\<rparr>, ps_backups = None, ps_requests = []\<rparr>"

definition demo_born :: KetServer where
  "demo_born = site_server (ps_site (snd (full_setup (demo_prov_env True) demo_birth)))"

definition demo_declared :: Cloud where
  "demo_declared = demo_cloud [demo_ready ''one'' 1 ''one.org'' Production]"

definition demo_life_env :: "unit CoreEnv" where
  "demo_life_env = demo_core_env\<lparr>cv_parsed := Inr demo_declared, cv_walk := [''one''], cv_order := [''one''],
     cv_iorder := \<lambda>_. [''alpha'', ''beta'', super_name]\<rparr>"

lemmas demo_life_defs = demo_unborn_def demo_birth_def demo_declared_def demo_ready_def demo_live_defs

lemma demo_unborn_simps [simp]:
  "srv_name demo_unborn = ''one''" "xui_token (srv_secrets demo_unborn) = None" "srv_ssh_port demo_unborn = SSH_PORT"
  "site_server (ps_site demo_birth) = demo_unborn" "ps_requests demo_birth = []"
  by (simp_all add: demo_life_defs)

lemma demo_birth_recorded:
  "\<exists>conn w'. full_setup (demo_prov_env True) demo_birth = (Inr (), w') \<and> ps_requests w' = [DSetupInquiry (FullSetupTask ''one''), DReload]
     \<and> site_server (ps_site w') = demo_unborn\<lparr>srv_state := Production,
         srv_secrets := (srv_secrets demo_unborn)\<lparr>xui_token := Some ''tok''\<rparr>, srv_ansible_conn := Some conn\<rparr>"
proof -
  let ?site = "ps_site demo_birth"
  obtain conn where conn: "srv_ansible_conn (site_server ?site) = Some conn" by (simp add: demo_birth_def demo_unborn_def)
  have row: "db_servers (site_db ?site) (srv_name (site_server ?site)) = Some (server_row demo_db_crates demo_unborn)"
    by simp (simp add: demo_birth_def)
  have config: "editable demo_toml (site_config ?site)
     \<lparr>td_servers = Some [\<lparr>ts_name = Some (TStr ''one''), ts_state = None, ts_rest = []\<rparr>], td_rest = []\<rparr>
     [\<lparr>ts_name = Some (TStr ''one''), ts_state = None, ts_rest = []\<rparr>]"
    by (simp add: editable_def demo_toml_def demo_birth_def)
  have token: "xui_token (srv_secrets (site_server ?site)) = None" by simp
  obtain site where "mark_server_production demo_toml ''tok'' ?site = (Inr (), site)"
    "site_server site = demo_unborn\<lparr>srv_state := Production, srv_secrets := (srv_secrets demo_unborn)\<lparr>xui_token := Some ''tok''\<rparr>,
       srv_ansible_conn := Some (conn_on SSH_PORT conn)\<rparr>"
    using mark_production_recorded [OF token conn row config, of "''tok''"] that unfolding Let_def by simp
  then show ?thesis
    by (simp add: full_setup_def demo_prov_env_def via_def pure_def on_site_def on_backups_def delete_xui_backups_def
        inquire_and_reload_def request_def Let_def) (simp add: demo_birth_def, blast)
qed

text \<open>A cycle that finds the server provisioned comes up.\<close>

definition demo_run :: "string \<Rightarrow> AnsibleConn \<Rightarrow> KetServer" where
  "demo_run token conn = demo_live\<lparr>srv_secrets := (srv_secrets demo_live)\<lparr>xui_token := Some token\<rparr>, srv_ansible_conn := Some conn\<rparr>"

lemma demo_life_starts:
  assumes db: "intact db" and init: "dn_old_cloud init = Some (demo_cloud [demo_run token conn])"
    "dn_new_cloud init = Some demo_declared" "dn_mode init = Reload"
  shows "\<exists>rt c w. core_start demo_life_env init (db, ()) = (Inr (rt, c), w)"
proof -
  let ?live = "demo_run token conn"
  have merge: "merge_clouds (\<lambda>_. Inr ()) [''one''] Reload (demo_cloud [?live]) demo_declared = Inr (demo_cloud [?live], [])"
    by (simp add: demo_run_def merge_clouds_def delete_round_def update_round_def by_name_def merge_server_def
        reload_merge_def inbound_nps_def demo_life_defs)
  obtain c where prep: "prepare_cloudflare_state demo_api (demo_cloud [?live]) None () = (Inr (c, None), ())"
    using that by (auto simp: cf_defs demo_cf_defs demo_run_def demo_life_defs ends_with_def ascii_defs)
  have ne: "servers (demo_cloud [?live]) \<noteq> []" by (simp add: demo_cloud_def)
  have rec: "reconcile_cloud demo_api (\<lambda>_. Inr ()) (\<lambda>_ _ _. Inr True) (\<lambda>js. js) [''one''] (demo_cloud [?live]) demo_declared Reload None hm ()
      = (Inr (c, None), ())" for hm
    by (simp add: reconcile_cloud_def ne merge prep via_def pure_def)
  from prepare_ready [OF prep] have "list_all2 cf_ready [?live] (servers c)" by (simp add: demo_cloud_def)
  then obtain s where s: "servers c = [s]" "cf_ready ?live s" by (auto simp: list_all2_Cons1)
  have s_eq: "s = ?live\<lparr>srv_cfstate := srv_cfstate s\<rparr>" using s(2) cf_ready_keeps by blast
  have sec: "srv_inbounds s = srv_inbounds demo_live" "srv_secrets s = (srv_secrets demo_live)\<lparr>xui_token := Some token\<rparr>"
    by (subst s_eq, simp add: demo_run_def)+
  have "storable_cloud c" using sec by (simp add: storable_cloud_def s(1) storable_def) (simp add: demo_live_defs)
  moreover have "startable demo_panel s" using sec by (simp add: startable_def) (simp add: demo_panel_def demo_live_defs)
  then obtain rt c' where "start_services demo_panel c fresh_runtime = Inr (rt, c')"
    using start_services_total [of c demo_panel fresh_runtime] s(1) by auto
  moreover have "has_schema (snd (create_db db))" using db by (simp add: create_db_schema intact_def)
  ultimately show ?thesis
    using core_start_unfold [OF init(2,1), of demo_life_env db "()"] rec
    by (simp add: init(3) apply_cloud_def demo_life_env_def demo_core_env_def update_db_stored via_def pure_def)
qed

theorem provisioned_is_monitored_witness:
  "\<exists>rt c fin. core_start demo_life_env (demo_next_cycle Reload (demo_cloud [demo_born]) demo_declared) (empty_db, ()) = (Inr (rt, c), fin)
     \<and> (''one'', Nginx) \<in> svc_of ` set (rt_monitors rt)"
proof -
  obtain conn w' where w': "full_setup (demo_prov_env True) demo_birth = (Inr (), w')"
    "ps_requests w' = [DSetupInquiry (FullSetupTask ''one''), DReload]"
    and live: "site_server (ps_site w') = demo_unborn\<lparr>srv_state := Production,
         srv_secrets := (srv_secrets demo_unborn)\<lparr>xui_token := Some ''tok''\<rparr>, srv_ansible_conn := Some conn\<rparr>"
    using demo_birth_recorded by blast
  have born: "site_server (ps_site w') = demo_born" by (simp add: demo_born_def w'(1))
  have run: "demo_born = demo_run ''tok'' conn"
    by (simp add: born [symmetric] live demo_run_def demo_unborn_def) (simp add: demo_live_defs)
  obtain rt c fin where start: "core_start demo_life_env (demo_next_cycle Reload (demo_cloud [demo_born]) demo_declared) (empty_db, ())
      = (Inr (rt, c), fin)"
    using demo_life_starts [OF demo_intact, of "demo_next_cycle Reload (demo_cloud [demo_born]) demo_declared" "''tok''" conn]
    by (auto simp: demo_next_cycle_def run)
  have name: "srv_name demo_born = ''one''" unfolding born [symmetric] live by simp
  let ?st = "demo_core\<lparr>co_cloud := demo_cloud [demo_born]\<rparr>"
  have shared: "co_cloud ?st = share_server (site_server (ps_site w')) (demo_cloud [demo_unborn])"
    using name by (simp add: born share_server_def update_server_def demo_cloud_def)
  have step: "core_step (demo_check_env (Inr demo_declared)) (\<lambda>_. Inr []) ?st DReload
      = Returns (Some (Inr (Message ''Reload is being applied.''))) (demo_next_cycle Reload (demo_cloud [demo_born]) demo_declared)"
    by (simp add: core_step_def check_and_backup_def demo_check_env_def demo_next_cycle_def Let_def)
  have asked: "DReload \<in> set (ps_requests w')" using w'(2) by simp
  have server: "demo_unborn \<in> set (servers (demo_cloud [demo_unborn]))" "srv_enabled demo_unborn"
    by (simp add: demo_cloud_def, simp add: demo_life_defs)
  have declared: "ce_parsed (demo_check_env (Inr demo_declared)) = Inr demo_declared"
    "demo_ready ''one'' 1 ''one.org'' Production \<in> set (servers demo_declared)"
    "srv_name (demo_ready ''one'' 1 ''one.org'' Production) = srv_name demo_unborn"
    "srv_enabled (demo_ready ''one'' 1 ''one.org'' Production)"
    by (simp_all add: demo_check_env_def demo_life_defs)
  have walk: "is_walk (cv_walk demo_life_env) (set (server_names (demo_cloud [demo_unborn])) \<union> set (server_names demo_declared))"
    by (simp add: demo_life_env_def is_walk_def demo_life_defs)
  have tidy: "tidy (demo_cloud [demo_unborn])" "tidy demo_declared"
    by (simp_all add: tidy_def demo_life_defs)
  have "Pair ''one'' ` set (svc_kinds demo_unborn) \<subseteq> svc_of ` set (rt_monitors rt)"
    using provisioned_is_monitored [OF w'(1) demo_unborn_simps(5) asked demo_unborn_simps(4) server shared step declared start walk tidy]
    by auto
  then have "(''one'', Nginx) \<in> svc_of ` set (rt_monitors rt)" by (auto simp: svc_kinds_alt)
  then show ?thesis using start by blast
qed

end
