(* ===== verification/Retirement.thy ===== *)
theory Retirement
  imports Lifecycle
begin

text \<open>
  A server from its destruction to the next cycle: \<open>destroy_server\<close> of \<^verbatim>\<open>src/ansible.rs\<close> changes the
  server that the running cloud shares with the task and asks for a Reload, as a setup does.
\<close>

section \<open>What a destruction leaves in memory\<close>

lemma mark_offgrid_server:
  assumes "mark_server_offgrid toml w = (Inr (), w')"
  shows "\<exists>conn. site_server w' = (site_server w)\<lparr>srv_state := Offgrid, srv_ansible_conn := Some conn\<rparr>"
  using assms
  by (auto simp: mark_server_offgrid_def store_server_def move_conn_def on_db_def mark_config_def remove_server_dir_def
      update_state_row_def Let_def via_def pure_def split: option.splits sum.splits if_splits prod.splits)

lemma destruction_recorded:
  assumes "destroy_server env w = (r, w')" "ps_requests w = []" "DReload \<in> set (ps_requests w')"
  obtains conn where "site_server (ps_site w') = (site_server (ps_site w))\<lparr>srv_state := Offgrid, srv_ansible_conn := Some conn\<rparr>"
proof (cases "pe_run env DestroyServer = Inr True")
  case False
  then show ?thesis using assms by (auto simp: destroy_server_def split: sum.splits)
next
  case True
  obtain q site where m: "mark_server_offgrid (pe_toml env) (ps_site w) = (q, site)" by fastforce
  have "q = Inr () \<and> ps_site w' = site"
    using assms True m
    by (cases q; cases "pe_found env")
      (auto simp: destroy_server_def via_def pure_def on_site_def inquire_and_reload_def request_def split: if_splits)
  with mark_offgrid_server [of "pe_toml env" "ps_site w" site] m that show ?thesis by auto
qed

section \<open>A Reload after it\<close>

lemma reload_merge_offgrid:
  assumes "merge_server Reload nps ol n = Inr s" "srv_state ol = Offgrid"
  shows "srv_state s = Offgrid"
  using assms by (auto simp: merge_server_def reload_merge_iff split: if_splits)

lemma linked_state: "linked mode s t \<Longrightarrow> srv_state t = srv_state s"
  by (auto simp: linked_def split: if_splits) (metis KetServer.select_convs(5) KetServer.surjective KetServer.update_convs(15,17))+

lemma applied_keeps_offgrid:
  assumes app: "apply_cloud env init old new (db, w) = (Inr c, fin)" and mode: "dn_mode init = Reload"
    and walk: "is_walk (cv_walk env) (set (server_names old) \<union> set (server_names new))"
    and tidy: "tidy old" "tidy new" and s: "s \<in> set (servers old)" "srv_state s = Offgrid"
  shows "tidy c \<and> (\<forall>t \<in> set (servers c). srv_name t = srv_name s \<longrightarrow> srv_state t = Offgrid)"
proof -
  have uniq: "distinct (server_names old)" and ne: "servers old \<noteq> []" using tidy(1) s(1) by (auto simp: tidy_def)
  obtain r w' where rec: "reconcile_cloud (cv_api env) (cv_rm_dir env) (cv_run env) (cv_sched env) (cv_walk env) old new
      Reload (cv_cf_list env) (dn_rebase_data init) w = (r, w')" by force
  show ?thesis
  proof (cases r)
    case (Inl e)
    then have "c = old" using app rec mode by (simp add: apply_cloud_def)
    then show ?thesis using tidy(1) s uniq by (auto simp: distinct_map inj_on_def)
  next
    case (Inr p)
    then have rec': "reconcile_cloud (cv_api env) (cv_rm_dir env) (cv_run env) (cv_sched env) (cv_walk env) old new
      Reload (cv_cf_list env) (dn_rebase_data init) w = (Inr (c, snd p), w')"
      using app rec mode by (auto simp: apply_cloud_def split: prod.splits sum.splits)
    have "srv_state t = Offgrid" if t: "t \<in> set (servers c)" "srv_name t = srv_name s" for t
    proof -
      obtain m n where "linked Reload m t" "merge_server Reload (inbound_nps (inbound_set (settings new))) s n = Inr m"
        by (rule reconciled_merge [OF rec' walk uniq s(1) t])
      then show ?thesis using reload_merge_offgrid [OF _ s(2)] linked_state by metis
    qed
    then show ?thesis using reload_tidy [OF rec' walk ne tidy] by blast
  qed
qed

text \<open>
  C17. A destroyed server is out of service in the next cycle: when a destruction has asked for a Reload
  and the core has answered it, then a cycle that comes up runs without a monitor for any service of
  the server, which is Offgrid if it is still there, whatever the declaration says about it and
  whether or not the reconciliation succeeded.
\<close>

theorem destroyed_is_unmonitored:
  assumes destroyed: "destroy_server penv w = (r, w')" "ps_requests w = []" "DReload \<in> set (ps_requests w')"
    and server: "site_server (ps_site w) = s" "s \<in> set (servers cloud)"
    and running: "co_cloud st = share_server (site_server (ps_site w')) cloud"
    and reload: "core_step cenv clients st DReload = Returns reply nxt" "ce_parsed cenv = Inr new"
    and start: "core_start denv nxt (db, cf) = (Inr (rt, c), fin)"
    and walk: "is_walk (cv_walk denv) (set (server_names cloud) \<union> set (server_names new))"
    and tidy: "tidy cloud" "tidy new"
  shows "(\<forall>k. (srv_name s, k) \<notin> svc_of ` set (rt_monitors rt))
    \<and> (\<forall>t \<in> set (servers c). srv_name t = srv_name s \<longrightarrow> srv_state t = Offgrid)"
proof -
  obtain conn where dead: "site_server (ps_site w') = s\<lparr>srv_state := Offgrid, srv_ansible_conn := Some conn\<rparr>" (is "_ = ?dead")
    using destruction_recorded [OF destroyed] server(1) by metis
  obtain c0 mid where mode: "dn_mode nxt = Reload" and old: "tidy (share_server ?dead cloud)" "?dead \<in> set (servers (share_server ?dead cloud))"
      "server_names (share_server ?dead cloud) = server_names cloud"
    and app: "apply_cloud denv nxt (share_server ?dead cloud) new (snd (create_db db), cf) = (Inr c0, mid)"
    and svc: "start_services (cv_panel denv) c0 fresh_runtime = Inr (rt, c)"
    by (rule reload_cycle [OF running [unfolded dead] server(2) _ _ reload start tidy(1)]) simp_all
  have c0: "tidy c0 \<and> (\<forall>t \<in> set (servers c0). srv_name t = srv_name s \<longrightarrow> srv_state t = Offgrid)"
    using applied_keeps_offgrid [OF app mode walk [folded old(3)] old(1) tidy(2) old(2)] by simp
  then have "(srv_name s, k) \<notin> svc_of ` set (rt_monitors rt)" for k
    by (auto simp: monitors_of_start [OF svc] served_def)
  moreover have "identity_of ` set (servers c) = identity_of ` set (servers c0)"
    using arg_cong [OF start_services_keeps [OF svc], of set] c0 by (simp add: tidy_def)
  then have "\<forall>t \<in> set (servers c). \<exists>u \<in> set (servers c0). identity_of u = identity_of t"
    by (metis imageE imageI)
  then have "\<forall>t \<in> set (servers c). srv_name t = srv_name s \<longrightarrow> srv_state t = Offgrid"
    using c0 unfolding identity_of_def by (metis prod.inject)
  ultimately show ?thesis by blast
qed

section \<open>A concrete end\<close>

definition demo_doomed :: ProvState where
  "demo_doomed = \<lparr>ps_site = \<lparr>site_server = demo_live\<lparr>srv_ansible_conn := srv_ansible_conn demo_unborn\<rparr>,
     site_db = demo_db\<lparr>db_servers := [''one'' \<mapsto> server_row demo_db_crates demo_live]\<rparr>,
     site_config = Inr ''one'', site_dirs = [''one'']\<rparr>, ps_backups = None, ps_requests = []\<rparr>"

definition demo_alive :: KetServer where
  "demo_alive = site_server (ps_site demo_doomed)"

definition demo_dead :: KetServer where
  "demo_dead = site_server (ps_site (snd (destroy_server (demo_prov_env True) demo_doomed)))"

lemma demo_end:
  "destroy_server (demo_prov_env True) demo_doomed = (Inr (), snd (destroy_server (demo_prov_env True) demo_doomed))"
  "ps_requests (snd (destroy_server (demo_prov_env True) demo_doomed)) = [DSetupInquiry (DestroyTask ''one''), DReload]"
  "demo_dead = demo_live\<lparr>srv_state := Offgrid, srv_ansible_conn := map_option (conn_on ANSIBLE_PORT) (srv_ansible_conn demo_unborn)\<rparr>"
  by (simp_all add: demo_dead_def demo_doomed_def demo_unborn_def destroy_server_def demo_prov_env_def on_site_def mark_server_offgrid_def
      store_server_def move_conn_def on_db_def update_state_row_def mark_config_def demo_toml_def remove_server_dir_def
      inquire_and_reload_def request_def via_def pure_def conn_on_def Let_def demo_live_defs)

lemma demo_end_starts:
  "\<exists>rt c w. core_start demo_life_env (demo_next_cycle Reload (demo_cloud [demo_dead]) (demo_cloud [demo_unborn])) (empty_db, ()) = (Inr (rt, c), w)"
proof -
  let ?init = "demo_next_cycle Reload (demo_cloud [demo_dead]) (demo_cloud [demo_unborn])"
  have off: "srv_state demo_dead = Offgrid" "srv_name demo_dead = ''one''" "srv_state demo_unborn = Offgrid"
    by (simp_all add: demo_end(3) demo_unborn_def) (simp add: demo_live_defs)
  have merge: "merge_clouds (\<lambda>_. Inr ()) [''one''] Reload (demo_cloud [demo_dead]) (demo_cloud [demo_unborn]) = Inr (demo_cloud [demo_unborn], [])"
    by (simp add: merge_clouds_def delete_round_def update_round_def by_name_def demo_cloud_def off)
      (simp add: merge_server_def reload_merge_def off)
  obtain c where prep: "prepare_cloudflare_state demo_api (demo_cloud [demo_unborn]) None () = (Inr (c, None), ())"
    using that by (auto simp: cf_defs demo_cf_defs demo_life_defs ends_with_def ascii_defs)
  have ne: "servers (demo_cloud [demo_dead]) \<noteq> []" by (simp add: demo_cloud_def)
  have rec: "reconcile_cloud demo_api (\<lambda>_. Inr ()) (\<lambda>_ _ _. Inr True) (\<lambda>js. js) [''one''] (demo_cloud [demo_dead]) (demo_cloud [demo_unborn])
      Reload None None () = (Inr (c, None), ())"
    by (simp add: reconcile_cloud_def ne merge prep via_def pure_def)
  from prepare_ready [OF prep] have "list_all2 cf_ready [demo_unborn] (servers c)" by (simp add: demo_cloud_def)
  then obtain s where s: "servers c = [s]" "cf_ready demo_unborn s" by (auto simp: list_all2_Cons1)
  have s_eq: "s = demo_unborn\<lparr>srv_cfstate := srv_cfstate s\<rparr>" using s(2) cf_ready_keeps by blast
  have sec: "srv_state s = Offgrid" "srv_inbounds s = srv_inbounds demo_live" "mother_subids (srv_secrets s) = mother_subids (srv_secrets demo_live)"
    by (subst s_eq, simp add: demo_unborn_def)+
  have "storable_cloud c" using sec(2,3) by (simp add: storable_cloud_def s(1) storable_def) (simp add: demo_live_defs)
  moreover have "start_services demo_panel c fresh_runtime = Inr (fresh_runtime, c)"
    using sec(1) s(1) by (simp add: start_services_def served_def)
  moreover have "has_schema (snd (create_db empty_db))" using demo_intact by (simp add: create_db_schema intact_def)
  ultimately show ?thesis
    using core_start_unfold [of ?init "demo_cloud [demo_unborn]" "demo_cloud [demo_dead]" demo_life_env empty_db "()"] rec
    by (simp add: demo_next_cycle_def apply_cloud_def demo_life_env_def demo_core_env_def update_db_stored via_def pure_def)
qed

theorem destroyed_is_unmonitored_witness:
  "\<exists>rt c fin. core_start demo_life_env (demo_next_cycle Reload (demo_cloud [demo_dead]) (demo_cloud [demo_unborn])) (empty_db, ()) = (Inr (rt, c), fin)
     \<and> (''one'', Nginx) \<notin> svc_of ` set (rt_monitors rt)"
proof -
  let ?st = "demo_core\<lparr>co_cloud := demo_cloud [demo_dead]\<rparr>" and ?w = "snd (destroy_server (demo_prov_env True) demo_doomed)"
  obtain rt c fin where start: "core_start demo_life_env (demo_next_cycle Reload (demo_cloud [demo_dead]) (demo_cloud [demo_unborn])) (empty_db, ())
      = (Inr (rt, c), fin)"
    using demo_end_starts by auto
  have name: "srv_name demo_dead = ''one''" "srv_name demo_alive = ''one''"
    by (simp_all add: demo_end(3) demo_alive_def demo_doomed_def) (simp_all add: demo_live_defs)
  have shared: "co_cloud ?st = share_server (site_server (ps_site ?w)) (demo_cloud [demo_alive])"
    using name by (simp add: demo_dead_def [symmetric] share_server_def update_server_def demo_cloud_def)
  have step: "core_step (demo_check_env (Inr (demo_cloud [demo_unborn]))) (\<lambda>_. Inr []) ?st DReload
      = Returns (Some (Inr (Message ''Reload is being applied.''))) (demo_next_cycle Reload (demo_cloud [demo_dead]) (demo_cloud [demo_unborn]))"
    by (simp add: core_step_def check_and_backup_def demo_check_env_def demo_next_cycle_def Let_def)
  have asked: "ps_requests demo_doomed = []" "DReload \<in> set (ps_requests ?w)"
    by (simp_all add: demo_end(2)) (simp add: demo_doomed_def)
  have server: "site_server (ps_site demo_doomed) = demo_alive" "demo_alive \<in> set (servers (demo_cloud [demo_alive]))"
    by (simp_all add: demo_alive_def demo_cloud_def)
  have parsed: "ce_parsed (demo_check_env (Inr (demo_cloud [demo_unborn]))) = Inr (demo_cloud [demo_unborn])"
    by (simp add: demo_check_env_def)
  have walk: "is_walk (cv_walk demo_life_env) (set (server_names (demo_cloud [demo_alive])) \<union> set (server_names (demo_cloud [demo_unborn])))"
    using name by (simp add: demo_life_env_def is_walk_def demo_cloud_def)
  have tidy: "tidy (demo_cloud [demo_alive])" "tidy (demo_cloud [demo_unborn])"
    by (simp_all add: tidy_def demo_alive_def demo_doomed_def demo_life_defs)
  have "(''one'', Nginx) \<notin> svc_of ` set (rt_monitors rt)"
    using destroyed_is_unmonitored [OF demo_end(1) asked server shared step parsed start walk tidy] name by auto
  then show ?thesis using start by blast
qed

end
