(* ===== verification/Recovery.thy ===== *)
theory Recovery
  imports Lifecycle
begin

text \<open>
  A new process after the daemon has ended in whatever way: \<open>daemon_core\<close> of \<^verbatim>\<open>src/daemon/core.rs\<close> takes
  the running cloud from the database and the declared one from the configuration. The last process
  leaves the cloud that it stored; while it ran, its aggregator wrote statistics.
\<close>

section \<open>Loading\<close>

lemma load_ignores_statistics: "load_cloud lib order iorder (db\<lparr>db_stats := stats\<rparr>) = load_cloud lib order iorder db"
  by (simp add: load_cloud_def load_settings_def get_option_def)

lemma create_db_again: "has_schema db \<Longrightarrow> snd (create_db (db\<lparr>db_stats := stats\<rparr>)) = db\<lparr>db_stats := stats\<rparr>"
proof -
  assume db: "has_schema db"
  then have sub: "dom (map_of default_options) \<subseteq> dom (db_options db)"
    by (auto simp: has_schema_def option_keys_def default_options_def)
  have "map_of default_options ++ db_options db = db_options db"
  proof (rule ext)
    fix k
    show "(map_of default_options ++ db_options db) k = db_options db k"
      using sub by (cases "db_options db k") (auto simp: map_add_def domIff)
  qed
  moreover have "db_foreign_keys db" using db by (simp add: has_schema_def refs_ok_def)
  ultimately show ?thesis by (simp add: create_db_result)
qed

section \<open>A cold start\<close>

lemma cold_start:
  assumes "load_cloud (cv_db env) (cv_order env) (cv_iorder env) (snd (create_db db)) = Inr old" "cv_parsed env = Inr new"
  shows "core_start env init_state (db, w)
    = core_start env (init_state\<lparr>dn_old_cloud := Some old, dn_new_cloud := Some new\<rparr>) (db, w)"
  using assms
  by (simp add: core_start_def new_cloud_of_def old_cloud_of_def create_db_result apply_cloud_def init_state_def
      via_def pure_def Let_def)

text \<open>What a server is after it has been stored and loaded.\<close>

lemma reloaded_identity:
  "srv_name (reloaded gs s) = srv_name s" "srv_state (reloaded gs s) = srv_state s" "srv_enabled (reloaded gs s) = srv_enabled s"
  "srv_secrets (reloaded gs s) = (srv_secrets s)\<lparr>mother_subids := mother_subids (srv_secrets s) |` set gs\<rparr>"
  by (simp_all add: reloaded_def)

lemma reloaded_inbounds:
  assumes "storable s" "is_walk gs (inb_name ` set (srv_inbounds s))"
  shows "map inb_name (srv_inbounds (reloaded gs s)) = gs" "set (svc_kinds (reloaded gs s)) = set (svc_kinds s)"
proof -
  have "map (inb_name \<circ> named_inbound s) gs = map id gs"
    by (rule map_cong) (use assms named_inbound_props(1) in \<open>auto simp: is_walk_def\<close>)
  then show names: "map inb_name (srv_inbounds (reloaded gs s)) = gs" by (simp add: reloaded_def)
  have "set (map inb_name (srv_inbounds (reloaded gs s))) = set (map inb_name (srv_inbounds s))"
    unfolding names using assms(2) by (simp add: is_walk_def)
  then have "Xray ` set (map inb_name (srv_inbounds (reloaded gs s))) = Xray ` set (map inb_name (srv_inbounds s))" by simp
  then show "set (svc_kinds (reloaded gs s)) = set (svc_kinds s)" by (simp add: svc_kinds_alt image_image)
qed

lemma loaded_cloud:
  assumes "update_db lib (Inr text) c db0 = (Inr (), db1)" "has_schema db0" "storable_cloud c" "texts_ok lib c"
    and "is_walk order (set (server_names c))"
    and "\<forall>s \<in> set (servers c). is_walk (iorder (srv_name s)) (inb_name ` set (srv_inbounds s))"
  obtains l where "load_cloud lib order iorder (snd (create_db (db1\<lparr>db_stats := stats\<rparr>))) = Inr l"
    "tidy l" "server_names l = order" "\<And>s. s \<in> set (servers c) \<Longrightarrow> reloaded (iorder (srv_name s)) s \<in> set (servers l)"
proof -
  have db1: "db1 = stored lib text c db0" using update_db_stored [OF assms(2,3)] assms(1) by simp
  let ?l = "\<lparr>servers = map (\<lambda>nm. reloaded (iorder nm) (the (find_server nm c))) order, settings = settings c\<rparr>"
  have uniq: "distinct (server_names c)" and each: "list_all storable (servers c)" using assms(3) by (simp_all add: storable_cloud_def)
  note find = find_server_unique [OF uniq]
  have named: "\<exists>s \<in> set (servers c). srv_name s = nm" if "nm \<in> set order" for nm
    using that assms(5) by (auto simp: is_walk_def)
  have "server_names ?l = map id order" unfolding Cloud.simps map_map
    by (rule map_cong) (use named find in \<open>fastforce simp: reloaded_identity\<close>)+
  moreover have "distinct (map inb_name (srv_inbounds t))" if "t \<in> set (servers ?l)" for t
  proof -
    from that named find obtain s where s: "s \<in> set (servers c)" "t = reloaded (iorder (srv_name s)) s" by fastforce
    then show ?thesis using reloaded_inbounds(1) each assms(6) by (simp add: list_all_iff is_walk_def)
  qed
  moreover have "reloaded (iorder (srv_name s)) s \<in> set (servers ?l)" if "s \<in> set (servers c)" for s
    using that find [OF that] assms(5) by (force simp: is_walk_def)
  moreover have "load_cloud lib order iorder (snd (create_db (db1\<lparr>db_stats := stats\<rparr>))) = Inr ?l"
    using load_cloud_stored [OF assms(3,4,5)] assms(6)
    by (simp add: create_db_again [OF stored_schema [OF assms(2)]] db1 load_ignores_statistics)
  ultimately show ?thesis using that [of ?l] assms(5) by (simp add: tidy_def is_walk_def list_all_iff)
qed

text \<open>
  C18. A Production server survives the process: when the daemon has stored its cloud and ended in
  whatever way, with whatever statistics written since, and a new process comes up with a declaration
  that still has the server enabled, then it runs the server in Production with the same credentials,
  and monitors each of its services, whether or not the reconciliation succeeded.
\<close>

theorem restart_keeps_production:
  assumes stored: "update_db (cv_db env) (Inr text) c db0 = (Inr (), db1)" "has_schema db0" "storable_cloud c" "texts_ok (cv_db env) c"
    and rows: "is_walk (cv_order env) (set (server_names c))"
      "\<forall>s \<in> set (servers c). is_walk (cv_iorder env (srv_name s)) (inb_name ` set (srv_inbounds s))"
    and start: "core_start env init_state (db1\<lparr>db_stats := stats\<rparr>, w) = (Inr (rt, c'), fin)"
    and declared: "cv_parsed env = Inr new" "tidy new" "n \<in> set (servers new)" "srv_name n = srv_name s" "srv_enabled n"
    and walk: "is_walk (cv_walk env) (set (server_names c) \<union> set (server_names new))"
    and s: "s \<in> set (servers c)" "srv_state s = Production" "srv_enabled s"
  shows "(\<exists>t \<in> set (servers c'). srv_name t = srv_name s \<and> srv_state t = Production \<and> srv_secrets t
      = (srv_secrets s)\<lparr>mother_subids := mother_subids (srv_secrets s) |` (inb_name ` set (srv_inbounds s))\<rparr>)
    \<and> Pair (srv_name s) ` set (svc_kinds s) \<subseteq> svc_of ` set (rt_monitors rt)"
proof -
  obtain l where l: "load_cloud (cv_db env) (cv_order env) (cv_iorder env) (snd (create_db (db1\<lparr>db_stats := stats\<rparr>))) = Inr l"
    "tidy l" "server_names l = cv_order env" "reloaded (cv_iorder env (srv_name s)) s \<in> set (servers l)" (is "?live \<in> _")
    using loaded_cloud [OF stored rows] s(1) by metis
  let ?init = "init_state\<lparr>dn_old_cloud := Some l, dn_new_cloud := Some new\<rparr>"
  have init: "dn_new_cloud ?init = Some new" "dn_old_cloud ?init = Some l" "dn_mode ?init = Reload" by (simp_all add: init_state_def)
  obtain c0 mid where app: "apply_cloud env ?init l new (snd (create_db (db1\<lparr>db_stats := stats\<rparr>)), w) = (Inr c0, mid)"
    and svc: "start_services (cv_panel env) c0 fresh_runtime = Inr (rt, c')"
    using core_start_result [OF start [unfolded cold_start [OF l(1) declared(1)]] init(1,2)] by blast
  have walk': "is_walk (cv_walk env) (set (server_names l) \<union> set (server_names new))"
    using walk rows(1) by (simp add: l(3) is_walk_def)
  obtain t where t: "tidy c0" "t \<in> set (servers c0)" "served t" "identity_of t = identity_of ?live" "srv_inbounds t = srv_inbounds ?live"
    by (rule applied_keeps_server [OF app init(3) walk' l(2) declared(2) l(4) _ _ declared(3) _ declared(5)])
      (simp_all add: reloaded_identity s declared(4))
  have inb: "is_walk (cv_iorder env (srv_name s)) (inb_name ` set (srv_inbounds s))" "storable s"
    using rows(2) s(1) stored(3) by (simp_all add: storable_cloud_def list_all_iff)
  have "identity_of ` set (servers c') = identity_of ` set (servers c0)"
    using arg_cong [OF start_services_keeps [OF svc], of set] t(1) by (simp add: tidy_def)
  then obtain u where "u \<in> set (servers c')" "identity_of u = identity_of ?live"
    using t(2,4) by (metis (no_types, lifting) image_iff)
  then have "u \<in> set (servers c') \<and> srv_name u = srv_name s \<and> srv_state u = Production \<and> srv_secrets u
      = (srv_secrets s)\<lparr>mother_subids := mother_subids (srv_secrets s) |` (inb_name ` set (srv_inbounds s))\<rparr>"
    using inb(1) s(2) by (simp add: identity_of_def reloaded_identity is_walk_def)
  moreover have "set (svc_kinds t) = set (svc_kinds s)" "srv_name t = srv_name s"
    using reloaded_inbounds(2) [OF inb(2,1)] t(4,5) by (simp_all add: svc_kinds_alt identity_of_def reloaded_identity)
  ultimately show ?thesis using t(2,3) monitors_of_start [OF svc t(1)] by auto
qed

section \<open>A concrete restart\<close>

definition demo_stats :: "string \<times> string \<Rightarrow> StatRow option" where
  "demo_stats k = (if k = (''one'', ''nginx'') then Some (fresh_stat\<lparr>st_count := 3\<rparr>) else None)"

lemma demo_reloaded:
  "\<exists>conn. reloaded [''alpha'', ''beta'', super_name] demo_live = demo_run ''t'' conn"
proof -
  have "mother_subids (srv_secrets demo_live) |` {''alpha'', ''beta'', super_name} = mother_subids (srv_secrets demo_live)"
    by (rule ext) (simp add: demo_live_defs restrict_map_def)
  then show ?thesis
    by (simp add: reloaded_def demo_run_def) (simp add: demo_live_defs named_inbound_def)
qed

lemma demo_survives:
  assumes "update_db demo_db_crates (Inr ''txt'') (demo_cloud [demo_live]) demo_db = (Inr (), db1)"
  shows "\<exists>rt c' fin. core_start demo_life_env init_state (db1\<lparr>db_stats := demo_stats\<rparr>, ()) = (Inr (rt, c'), fin)"
    and "storable_cloud (demo_cloud [demo_live])" "texts_ok demo_db_crates (demo_cloud [demo_live])"
proof -
  let ?c = "demo_cloud [demo_live]" and ?gs = "[''alpha'', ''beta'', super_name]"
  show c: "storable_cloud ?c"
    by (simp add: storable_cloud_def storable_def demo_live_defs)
  show texts: "texts_ok demo_db_crates ?c"
    by (simp add: texts_ok_def demo_db_crates_def demo_live_defs)
  have db1: "db1 = stored demo_db_crates ''txt'' ?c demo_db"
    using update_db_stored [OF demo_db_schema c, of demo_db_crates "''txt''"] assms by simp
  have live: "srv_name demo_live = ''one''" "inb_name ` set (srv_inbounds demo_live) = set ?gs"
    by (simp_all add: demo_live_defs)
  have "find_server ''one'' ?c = Some demo_live" using find_server_unique [of ?c demo_live] live by (simp add: demo_cloud_def)
  then have load: "load_cloud demo_db_crates [''one''] (\<lambda>_. ?gs) (snd (create_db (db1\<lparr>db_stats := demo_stats\<rparr>)))
      = Inr (demo_cloud [reloaded ?gs demo_live])"
    using load_cloud_stored [OF c texts, of "[''one'']" "\<lambda>_. ?gs"] live
    by (simp add: create_db_again [OF stored_schema [OF demo_db_schema]] db1 load_ignores_statistics is_walk_def demo_cloud_def
        super_name_def)
  have "fst ` dom (db_inbounds db1) \<subseteq> dom (db_servers db1)"
    using stored_schema [OF demo_db_schema, of demo_db_crates "''txt''" ?c] by (simp add: has_schema_def refs_ok_def db1)
  moreover have "''one'' \<in> dom (db_servers db1)"
    using \<open>find_server ''one'' ?c = Some demo_live\<close> by (simp add: db1 stored_def server_table_def domIff)
  ultimately have intact: "intact (db1\<lparr>db_stats := demo_stats\<rparr>)"
    by (auto simp: intact_def demo_stats_def dom_def split: if_splits)
  obtain conn where "reloaded ?gs demo_live = demo_run ''t'' conn" using demo_reloaded by blast
  then show "\<exists>rt c' fin. core_start demo_life_env init_state (db1\<lparr>db_stats := demo_stats\<rparr>, ()) = (Inr (rt, c'), fin)"
    using demo_life_starts [OF intact, of "init_state\<lparr>dn_old_cloud := Some (demo_cloud [reloaded ?gs demo_live]), dn_new_cloud := Some demo_declared\<rparr>" "''t''" conn]
      cold_start [of demo_life_env "db1\<lparr>db_stats := demo_stats\<rparr>" "demo_cloud [reloaded ?gs demo_live]" demo_declared "()"] load
    by (simp add: demo_life_env_def demo_core_env_def init_state_def)
qed

theorem restart_keeps_production_witness:
  "\<exists>db1 rt c' fin. update_db demo_db_crates (Inr ''txt'') (demo_cloud [demo_live]) demo_db = (Inr (), db1)
     \<and> core_start demo_life_env init_state (db1\<lparr>db_stats := demo_stats\<rparr>, ()) = (Inr (rt, c'), fin)
     \<and> (''one'', Nginx) \<in> svc_of ` set (rt_monitors rt)"
proof -
  let ?c = "demo_cloud [demo_live]" and ?db1 = "stored demo_db_crates ''txt'' (demo_cloud [demo_live]) demo_db"
  have "storable_cloud ?c" by (simp add: storable_cloud_def storable_def demo_live_defs)
  then have up: "update_db demo_db_crates (Inr ''txt'') ?c demo_db = (Inr (), ?db1)" by (rule update_db_stored [OF demo_db_schema])
  note demo = demo_survives [OF up]
  obtain rt c' fin where start: "core_start demo_life_env init_state (?db1\<lparr>db_stats := demo_stats\<rparr>, ()) = (Inr (rt, c'), fin)"
    using demo(1) by blast
  have env: "cv_db demo_life_env = demo_db_crates" "cv_order demo_life_env = [''one'']" "cv_walk demo_life_env = [''one'']"
    "cv_iorder demo_life_env = (\<lambda>_. [''alpha'', ''beta'', super_name])" "cv_parsed demo_life_env = Inr demo_declared"
    by (simp_all add: demo_life_env_def demo_core_env_def)
  have live: "server_names ?c = [''one'']" "servers ?c = [demo_live]" "srv_name demo_live = ''one''" "srv_state demo_live = Production"
      "srv_enabled demo_live" "inb_name ` set (srv_inbounds demo_live) = {''alpha'', ''beta'', super_name}"
    by (simp_all add: demo_live_defs)
  have declared: "tidy demo_declared" "demo_ready ''one'' 1 ''one.org'' Production \<in> set (servers demo_declared)"
    "srv_name (demo_ready ''one'' 1 ''one.org'' Production) = ''one''" "srv_enabled (demo_ready ''one'' 1 ''one.org'' Production)"
    "server_names demo_declared = [''one'']"
    by (simp_all add: tidy_def demo_life_defs)
  have "Pair ''one'' ` set (svc_kinds demo_live) \<subseteq> svc_of ` set (rt_monitors rt)"
    using restart_keeps_production [of demo_life_env "''txt''" ?c demo_db ?db1 demo_stats "()" rt c' fin demo_declared
        "demo_ready ''one'' 1 ''one.org'' Production" demo_live] up demo_db_schema demo(2,3) start declared live
    by (simp add: env is_walk_def super_name_def)
  then have "(''one'', Nginx) \<in> svc_of ` set (rt_monitors rt)" by (auto simp: svc_kinds_alt)
  with up start show ?thesis by blast
qed

end
