(* ===== verification/Periodic.thy ===== *)
theory Periodic
  imports Provisioning_Props
begin

text \<open>
  The periodic tasks of \<^verbatim>\<open>src/cloud/service.rs\<close>: the pruner of panel backups, the certificate checker
  and the updater of the GeoIP database. A task waits for its next tick and does its work, forever;
  a run over the given ticks ends with \<open>None\<close> when the task is still waiting, or with the error that
  ended the task.
\<close>

section \<open>Pruning backups\<close>

text \<open>
  An hour: what has happened to the directory since the last one, and which files can be removed. The
  first pruning follows the start at once.
\<close>

record Hour =
  hr_changes :: "Dir \<Rightarrow> Dir"
  hr_remove :: "string \<Rightarrow> unit res"

fun run_xuidb_pruner :: "KetServer \<Rightarrow> Hour list \<Rightarrow> Dir \<Rightarrow> BoxError option \<times> Dir" where
  "run_xuidb_pruner s [] dir = (None, dir)"
| "run_xuidb_pruner s (h # hs) dir =
     (case prune_xui_backups (hr_remove h) s (hr_changes h dir) of
        (Inl e, dir') \<Rightarrow> (Some e, dir')
      | (Inr _, dir') \<Rightarrow> run_xuidb_pruner s hs dir')"

section \<open>Certificates\<close>

text \<open>A day: the outcome of the run that checks and renews the certificate.\<close>

definition acme_run :: "KetServer \<Rightarrow> AnsibleRun" where
  "acme_run s = \<lparr>ar_server = s, ar_actions = [Acme], ar_stream_it = False, ar_rebase_data = None\<rparr>"

fun run_acme_checker :: "KetServer \<Rightarrow> RunEnv list \<Rightarrow> Files \<Rightarrow> BoxError option \<times> Files" where
  "run_acme_checker s [] fs = (None, fs)"
| "run_acme_checker s (day # days) fs =
     (case run_ansible day (acme_run s) fs of
        (Inl e, fs') \<Rightarrow> (Some e, fs')
      | (Inr success, fs') \<Rightarrow> run_acme_checker s days fs')"

section \<open>The GeoIP database\<close>

text \<open>A week: the download, decoded to records. The first one is a week after the start.\<close>

fun run_geoip_updater :: "GeoRecord res list res list \<Rightarrow> Geoip option \<Rightarrow> Geoip option" where
  "run_geoip_updater [] db = db"
| "run_geoip_updater (Inl _ # weeks) db = run_geoip_updater weeks db"
| "run_geoip_updater (Inr csv # weeks) db = run_geoip_updater weeks (snd (create_geoip_db csv db))"

lemma run_geoip_updater_append:
  "run_geoip_updater (ws @ vs) db = run_geoip_updater vs (run_geoip_updater ws db)"
  by (induction ws db rule: run_geoip_updater.induct) simp_all

text \<open>What a download leaves does not depend on what was there before.\<close>

lemma create_geoip_db_fresh: "create_geoip_db csv db = create_geoip_db csv None"
  by (simp add: create_geoip_db_def)

lemma failed_weeks: "list_all (\<lambda>w. \<exists>e. w = Inl e) ws \<Longrightarrow> run_geoip_updater ws db = db"
  by (induction ws db rule: run_geoip_updater.induct) auto

text \<open>
  The database is that of the last download that succeeded, however many failed since; if that
  download has a malformed record, there is none until the next one that has not.
\<close>

lemma geoip_last_download:
  assumes "list_all (\<lambda>w. \<exists>e. w = Inl e) later"
  shows "run_geoip_updater (earlier @ Inr csv # later) db = snd (create_geoip_db csv None)"
  using failed_weeks [OF assms] create_geoip_db_fresh [of csv "run_geoip_updater earlier db"]
  by (simp add: run_geoip_updater_append)

section \<open>A failing tick\<close>

text \<open>The pruner does not survive an error: hours that come after it make no difference.\<close>

lemma pruner_append:
  "run_xuidb_pruner s (hs @ gs) dir =
     (case run_xuidb_pruner s hs dir of (Some e, d) \<Rightarrow> (Some e, d) | (None, d) \<Rightarrow> run_xuidb_pruner s gs d)"
  by (induction s hs dir rule: run_xuidb_pruner.induct) (auto split: prod.split sum.split)

lemma pruner_ends_at_error:
  assumes "run_xuidb_pruner s hs dir = (Some e, d)"
  shows "run_xuidb_pruner s (hs @ gs) dir = (Some e, d)"
  using assms by (simp add: pruner_append)

text \<open>The certificate checker survives runs that fail, only a run that cannot be made ends it.\<close>

lemma acme_append:
  "run_acme_checker s (hs @ gs) fs =
     (case run_acme_checker s hs fs of (Some e, f) \<Rightarrow> (Some e, f) | (None, f) \<Rightarrow> run_acme_checker s gs f)"
  by (induction s hs fs rule: run_acme_checker.induct) (auto split: prod.split sum.split)

lemma acme_checker_ends_iff:
  "(\<exists>e fs'. run_acme_checker s days fs = (Some e, fs')) \<longleftrightarrow>
     (\<exists>before day rest fs1 e fs2. days = before @ day # rest \<and> run_acme_checker s before fs = (None, fs1)
        \<and> run_ansible day (acme_run s) fs1 = (Inl e, fs2))"
proof (induction days arbitrary: fs)
  case (Cons day days)
  obtain r fs1 where run: "run_ansible day (acme_run s) fs = (r, fs1)" by force
  show ?case
  proof (cases r)
    case (Inl e)
    then show ?thesis using run by (auto intro!: exI [of _ "[]"])
  next
    case (Inr b)
    show ?thesis (is "?l \<longleftrightarrow> ?r")
    proof
      assume ?l
      then have "\<exists>e fs'. run_acme_checker s days fs1 = (Some e, fs')" using run Inr by simp
      then obtain before d rest f2 e f3 where "days = before @ d # rest" "run_acme_checker s before fs1 = (None, f2)"
        "run_ansible d (acme_run s) f2 = (Inl e, f3)"
        using Cons.IH by blast
      then show ?r using run Inr by (intro exI [of _ "day # before"]) auto
    next
      assume ?r
      then show ?l by (auto simp: acme_append simp del: run_acme_checker.simps(2)) (simp add: run_acme_checker.simps(2))
    qed
  qed
qed simp

end
