(* ===== verification/Service_Check.thy ===== *)
theory Service_Check
  imports Monitor
begin

text \<open>
  The health checks of \<^verbatim>\<open>src/cloud/service.rs\<close>: the SSH banner, the HTTPS answer of Nginx, the Xray
  check through a local proxy, and the rewriting of the downloaded client configuration.

  The network is what it answers: the result of a connection attempt, the chunks a stream
  delivers, the texts the address services return in the order they arrive. Bytes are \<open>char\<close>s.
\<close>

section \<open>Bytes\<close>

fun contains :: "string \<Rightarrow> string \<Rightarrow> bool" where
  "contains p [] = (p = [])"
| "contains p (c # cs) = (starts_with p (c # cs) \<or> contains p cs)"

text \<open>\<open>windows(n).position(..)\<close>: what stands before the first occurrence.\<close>

fun before :: "string \<Rightarrow> string \<Rightarrow> string option" where
  "before p [] = (if p = [] then Some [] else None)"
| "before p (c # cs) = (if starts_with p (c # cs) then Some [] else map_option ((#) c) (before p cs))"

definition CR_LF :: string where
  "CR_LF = [char_of (13 :: nat), char_of (10 :: nat)]"

text \<open>Well-formed UTF-8, which \<open>str::from_utf8\<close> checks.\<close>

definition cont :: "nat \<Rightarrow> bool" where
  "cont b \<longleftrightarrow> 128 \<le> b \<and> b < 192"

fun valid_utf8 :: "nat list \<Rightarrow> bool" where
  "valid_utf8 [] = True"
| "valid_utf8 (a # bs) =
     (if a < 128 then valid_utf8 bs
      else case bs of
        [] \<Rightarrow> False
      | b # bs1 \<Rightarrow>
          (if 194 \<le> a \<and> a < 224 then cont b \<and> valid_utf8 bs1
           else case bs1 of
             [] \<Rightarrow> False
           | c # bs2 \<Rightarrow>
               (if 224 \<le> a \<and> a < 240
                then cont b \<and> (a = 224 \<longrightarrow> 160 \<le> b) \<and> (a = 237 \<longrightarrow> b < 160) \<and> cont c \<and> valid_utf8 bs2
                else case bs2 of
                  [] \<Rightarrow> False
                | d # bs3 \<Rightarrow> 240 \<le> a \<and> a < 245 \<and> cont b \<and> (a = 240 \<longrightarrow> 144 \<le> b) \<and> (a = 244 \<longrightarrow> b < 144)
                    \<and> cont c \<and> cont d \<and> valid_utf8 bs3)))"

section \<open>SSH and HTTPS\<close>

definition check_ssh_stream :: "string res \<Rightarrow> unit res" where
  "check_ssh_stream answer =
     and_then answer (\<lambda>buf.
     and_then (ensure (buf \<noteq> []) (External ''Connection closed before SSH banner.'')) (\<lambda>_.
     and_then (ensure (valid_utf8 (map of_char buf)) (External ''utf8'')) (\<lambda>_.
     ensure (starts_with ''SSH-'' buf) (External ''Not an SSH server.''))))"

text \<open>The reading loop; the end of the list, or an empty chunk, is the end of the stream.\<close>

fun read_headers :: "string res list \<Rightarrow> string \<Rightarrow> string res" where
  "read_headers [] buf =
     (if contains (CR_LF @ CR_LF) buf then Inr buf
      else if length buf > 16 * 1024 then Inl (External ''too large headers'') else Inr buf)"
| "read_headers (chunk # chunks) buf =
     (if contains (CR_LF @ CR_LF) buf then Inr buf
      else if length buf > 16 * 1024 then Inl (External ''too large headers'')
      else case chunk of
             Inl e \<Rightarrow> Inl e
           | Inr tmp \<Rightarrow> if tmp = [] then Inr buf else read_headers chunks (buf @ tmp))"

definition lower_ascii :: "string \<Rightarrow> string" where
  "lower_ascii s = map (\<lambda>c. if ascii_uppercase (of_char c) then char_of (of_char c + 32 :: nat) else c) s"

definition cf_errors :: "string list" where
  "cf_errors = [''520'', ''521'', ''522'', ''523'', ''524'', ''525'', ''526'', ''527'']"

definition check_response :: "string \<Rightarrow> unit res" where
  "check_response buf =
     (case before CR_LF buf of
        Some status_line \<Rightarrow>
          (if contains ''200 OK'' status_line
           then ensure (contains ''x-health-verify: my-origin-server'' (lower_ascii buf))
                  (External ''X-Health-Verify header is missing'')
           else if list_ex (\<lambda>code. contains code status_line) cf_errors
           then Inl (External (''Cloudflare edge is up, but Nginx is having issues: '' @ status_line))
           else Inl (External (''HTTP Error: '' @ status_line)))
      | None \<Rightarrow> Inl (External ''No valid HTTP status line found in TLS response''))"

definition health_request :: "string \<Rightarrow> SvcInfo \<Rightarrow> string" where
  "health_request agent info =
     ''HEAD /'' @ health_path (srv_secrets (si_server info)) @ '' HTTP/1.1'' @ CR_LF
     @ ''Host: '' @ uihostname (si_server info) @ CR_LF @ ''User-Agent: '' @ agent @ CR_LF
     @ ''Accept: */*'' @ CR_LF @ ''Connection: close'' @ CR_LF @ CR_LF"

text \<open>The handshake and the sending of the request succeed or fail as a whole.\<close>

definition check_tls_stream :: "unit res \<Rightarrow> string res list \<Rightarrow> unit res" where
  "check_tls_stream handshake chunks =
     and_then handshake (\<lambda>_. and_then (read_headers chunks []) check_response)"

section \<open>The client configuration\<close>

datatype Json = JNum u64 | JOther string | JStr string | JArr "Json list" | JObj "(string \<times> Json) list"

definition json_get :: "string \<Rightarrow> Json \<Rightarrow> Json option" where
  "json_get k j = (case j of JObj fs \<Rightarrow> map_of fs k | _ \<Rightarrow> None)"

definition json_set :: "string \<Rightarrow> Json \<Rightarrow> Json \<Rightarrow> Json" where
  "json_set k v j = (case j of JObj fs \<Rightarrow> JObj (map (\<lambda>(k', x). (k', if k' = k then v else x)) fs) | _ \<Rightarrow> j)"

definition rewrite_entry :: "u16 \<Rightarrow> Json \<Rightarrow> Json" where
  "rewrite_entry newport entry =
     (let protocol = (case json_get ''protocol'' entry of Some (JStr s) \<Rightarrow> Some s | _ \<Rightarrow> None) in
      if protocol = Some ''socks'' \<or> protocol = Some ''mixed''
      then (case json_get ''port'' entry of
              Some _ \<Rightarrow> json_set ''port'' (JNum (ucast newport)) entry | None \<Rightarrow> entry)
      else if protocol = Some ''http''
      then (case json_get ''port'' entry of
              Some (JNum port) \<Rightarrow> json_set ''port'' (JNum (port + ucast newport)) entry | _ \<Rightarrow> entry)
      else entry)"

definition rewrite_ports :: "u16 \<Rightarrow> Json \<Rightarrow> Json" where
  "rewrite_ports newport json =
     (case json_get ''inbounds'' json of
        Some (JArr es) \<Rightarrow> json_set ''inbounds'' (JArr (map (rewrite_entry newport) es)) json
      | _ \<Rightarrow> json)"

definition dl_sublink :: "(string \<Rightarrow> Json res) \<Rightarrow> string res \<Rightarrow> u16 \<Rightarrow> Json res" where
  "dl_sublink from_str resp newport =
     and_then resp (\<lambda>text. and_then (from_str text) (\<lambda>json. Inr (rewrite_ports newport json)))"

section \<open>Xray\<close>

definition required_matches :: nat where
  "required_matches = 2"

text \<open>\<open>while let Some(Some(ip)) = ip_futures.next().await\<close>: the answers in the order they arrive.\<close>

fun ip_loop :: "string \<Rightarrow> nat \<Rightarrow> string option list \<Rightarrow> bool" where
  "ip_loop ip matches (Some answer # rest) =
     (if trim_ws (str_chars answer) = map of_char ip
      then (if matches + 1 \<ge> required_matches then True else ip_loop ip (matches + 1) rest)
      else ip_loop ip matches rest)"
| "ip_loop ip matches _ = False"

record XrayProbe =
  xp_sublink :: "Json res"
  xp_write :: "unit res"
  xp_spawn :: "unit res"
  xp_connects :: "bool list"
  xp_client :: "unit res"
  xp_answers :: "string option list"

definition check_xray :: "SvcInfo \<Rightarrow> ActionMap \<Rightarrow> XrayProbe \<Rightarrow> unit res" where
  "check_xray info m probe =
     (case si_kind info of
        Xray inbound \<Rightarrow>
          (if inbound = super_name then check_super_xray info m
           else case si_link info of
             Some xurl \<Rightarrow>
               and_then (xp_sublink probe) (\<lambda>_.
               and_then (xp_write probe) (\<lambda>_.
               and_then (xp_spawn probe) (\<lambda>_.
               and_then (ensure (list_ex (\<lambda>b. b) (take 10 (xp_connects probe))) (External ''proxy unreachable'')) (\<lambda>_.
               and_then (xp_client probe) (\<lambda>_.
               ensure (ip_loop (show_ip (srv_ip (si_server info))) 0 (xp_answers probe))
                 (External ''The returned IP is not the same as the server IP''))))))
           | None \<Rightarrow> Inl (External ''The link in an Xray service shouldn't be empty''))
      | _ \<Rightarrow> Inl (External ''The service given is not an Xray one''))"

record Probe =
  pr_connect :: "unit res"
  pr_banner :: "string res"
  pr_handshake :: "unit res"
  pr_chunks :: "string res list"
  pr_xray :: XrayProbe

text \<open>\<open>Inl\<close> carries the entry whose check failed.\<close>

definition check_service :: "ActionMap \<Rightarrow> Probe \<Rightarrow> SvcEntry \<Rightarrow> SvcEntry + SvcEntry" where
  "check_service m probe svc =
     (let verdict = (case si_kind (se_info svc) of
         Ssh \<Rightarrow> and_then (pr_connect probe) (\<lambda>_. check_ssh_stream (pr_banner probe))
       | Nginx \<Rightarrow> and_then (pr_connect probe) (\<lambda>_. check_tls_stream (pr_handshake probe) (pr_chunks probe))
       | Xray _ \<Rightarrow> check_xray (se_info svc) m (pr_xray probe))
      in case verdict of Inr _ \<Rightarrow> Inr svc | Inl _ \<Rightarrow> Inl svc)"

section \<open>Properties\<close>

text \<open>
  The verdict on an Xray inbound counts the matching answers only up to the first address
  service that fails: it is positive exactly when, among the answers that arrive before the first
  failed request, at least two are the server's address. A request that fails first condemns the
  inbound although every other service confirms it.
\<close>

lemma ip_verdict_stops_at_error:
  "ip_loop ip 0 answers \<longleftrightarrow>
     2 \<le> length (filter (\<lambda>a. trim_ws (str_chars (the a)) = map of_char ip) (takeWhile (\<lambda>a. a \<noteq> None) answers))"
proof -
  let ?n = "\<lambda>as. length (filter (\<lambda>a. trim_ws (str_chars (the a)) = map of_char ip) (takeWhile (\<lambda>a. a \<noteq> None) as))"
  have "m < 2 \<Longrightarrow> ip_loop ip m as \<longleftrightarrow> 2 \<le> m + ?n as" for m as
    by (induction ip m as rule: ip_loop.induct) (auto simp: required_matches_def Suc_le_eq)
  from this [of 0 answers] show ?thesis by simp
qed

lemma check_super_xray_iff:
  "check_super_xray info m = Inr u \<longleftrightarrow>
     (\<forall>(k, a) \<in> set m. \<forall>svc. k = XrayMonitor svc \<longrightarrow> key_kind svc \<noteq> si_kind info \<longrightarrow>
        key_server svc = srv_name (si_server info) \<longrightarrow> da_health a = HOk)"
  unfolding check_super_xray_def
proof (induction m)
  case (Cons x m)
  obtain k a where x: "x = (k, a)" by fastforce
  show ?case using Cons by (cases k) (auto simp: x)
qed simp

text \<open>
  Nginx counts as healthy exactly when the status line of the answer reports success and the
  answer carries the verification header of the origin, in any letter case: a success page
  without it, such as a cached copy or another host, does not.
\<close>

lemma response_accepted_iff:
  "check_response buf = Inr () \<longleftrightarrow>
     (\<exists>line. before CR_LF buf = Some line \<and> contains ''200 OK'' line)
     \<and> contains ''x-health-verify: my-origin-server'' (lower_ascii buf)"
  by (auto simp: check_response_def split: option.splits if_splits)

text \<open>The reading loop keeps at most the limit and one chunk.\<close>

lemma read_headers_bound:
  assumes "read_headers chunks buf = Inr res" "\<forall>c \<in> set chunks. \<forall>t. c = Inr t \<longrightarrow> length t \<le> 512"
    and "length buf \<le> 16 * 1024 + 512"
  shows "length res \<le> 16 * 1024 + 512"
  using assms
proof (induction chunks buf rule: read_headers.induct)
  case (2 chunk chunks buf)
  show ?case
  proof (cases chunk)
    case (Inr tmp)
    then show ?thesis using 2 by (auto split: if_splits)
  qed (use 2 in \<open>auto split: if_splits\<close>)
qed (auto split: if_splits)

lemma json_get_set: "json_get k j = Some x \<Longrightarrow> json_get k (json_set k v j) = Some v"
proof (cases j)
  case (JObj fs)
  assume "json_get k j = Some x"
  then have "map_of fs k = Some x" by (simp add: JObj json_get_def)
  then have "map_of (map (\<lambda>(k', x). (k', if k' = k then v else x)) fs) k = Some v"
    by (induction fs) auto
  then show ?thesis by (simp add: JObj json_get_def json_set_def)
qed (simp_all add: json_get_def)

text \<open>The proxy port of a rewritten configuration is the port reserved for the service.\<close>

lemma rewrite_entry_socks:
  assumes "json_get ''protocol'' e = Some (JStr p)" "p = ''socks'' \<or> p = ''mixed''" "json_get ''port'' e = Some x"
  shows "json_get ''port'' (rewrite_entry np e) = Some (JNum (ucast np))"
  using assms by (auto simp: rewrite_entry_def Let_def json_get_set)

end
