(* ===== verification/Svc_Report.thy ===== *)
theory Svc_Report
  imports Service_Check Samples
begin

text \<open>
  How a failed check is reported: \<open>SvcError\<close> of \<^verbatim>\<open>src/types.rs\<close> with its text, its log entry in
  \<^verbatim>\<open>src/cloud/service.rs\<close>, and the connections the checks are made over. Printing a time stamp is a
  parameter; it fails beyond the range of the calendar library.
\<close>

section \<open>The error of a check\<close>

record SvcError =
  er_service :: SvcEntry
  er_msg :: string

definition find_inbound :: "SvcInfo \<Rightarrow> string \<Rightarrow> Inbound option" where
  "find_inbound info nm = find (\<lambda>i. inb_name i = nm) (srv_inbounds (si_server info))"

text \<open>The address a report names: the port of an inbound is its public one, not that of its local proxy.\<close>

definition svc_endpoint :: "SvcInfo \<Rightarrow> string option" where
  "svc_endpoint info =
     (let s = si_server info in
      case si_kind info of
        Ssh \<Rightarrow> Some (show_ip (srv_ip s) @ '':'' @ show_u16 (si_port info))
      | Nginx \<Rightarrow> Some (uihostname s @ '':'' @ show_u16 (si_port info))
      | Xray nm \<Rightarrow> map_option (\<lambda>i. subhostname s @ '':'' @ show_u16 (inb_port i)) (find_inbound info nm))"

definition cross_mark :: string where
  "cross_mark = map char_of [226, 157, 140 :: nat]"

definition svc_error_text :: "(u64 \<Rightarrow> string option) \<Rightarrow> SvcError \<Rightarrow> string" where
  "svc_error_text show_time err =
     (let svc = er_service err; info = se_info svc in
      case show_time (failed_since (se_status svc)) of
        None \<Rightarrow> ''Couldn't convert failed_since to a human-readable format.''
      | Some since \<Rightarrow>
          (case svc_endpoint info of
             None \<Rightarrow> ''The inbound can't be found in the server.''
           | Some endpoint \<Rightarrow>
               cross_mark @ ''[ Monitoring ][ '' @ svc_nice_display (si_kind info) @ '' ][ '' @ srv_name (si_server info)
               @ '' ] ('' @ endpoint @ '') has failed '' @ show_u64 (failed_count (se_status svc)) @ '' times since ''
               @ since @ ''. Error: '' @ er_msg err))"

datatype LogEntry =
    LogFailure string string u64 string string "string option"
  | LogNoInbound string
  | LogNoTime

fun failure_word :: "SvcKind \<Rightarrow> string" where
  "failure_word Ssh = ''unconnectable''"
| "failure_word Nginx = ''unreachable''"
| "failure_word (Xray _) = ''unhealthy''"

text \<open>Endpoint, time, count, error, message, and the extra information if there is any.\<close>

definition log_error :: "SvcError \<Rightarrow> string \<Rightarrow> string \<Rightarrow> string \<Rightarrow> string \<Rightarrow> LogEntry" where
  "log_error err endpoint since extra msg =
     LogFailure endpoint since (failed_count (se_status (er_service err))) (er_msg err) msg
       (if extra = [] then None else Some extra)"

definition print_error :: "(u64 \<Rightarrow> string option) \<Rightarrow> SvcError \<Rightarrow> string \<Rightarrow> LogEntry" where
  "print_error show_time err extra =
     (let info = se_info (er_service err) in
      case show_time (failed_since (se_status (er_service err))) of
        None \<Rightarrow> LogNoTime
      | Some since \<Rightarrow>
          (case si_kind info of
             Xray nm \<Rightarrow> (case svc_endpoint info of
                           None \<Rightarrow> LogNoInbound nm
                         | Some endpoint \<Rightarrow> log_error err endpoint since extra (failure_word (Xray nm)))
           | k \<Rightarrow> log_error err (the (svc_endpoint info)) since extra (failure_word k)))"

section \<open>Connections\<close>

text \<open>
  Directly, or through a proxy if one is given: \<open>dial\<close> connects to an address, \<open>socks\<close> to an
  address through a proxy, both within the time limit.
\<close>

definition create_tcp_stream ::
  "(string \<Rightarrow> 's res) \<Rightarrow> (string \<Rightarrow> string \<Rightarrow> 's res) \<Rightarrow> string \<Rightarrow> u16 \<Rightarrow> string option \<Rightarrow> 's res" where
  "create_tcp_stream dial socks addr port proxy =
     (case proxy of
        Some p \<Rightarrow> socks p (addr @ '':'' @ show_u16 port)
      | None \<Rightarrow> dial (addr @ '':'' @ show_u16 port))"

definition test_ssh_conn :: "(string \<Rightarrow> string res) \<Rightarrow> (string \<Rightarrow> string \<Rightarrow> string res) \<Rightarrow> string \<Rightarrow> u16 \<Rightarrow> unit res" where
  "test_ssh_conn dial socks ip port =
     and_then (create_tcp_stream dial socks ip port None) (\<lambda>banner. check_ssh_stream (Inr banner))"

section \<open>Properties\<close>

lemma endpoint_None: "svc_endpoint info = None \<longleftrightarrow>
    (\<exists>nm. si_kind info = Xray nm \<and> nm \<notin> inb_name ` set (srv_inbounds (si_server info)))"
  by (auto simp: svc_endpoint_def find_inbound_def Let_def find_key_None split: SvcKind.splits)

text \<open>
  A report of a service of the server always names an address: its text and its log entry have the same
  endpoint, and they are given up only when the time stamp cannot be shown.
\<close>

lemma report_names_endpoint:
  assumes "si_kind (se_info (er_service err)) \<in> {Ssh, Nginx} \<union> (Xray \<circ> inb_name) ` set (srv_inbounds (si_server (se_info (er_service err))))"
    and "show_time (failed_since (se_status (er_service err))) = Some since"
  shows "\<exists>endpoint. svc_endpoint (se_info (er_service err)) = Some endpoint
    \<and> print_error show_time err extra = log_error err endpoint since extra (failure_word (si_kind (se_info (er_service err))))
    \<and> (\<exists>pre post. svc_error_text show_time err = pre @ endpoint @ post)"
proof -
  obtain endpoint where e: "svc_endpoint (se_info (er_service err)) = Some endpoint"
    using assms(1) endpoint_None by (cases "svc_endpoint (se_info (er_service err))") auto
  moreover have "print_error show_time err extra = log_error err endpoint since extra (failure_word (si_kind (se_info (er_service err))))"
    using e assms(2) by (simp add: print_error_def Let_def split: SvcKind.split)
  moreover have "\<exists>pre post. svc_error_text show_time err = pre @ endpoint @ post"
    unfolding svc_error_text_def Let_def e assms(2) option.case
    by (metis append_assoc)
  ultimately show ?thesis by blast
qed

end
