(* ===== verification/Xui_Metrics.thy ===== *)
theory Xui_Metrics
  imports Xui_Api
begin

text \<open>
  The status of a server as its panel reports it: the rest of \<^verbatim>\<open>src/xui/types.rs\<close> and the calls of
  \<^verbatim>\<open>src/xui/api.rs\<close> that read it. The program never computes with the floating-point numbers of a
  report, so their type is a parameter.
\<close>

record Memory =
  mem_current :: u64
  mem_total :: u64

record Disk =
  dsk_current :: u64
  dsk_total :: u64

record XrayStatus =
  xs_state :: string
  xs_error_msg :: string
  xs_version :: string

record NetIO =
  nio_up :: u64
  nio_down :: u64

record NetTraffic =
  ntr_sent :: u64
  ntr_recv :: u64

record PublicIP =
  pip_ipv4 :: string
  pip_ipv6 :: string

record AppStats =
  app_threads :: u32
  app_mem :: u64
  app_uptime :: u64

record 'f ServerMetrics =
  smx_cpu :: 'f
  smx_cpu_cores :: u32
  smx_logical_pro :: u32
  smx_cpu_speed_mhz :: 'f
  smx_mem :: Memory
  smx_swap :: Memory
  smx_disk :: Disk
  smx_xray :: XrayStatus
  smx_uptime :: u64
  smx_loads :: "'f list"
  smx_tcp_count :: u32
  smx_udp_count :: u32
  smx_net_io :: NetIO
  smx_net_traffic :: NetTraffic
  smx_public_ip :: PublicIP
  smx_app_stats :: AppStats

datatype AuthMethod = TokenAuth | CookieAuth

text \<open>
  A call by either method; \<open>cookie\<close> is what a call of the login protocol ends with. The cookie is only
  kept as a fallback, no call of the program asks for it.
\<close>

definition xui_get_call ::
  "(string \<Rightarrow> (KetServer, BoxError, string) call) \<Rightarrow> PanelEnv \<Rightarrow> string \<Rightarrow> AuthMethod \<Rightarrow> (KetServer, BoxError, string) call" where
  "xui_get_call cookie env suburl method =
     (case method of CookieAuth \<Rightarrow> cookie suburl | TokenAuth \<Rightarrow> xui_get_call_token env suburl)"

definition xui_call_metrics ::
  "(string \<Rightarrow> 'f ServerMetrics ApiResponse res) \<Rightarrow> PanelEnv \<Rightarrow> (KetServer, BoxError, 'f ServerMetrics ApiResponse) call" where
  "xui_call_metrics decode env =
     via (xui_get_call_token env ''panel/api/server/status'') (\<lambda>body. pure (decode body))"

definition test_xui_api :: "(string \<Rightarrow> 'f ServerMetrics ApiResponse res) \<Rightarrow> PanelEnv \<Rightarrow> (KetServer, BoxError, unit) call" where
  "test_xui_api decode env =
     via (xui_call_metrics decode env) (\<lambda>_. via (xui_call_inbounds env) (\<lambda>_. pure (Inr ())))"

text \<open>A call with the token fills the cell of the server at most once, and changes nothing else of it.\<close>

definition client_filled :: "PanelEnv \<Rightarrow> KetServer \<Rightarrow> KetServer \<Rightarrow> bool" where
  "client_filled env s t \<longleftrightarrow> t = s \<or> srv_xui s = None \<and> new_xui_client env s = Inr t"

lemma new_xui_client_filled: "new_xui_client env s = Inr t \<Longrightarrow> srv_xui t \<noteq> None"
  by (auto simp: new_xui_client_def)

lemma token_call_fills: "xui_get_call_token env suburl s = (r, t) \<Longrightarrow> client_filled env s t"
  by (auto simp: xui_get_call_token_def client_filled_def split: option.splits sum.splits)

lemma client_filled_trans: "client_filled env s t \<Longrightarrow> client_filled env t u \<Longrightarrow> client_filled env s u"
  by (auto simp: client_filled_def dest: new_xui_client_filled)

lemma call_then_decode_fills:
  "via (xui_get_call_token env suburl) (\<lambda>body. pure (f body)) s = (r, t) \<Longrightarrow> client_filled env s t"
  by (cases "xui_get_call_token env suburl s"; cases "fst (xui_get_call_token env suburl s)")
    (auto dest: token_call_fills)

lemma test_xui_api_fills:
  assumes "test_xui_api decode env s = (r, t)"
  shows "client_filled env s t"
proof -
  obtain q u where metrics: "xui_call_metrics decode env s = (q, u)" by force
  obtain q' v where inbounds: "xui_call_inbounds env u = (q', v)" by force
  have "client_filled env s u" "client_filled env u v"
    using metrics inbounds call_then_decode_fills unfolding xui_call_metrics_def xui_call_inbounds_def by blast+
  then show ?thesis
    using assms metrics inbounds client_filled_trans
    by (cases q; cases q') (auto simp: test_xui_api_def)
qed

end
