(* ===== verification/Single_Instance.thy ===== *)
theory Single_Instance
  imports Prelude
begin

text \<open>
  The lock of the daemon: \<open>is_unique\<close>, \<open>create_pid_file\<close>, \<open>create_socket\<close> and \<open>cleanup\<close> of
  \<^verbatim>\<open>src/daemon.rs\<close>, called by \<open>acquire_lock\<close> of \<^verbatim>\<open>src/daemon/startup.rs\<close>.

  Processes that start at the same time share two files, so this is a machine. One step is one
  system call: a test for a file, reading it, the signal to a process, a connection, a removal, the
  binding of the socket, which creates its file, and the listening on it, which comes after and
  from which on a connection is accepted. The PID file is written under another name and renamed, which is
  one step here; starters that do so at the same time write to one temporary file, so that one of them
  can leave anything in the PID file of another (\<open>pid_mixed\<close>, which allows it more often than it can
  happen). A process can be killed at any time; a daemon that shuts down while others start is left out,
  and so is a listener whose queue is full.

  The PID file is absent, not a number, or holds a number, which may be that of a process outside
  the protocol (\<open>lk_others\<close>: all numbers that answer a signal besides the starting daemons). The socket
  file is absent, left over, or bound by a process, which may have died since.
\<close>

datatype LockPc =
    NotYet | Started | ReadPid | Ping "int option" | DropPid | LookSock | Connecting | DropSock | PutPid
  | Binding | Bound | Holding | Gone

record LockState =
  lk_pid :: "int option option"
  lk_sock :: "nat option option"
  lk_pc :: "nat \<Rightarrow> LockPc"
  lk_others :: "int set"

definition pid_alive :: "LockState \<Rightarrow> nat \<Rightarrow> bool" where
  "pid_alive s q \<longleftrightarrow> lk_pc s q \<notin> {NotYet, Gone}"

text \<open>\<open>nixkill(pid, None).is_ok()\<close> for a number in the file\<close>

definition pid_answers :: "LockState \<Rightarrow> int option \<Rightarrow> bool" where
  "pid_answers s content =
     (case content of None \<Rightarrow> False | Some n \<Rightarrow> n \<in> lk_others s \<or> 0 \<le> n \<and> pid_alive s (nat n))"

text \<open>\<open>UnixStream::connect(..).is_ok()\<close>: somebody listens at the socket\<close>

definition sock_answers :: "LockState \<Rightarrow> nat option \<Rightarrow> bool" where
  "sock_answers s owner = (case owner of None \<Rightarrow> False | Some q \<Rightarrow> lk_pc s q = Holding)"

definition connects :: "LockState \<Rightarrow> bool" where
  "connects s = (case lk_sock s of None \<Rightarrow> False | Some owner \<Rightarrow> sock_answers s owner)"

definition moves :: "nat \<Rightarrow> LockPc \<Rightarrow> LockState \<Rightarrow> LockState" where
  "moves p pc s = s\<lparr>lk_pc := (lk_pc s)(p := pc)\<rparr>"

inductive lock_step :: "LockState \<Rightarrow> LockState \<Rightarrow> bool" where
  start: "lk_pc s p = NotYet \<Longrightarrow> lock_step s (moves p Started s)"
| no_pid: "lk_pc s p = Started \<Longrightarrow> lk_pid s = None \<Longrightarrow> lock_step s (moves p LookSock s)"
| has_pid: "lk_pc s p = Started \<Longrightarrow> lk_pid s \<noteq> None \<Longrightarrow> lock_step s (moves p ReadPid s)"
| read_pid: "lk_pc s p = ReadPid \<Longrightarrow> lk_pid s = Some c \<Longrightarrow> lock_step s (moves p (Ping c) s)"
| read_fails: "lk_pc s p = ReadPid \<Longrightarrow> lk_pid s = None \<Longrightarrow> lock_step s (moves p Gone s)"
| live_pid: "lk_pc s p = Ping c \<Longrightarrow> pid_answers s c \<Longrightarrow> lock_step s (moves p Gone s)"
| stale_pid: "lk_pc s p = Ping c \<Longrightarrow> \<not> pid_answers s c \<Longrightarrow> lock_step s (moves p DropPid s)"
| drop_pid: "lk_pc s p = DropPid \<Longrightarrow> lk_pid s \<noteq> None \<Longrightarrow> lock_step s (moves p LookSock (s\<lparr>lk_pid := None\<rparr>))"
| drop_pid_fails: "lk_pc s p = DropPid \<Longrightarrow> lk_pid s = None \<Longrightarrow> lock_step s (moves p Gone s)"
| no_sock: "lk_pc s p = LookSock \<Longrightarrow> lk_sock s = None \<Longrightarrow> lock_step s (moves p PutPid s)"
| has_sock: "lk_pc s p = LookSock \<Longrightarrow> lk_sock s \<noteq> None \<Longrightarrow> lock_step s (moves p Connecting s)"
| live_sock: "lk_pc s p = Connecting \<Longrightarrow> connects s \<Longrightarrow> lock_step s (moves p Gone s)"
| stale_sock: "lk_pc s p = Connecting \<Longrightarrow> \<not> connects s \<Longrightarrow> lock_step s (moves p DropSock s)"
| drop_sock: "lk_pc s p = DropSock \<Longrightarrow> lk_sock s \<noteq> None \<Longrightarrow> lock_step s (moves p PutPid (s\<lparr>lk_sock := None\<rparr>))"
| drop_sock_fails: "lk_pc s p = DropSock \<Longrightarrow> lk_sock s = None \<Longrightarrow> lock_step s (moves p Gone s)"
| put_pid: "lk_pc s p = PutPid \<Longrightarrow> lock_step s (moves p Binding (s\<lparr>lk_pid := Some (Some (int p))\<rparr>))"
| pid_mixed: "lk_pc s p = PutPid \<Longrightarrow> lk_pid s \<noteq> None \<Longrightarrow> lock_step s (s\<lparr>lk_pid := Some c\<rparr>)"
| bind: "lk_pc s p = Binding \<Longrightarrow> lk_sock s = None \<Longrightarrow> lock_step s (moves p Bound (s\<lparr>lk_sock := Some (Some p)\<rparr>))"
| bind_fails: "lk_pc s p = Binding \<Longrightarrow> lk_sock s \<noteq> None \<Longrightarrow> lock_step s (moves p Gone s)"
| listen: "lk_pc s p = Bound \<Longrightarrow> lock_step s (moves p Holding s)"
| killed: "lk_pc s p \<notin> {NotYet, Gone} \<Longrightarrow> lock_step s (moves p Gone s)"

definition lock_start :: "int option option \<Rightarrow> nat option option \<Rightarrow> LockState" where
  "lock_start pid sock = \<lparr>lk_pid = pid, lk_sock = sock, lk_pc = \<lambda>_. NotYet, lk_others = {}\<rparr>"

text \<open>\<open>cleanup\<close>, after the loop of \<open>daemonize\<close>\<close>

definition cleanup :: "LockState \<Rightarrow> (string + unit) \<times> LockState" where
  "cleanup s =
     (if lk_pid s = None then (Inl ''No such file or directory'', s)
      else if lk_sock s = None then (Inl ''No such file or directory'', s\<lparr>lk_pid := None\<rparr>)
      else (Inr (), s\<lparr>lk_pid := None, lk_sock := None\<rparr>))"

section \<open>What the lock excludes\<close>

text \<open>
  As long as no starter has been refused by a socket file: nobody is about to remove the file, it is there
  for everyone who found it, and only its owner can be past the bind.
\<close>

definition exclusive :: "bool \<Rightarrow> LockState \<Rightarrow> bool" where
  "exclusive stale s \<longleftrightarrow> (\<forall>p. lk_pc s p \<noteq> DropSock) \<and> (\<forall>p. lk_pc s p = Connecting \<longrightarrow> lk_sock s \<noteq> None)
     \<and> (\<forall>p. lk_pc s p \<in> {Bound, Holding} \<longrightarrow> lk_sock s = Some (Some p))
     \<and> (\<forall>v. lk_sock s = Some (Some v) \<longrightarrow> lk_pc s v \<in> {Bound, Holding, Gone}) \<and> (lk_sock s = Some None \<longrightarrow> stale)"

text \<open>A starter finds the socket file and is refused: it is left over, or its owner died or does not listen yet.\<close>

definition refused :: "bool \<Rightarrow> LockState \<Rightarrow> LockState \<Rightarrow> bool" where
  "refused stale s t \<longleftrightarrow> (\<exists>r owner. lk_pc s r = Connecting \<and> lk_pc t r = DropSock \<and> lk_sock s = Some owner
     \<and> (case owner of None \<Rightarrow> stale | Some v \<Rightarrow> lk_pc s v \<in> {Bound, Gone}))"

lemma exclusive_moves:
  assumes "exclusive stale s" "pc \<notin> {DropSock, Connecting, Bound, Holding}"
    "lk_pc s p \<in> {Bound, Holding, Gone} \<longrightarrow> pc = Gone"
  shows "exclusive stale (moves p pc s)"
proof -
  have "lk_sock s \<noteq> Some (Some p) \<or> pc = Gone"
    using assms(1,3) unfolding exclusive_def by blast
  then show ?thesis using assms by (auto simp: exclusive_def moves_def)
qed

lemma exclusive_pid [simp]: "exclusive stale (s\<lparr>lk_pid := x\<rparr>) = exclusive stale s"
  by (simp add: exclusive_def)

lemma exclusive_step:
  assumes "lock_step s t" "exclusive stale s"
  shows "exclusive stale t \<or> refused stale s t"
  using assms
proof cases
  case (has_sock p)
  then show ?thesis using assms(2) by (auto simp: exclusive_def moves_def)
next
  case (stale_sock p)
  obtain owner where owner: "lk_sock s = Some owner" using assms(2) stale_sock(2) by (auto simp: exclusive_def)
  have "case owner of None \<Rightarrow> stale | Some v \<Rightarrow> lk_pc s v \<in> {Bound, Gone}"
    using assms(2) stale_sock(3) owner
    by (cases owner) (auto simp: exclusive_def connects_def sock_answers_def)
  then have "refused stale s t"
    unfolding refused_def using owner stale_sock by (intro exI [of _ p] exI [of _ owner]) (simp add: moves_def)
  then show ?thesis ..
next
  case (drop_sock p)
  then show ?thesis using assms(2) by (simp add: exclusive_def)
next
  case (bind p)
  then show ?thesis using assms(2) by (auto simp: exclusive_def moves_def)
next
  case (listen p)
  then have own: "lk_sock s = Some (Some p)" using assms(2) by (simp add: exclusive_def)
  then have "lk_pc s q \<notin> {Bound, Holding}" if "q \<noteq> p" for q
    using assms(2) that own by (auto simp: exclusive_def)
  moreover have "lk_pc s q \<noteq> DropSock" for q using assms(2) by (simp add: exclusive_def)
  ultimately have "exclusive stale t"
    unfolding listen(1) exclusive_def moves_def using own by (auto split: if_splits)
  then show ?thesis ..
qed (use assms(2) in \<open>auto intro!: exclusive_moves\<close>)

lemma exclusive_run:
  assumes "lock_step\<^sup>*\<^sup>* s0 s" "exclusive stale s0"
  shows "exclusive stale s
    \<or> (\<exists>t u. lock_step\<^sup>*\<^sup>* s0 t \<and> lock_step t u \<and> lock_step\<^sup>*\<^sup>* u s \<and> refused stale t u)"
  using assms
proof (induction rule: rtranclp_induct)
  case (step s t)
  from step.IH [OF step.prems] show ?case
  proof
    assume "exclusive stale s"
    with exclusive_step [OF step.hyps(2)] step.hyps show ?thesis by blast
  next
    assume "\<exists>t u. lock_step\<^sup>*\<^sup>* s0 t \<and> lock_step t u \<and> lock_step\<^sup>*\<^sup>* u s \<and> refused stale t u"
    with step.hyps(2) show ?thesis by (meson rtranclp.rtrancl_into_rtrancl)
  qed
qed simp

text \<open>
  C26. Two daemons get past the lock only if a starter was misled about the socket: whatever files are left
  over, however many daemons start at the same time, are killed, and in whatever order their steps interleave,
  before two of them hold the lock some starter found the socket file and was refused at it, and the file
  was then one left over from before, or that of a daemon which had died, or that of one which had bound it
  but did not listen yet.
\<close>

theorem single_instance:
  assumes "lock_step\<^sup>*\<^sup>* (lock_start pid (if stale then Some None else None)\<lparr>lk_others := others\<rparr>) s"
    and "lk_pc s p = Holding" "lk_pc s q = Holding" "p \<noteq> q"
  shows "\<exists>t u r owner. lock_step\<^sup>*\<^sup>* (lock_start pid (if stale then Some None else None)\<lparr>lk_others := others\<rparr>) t
    \<and> lock_step t u \<and> lock_step\<^sup>*\<^sup>* u s
    \<and> lk_pc t r = Connecting \<and> lk_pc u r = DropSock \<and> lk_sock t = Some owner
    \<and> (case owner of None \<Rightarrow> stale | Some v \<Rightarrow> lk_pc t v \<in> {Bound, Gone})"
proof -
  have "exclusive stale (lock_start pid (if stale then Some None else None)\<lparr>lk_others := others\<rparr>)"
    by (simp add: exclusive_def lock_start_def)
  from exclusive_run [OF assms(1) this] have "exclusive stale s
    \<or> (\<exists>t u. lock_step\<^sup>*\<^sup>* (lock_start pid (if stale then Some None else None)\<lparr>lk_others := others\<rparr>) t
        \<and> lock_step t u \<and> lock_step\<^sup>*\<^sup>* u s \<and> refused stale t u)" .
  moreover have "\<not> exclusive stale s"
    using assms(2-4) unfolding exclusive_def by (metis insertI1 insertI2 option.inject)
  ultimately show ?thesis unfolding refused_def by blast
qed

text \<open>A daemon that listens, and that nobody disturbs, excludes every later one for as long as it is not killed.\<close>

definition held_by :: "nat \<Rightarrow> LockState \<Rightarrow> bool" where
  "held_by p s \<longleftrightarrow> lk_pc s p = Gone \<or> (lk_pc s p = Holding \<and> lk_sock s = Some (Some p)
     \<and> (\<forall>q. q \<noteq> p \<longrightarrow> lk_pc s q \<notin> {DropSock, PutPid, Binding, Bound, Holding}))"

lemma held_by_step:
  assumes "lock_step s t" "held_by p s"
  shows "held_by p t"
  using assms
proof cases
  case (start q)
  then show ?thesis using assms(2) by (cases "q = p") (auto simp: held_by_def moves_def)
next
  case (killed q)
  then show ?thesis using assms(2) by (cases "q = p") (auto simp: held_by_def moves_def)
next
  case (stale_sock q)
  then show ?thesis using assms(2) by (auto simp: held_by_def moves_def connects_def sock_answers_def)
qed (use assms(2) in \<open>auto simp: held_by_def moves_def split: if_splits\<close>)

interpretation held: relation_system lock_step "held_by p" for p
  by unfold_locales (rule held_by_step)

lemma listening_excludes:
  assumes "lk_pc s p = Holding" "lk_sock s = Some (Some p)" "\<forall>q. q \<noteq> p \<longrightarrow> lk_pc s q \<in> {NotYet, Gone}"
    and "lock_step\<^sup>*\<^sup>* s t" "lk_pc t p \<noteq> Gone" "lk_pc t q = Holding"
  shows "q = p"
proof -
  have "held_by p s" using assms(1-3) by (auto simp: held_by_def)
  from held.reachable_inv [OF assms(4) this] assms(5,6) show ?thesis by (auto simp: held_by_def)
qed

section \<open>Two daemons\<close>

lemma run_step: "lock_step\<^sup>*\<^sup>* s t \<Longrightarrow> lock_step t u \<Longrightarrow> lock_step\<^sup>*\<^sup>* s u"
  by (rule rtranclp.rtrancl_into_rtrancl)

lemmas lock_simps = lock_start_def moves_def connects_def sock_answers_def pid_answers_def pid_alive_def

text \<open>One starter that finds no files, up to the binding of the socket.\<close>

lemma clean_bind:
  assumes "lk_pc s p = NotYet" "lk_pid s = None" "lk_sock s = None"
  shows "lock_step\<^sup>*\<^sup>* s (moves p Bound (s\<lparr>lk_pid := Some (Some (int p)), lk_sock := Some (Some p)\<rparr>))"
proof -
  let ?s1 = "moves p Started s"
  let ?s2 = "moves p LookSock s"
  let ?s3 = "moves p PutPid s"
  let ?s4 = "moves p Binding (s\<lparr>lk_pid := Some (Some (int p))\<rparr>)"
  have "lock_step s ?s1" by (rule lock_step.start) (rule assms)
  moreover have "lock_step ?s1 ?s2"
    using lock_step.no_pid [of ?s1 p] assms(2) by (simp add: moves_def)
  moreover have "lock_step ?s2 ?s3"
    using lock_step.no_sock [of ?s2 p] assms(3) by (simp add: moves_def)
  moreover have "lock_step ?s3 ?s4"
    using lock_step.put_pid [of ?s3 p] by (simp add: moves_def)
  moreover have "lock_step ?s4 (moves p Bound (s\<lparr>lk_pid := Some (Some (int p)), lk_sock := Some (Some p)\<rparr>))"
    using lock_step.bind [of ?s4 p] assms(3) by (simp add: moves_def)
  ultimately show ?thesis by (meson run_step rtranclp.rtrancl_refl)
qed

text \<open>One starter that finds only a socket file, up to the removal of the file.\<close>

lemma finds_stale:
  assumes "lk_pc s p = NotYet" "lk_pid s = None" "lk_sock s \<noteq> None" "\<not> connects (moves p Connecting s)"
  shows "lock_step\<^sup>*\<^sup>* s (moves p DropSock s)"
proof -
  let ?s1 = "moves p Started s"
  let ?s2 = "moves p LookSock s"
  let ?s3 = "moves p Connecting s"
  have "lock_step s ?s1" by (rule lock_step.start) (rule assms)
  moreover have "lock_step ?s1 ?s2"
    using lock_step.no_pid [of ?s1 p] assms(2) by (simp add: moves_def)
  moreover have "lock_step ?s2 ?s3"
    using lock_step.has_sock [of ?s2 p] assms(3) by (simp add: moves_def)
  moreover have "lock_step ?s3 (moves p DropSock s)"
    using lock_step.stale_sock [of ?s3 p] assms(4) by (simp add: moves_def)
  ultimately show ?thesis by (meson run_step rtranclp.rtrancl_refl)
qed

text \<open>A starter that removes the file, if it is there, and goes on to hold the lock.\<close>

lemma drop_and_hold:
  assumes "lk_pc s p = DropSock" "lk_sock s \<noteq> None"
  shows "lock_step\<^sup>*\<^sup>* s (moves p Holding (s\<lparr>lk_pid := Some (Some (int p)), lk_sock := Some (Some p)\<rparr>))"
proof -
  let ?s1 = "moves p PutPid (s\<lparr>lk_sock := None\<rparr>)"
  let ?s2 = "moves p Binding (s\<lparr>lk_pid := Some (Some (int p)), lk_sock := None\<rparr>)"
  let ?s3 = "moves p Bound (s\<lparr>lk_pid := Some (Some (int p)), lk_sock := Some (Some p)\<rparr>)"
  have "lock_step s ?s1" by (rule lock_step.drop_sock) (rule assms)+
  moreover have "lock_step ?s1 ?s2" using lock_step.put_pid [of ?s1 p] by (cases s) (simp add: moves_def)
  moreover have "lock_step ?s2 ?s3" using lock_step.bind [of ?s2 p] by (cases s) (simp add: moves_def)
  moreover have "lock_step ?s3 (moves p Holding (s\<lparr>lk_pid := Some (Some (int p)), lk_sock := Some (Some p)\<rparr>))"
    using lock_step.listen [of ?s3 p] by (cases s) (simp add: moves_def)
  ultimately show ?thesis by (meson run_step rtranclp.rtrancl_refl)
qed

text \<open>
  C40. After a crash two daemons can pass the lock together: both find the socket file left over
  before either removes it; the slower one then removes the socket that the faster one has bound.
\<close>

theorem stale_socket_race:
  "\<exists>s. lock_step\<^sup>*\<^sup>* (lock_start None (Some None)) s \<and> lk_pc s 0 = Holding \<and> lk_pc s 1 = Holding"
proof -
  let ?s0 = "lock_start None (Some None)"
  let ?s1 = "moves 0 DropSock ?s0"
  let ?s2 = "moves 1 DropSock ?s1"
  let ?s3 = "moves 0 Holding (?s2\<lparr>lk_pid := Some (Some (int 0)), lk_sock := Some (Some 0)\<rparr>)"
  let ?s4 = "moves 1 Holding (?s3\<lparr>lk_pid := Some (Some (int 1)), lk_sock := Some (Some 1)\<rparr>)"
  have "lock_step\<^sup>*\<^sup>* ?s0 ?s1" by (rule finds_stale) (simp_all add: lock_simps)
  moreover have "lock_step\<^sup>*\<^sup>* ?s1 ?s2" by (rule finds_stale) (simp_all add: lock_simps)
  moreover have "lock_step\<^sup>*\<^sup>* ?s2 ?s3" by (rule drop_and_hold) (simp_all add: lock_simps)
  moreover have "lock_step\<^sup>*\<^sup>* ?s3 ?s4" by (rule drop_and_hold) (simp_all add: lock_simps)
  ultimately have "lock_step\<^sup>*\<^sup>* ?s0 ?s4" by (meson rtranclp_trans)
  then show ?thesis by (intro exI [of _ ?s4]) (simp add: lock_simps)
qed

text \<open>
  Even from a clean state two daemons can pass the lock together: the second looks while the first
  has bound its socket but does not listen yet, takes the file for stale, and removes it. Nothing
  that the PID file says prevents it, as the second has looked for that file before it was there.
\<close>

lemma fresh_start_race:
  "\<exists>s. lock_step\<^sup>*\<^sup>* (lock_start None None) s \<and> lk_pc s 0 = Holding \<and> lk_pc s 1 = Holding"
proof -
  let ?s0 = "lock_start None None"
  let ?s1 = "moves 1 Started ?s0"
  let ?s2 = "moves 1 LookSock ?s1"
  let ?s3 = "moves 0 Bound (?s2\<lparr>lk_pid := Some (Some (int 0)), lk_sock := Some (Some 0)\<rparr>)"
  let ?s4 = "moves 1 Connecting ?s3"
  let ?s5 = "moves 1 DropSock ?s4"
  let ?s6 = "moves 1 Holding (?s5\<lparr>lk_pid := Some (Some (int 1)), lk_sock := Some (Some 1)\<rparr>)"
  let ?s7 = "moves 0 Holding ?s6"
  have "lock_step ?s0 ?s1" by (rule lock_step.start) (simp add: lock_simps)
  moreover have "lock_step ?s1 ?s2" by (rule lock_step.no_pid) (simp_all add: lock_simps)
  moreover have "lock_step\<^sup>*\<^sup>* ?s2 ?s3" by (rule clean_bind) (simp_all add: lock_simps)
  moreover have "lock_step ?s3 ?s4" by (rule lock_step.has_sock) (simp_all add: lock_simps)
  moreover have "lock_step ?s4 ?s5" by (rule lock_step.stale_sock) (simp_all add: lock_simps)
  moreover have "lock_step\<^sup>*\<^sup>* ?s5 ?s6" by (rule drop_and_hold) (simp_all add: lock_simps)
  moreover have "lock_step ?s6 ?s7" by (rule lock_step.listen) (simp add: lock_simps)
  ultimately have "lock_step\<^sup>*\<^sup>* ?s0 ?s7" by (meson run_step rtranclp_trans rtranclp.rtrancl_refl)
  then show ?thesis by (intro exI [of _ ?s7]) (simp add: lock_simps)
qed

text \<open>A crash does not lock the daemon out: alone, it recovers from left-over files and holds the lock.\<close>

lemma stale_files_recovered:
  "\<exists>s. lock_step\<^sup>*\<^sup>* (lock_start (Some (Some 7)) (Some None)) s \<and> lk_pc s 0 = Holding \<and> lk_pid s = Some (Some 0)"
proof -
  let ?s0 = "lock_start (Some (Some 7)) (Some None)"
  let ?s1 = "moves 0 Started ?s0"
  let ?s2 = "moves 0 ReadPid ?s1"
  let ?s3 = "moves 0 (Ping (Some 7)) ?s2"
  let ?s4 = "moves 0 DropPid ?s3"
  let ?s5 = "moves 0 LookSock (?s4\<lparr>lk_pid := None\<rparr>)"
  let ?s6 = "moves 0 Connecting ?s5"
  let ?s7 = "moves 0 DropSock ?s6"
  let ?s8 = "moves 0 Holding (?s7\<lparr>lk_pid := Some (Some (int 0)), lk_sock := Some (Some 0)\<rparr>)"
  have "lock_step ?s0 ?s1" by (rule lock_step.start) (simp add: lock_simps)
  moreover have "lock_step ?s1 ?s2" by (rule lock_step.has_pid) (simp_all add: lock_simps)
  moreover have "lock_step ?s2 ?s3" by (rule lock_step.read_pid) (simp_all add: lock_simps)
  moreover have "lock_step ?s3 ?s4" by (rule lock_step.stale_pid [where c = "Some 7"]) (simp_all add: lock_simps)
  moreover have "lock_step ?s4 ?s5" by (rule lock_step.drop_pid) (simp_all add: lock_simps)
  moreover have "lock_step ?s5 ?s6" by (rule lock_step.has_sock) (simp_all add: lock_simps)
  moreover have "lock_step ?s6 ?s7" by (rule lock_step.stale_sock) (simp_all add: lock_simps)
  moreover have "lock_step\<^sup>*\<^sup>* ?s7 ?s8" by (rule drop_and_hold) (simp_all add: lock_simps)
  ultimately have "lock_step\<^sup>*\<^sup>* ?s0 ?s8" by (meson run_step rtranclp_trans rtranclp.rtrancl_refl)
  then show ?thesis by (intro exI [of _ ?s8]) (simp add: lock_simps)
qed

section \<open>Concrete instances\<close>

theorem single_instance_witness:
  "\<exists>s t u r. lock_step\<^sup>*\<^sup>* (lock_start None None\<lparr>lk_others := {}\<rparr>) s \<and> lk_pc s 0 = Holding \<and> lk_pc s 1 = Holding
     \<and> lock_step t u \<and> lock_step\<^sup>*\<^sup>* u s \<and> lk_pc t r = Connecting \<and> lk_pc u r = DropSock"
proof -
  have same: "lock_start None None\<lparr>lk_others := {}\<rparr> = lock_start None (if False then Some None else None)\<lparr>lk_others := {}\<rparr>"
    by simp
  obtain s where s: "lock_step\<^sup>*\<^sup>* (lock_start None None\<lparr>lk_others := {}\<rparr>) s" "lk_pc s 0 = Holding" "lk_pc s 1 = Holding"
    using fresh_start_race by (auto simp: lock_start_def)
  from single_instance [OF s(1) [unfolded same] s(2,3)] show ?thesis using s by simp blast
qed

end
