(* ===== verification/Startup.thy ===== *)
theory Startup
  imports Nft_Rules Cloudflare_State Ansible_Actions
begin

text \<open>
  \<^verbatim>\<open>src/daemon/startup.rs\<close>: preparing and checking the working directories, the checks of the
  installed programs, and the extraction of the embedded Ansible sources.

  The file system maps a path, the list of its components below the root, to a directory or a file
  with its permission bits. What the operating system decides (the umask, which calls fail, what a
  failed write leaves behind) is the record \<open>FsEnv\<close>; the answers of programs and crates are fields of
  \<open>StartEnv\<close>. Program output is handled as the sequence of its Unicode scalar values.
\<close>

section \<open>File system\<close>

type_synonym path = "string list"

datatype Node = DirNode nat | FileNode nat string

type_synonym Fs = "path \<rightharpoonup> Node"

datatype FsOp = MakeDir | SetMode | WriteFile | ReadFile

datatype StartError =
    Io path | NoXdgDirs | NoRuntimeDir | NoStateDir | MissingFile path | BadToml path | EmptyToken path
  | NotInstalled string | NoVersion string | VersionLow string | XrayMissing | NotAccessible path
  | Catalogue catalogue_error | Boxed BoxError

record FsEnv =
  fe_dir_mode :: nat
  fe_file_mode :: nat
  fe_fault :: "FsOp \<Rightarrow> path \<Rightarrow> bool"
  fe_torn :: "path \<Rightarrow> string option"

type_synonym 'a fs_call = "(Fs, StartError, 'a) call"

fun node_mode :: "Node \<Rightarrow> nat" where
  "node_mode (DirNode m) = m"
| "node_mode (FileNode m _) = m"

fun with_mode :: "nat \<Rightarrow> Node \<Rightarrow> Node" where
  "with_mode m (DirNode _) = DirNode m"
| "with_mode m (FileNode _ txt) = FileNode m txt"

definition mode_of :: "Fs \<Rightarrow> path \<Rightarrow> nat option" where
  "mode_of fs p = map_option node_mode (fs p)"

definition make_dir :: "FsEnv \<Rightarrow> path \<Rightarrow> unit fs_call" where
  "make_dir env p fs =
     (case fs p of
        Some (DirNode _) \<Rightarrow> (Inr (), fs)
      | Some (FileNode _ _) \<Rightarrow> (Inl (Io p), fs)
      | None \<Rightarrow> if fe_fault env MakeDir p then (Inl (Io p), fs) else (Inr (), fs(p \<mapsto> DirNode (fe_dir_mode env))))"

text \<open>\<open>fs::create_dir_all\<close>: every missing directory on the way, from the top.\<close>

definition create_dir_all :: "FsEnv \<Rightarrow> path \<Rightarrow> unit fs_call" where
  "create_dir_all env p = via_each (\<lambda>_. make_dir env) () (map (\<lambda>n. take (Suc n) p) [0..<length p])"

definition set_permissions :: "FsEnv \<Rightarrow> path \<Rightarrow> nat \<Rightarrow> unit fs_call" where
  "set_permissions env p m fs =
     (case fs p of
        None \<Rightarrow> (Inl (Io p), fs)
      | Some node \<Rightarrow> if fe_fault env SetMode p then (Inl (Io p), fs) else (Inr (), fs(p \<mapsto> with_mode m node)))"

definition parent_is_dir :: "Fs \<Rightarrow> path \<Rightarrow> bool" where
  "parent_is_dir fs p \<longleftrightarrow> butlast p = [] \<or> (\<exists>m. fs (butlast p) = Some (DirNode m))"

text \<open>\<open>fs::write\<close> creates or truncates the file and then writes; a write that fails leaves a part behind.\<close>

definition write_text :: "FsEnv \<Rightarrow> path \<Rightarrow> string \<Rightarrow> unit fs_call" where
  "write_text env p txt fs =
     (let put = (\<lambda>m. case fe_torn env p of
                       None \<Rightarrow> (Inr (), fs(p \<mapsto> FileNode m txt))
                     | Some part \<Rightarrow> (Inl (Io p), fs(p \<mapsto> FileNode m part))) in
      if fe_fault env WriteFile p \<or> \<not> parent_is_dir fs p then (Inl (Io p), fs)
      else case fs p of
             None \<Rightarrow> put (fe_file_mode env)
           | Some (FileNode m _) \<Rightarrow> put m
           | Some (DirNode _) \<Rightarrow> (Inl (Io p), fs))"

definition read_text :: "FsEnv \<Rightarrow> path \<Rightarrow> string fs_call" where
  "read_text env p fs =
     (case fs p of
        Some (FileNode _ txt) \<Rightarrow> (if fe_fault env ReadFile p then Inl (Io p) else Inr txt, fs)
      | _ \<Rightarrow> (Inl (Io p), fs))"

section \<open>Working directories\<close>

record DaemonDirs =
  config_dir :: path
  data_dir :: path
  cache_dir :: path
  runtime_dir :: path
  state_dir :: path

record XdgDirs =
  xdg_config :: path
  xdg_data :: path
  xdg_cache :: path
  xdg_runtime :: "path option"
  xdg_state :: "path option"

record WorkSpace =
  ws_dirs :: DaemonDirs
  ws_pid_file :: path
  ws_sock_file :: path

definition CLOUD_CONFIG :: string where "CLOUD_CONFIG = ''cloud.toml''"
definition CLOUD_EXAMPLE_NAME :: string where "CLOUD_EXAMPLE_NAME = ''cloud-example-0.2.0.toml''"
definition CLOUD_DB :: string where "CLOUD_DB = ''cloud.db''"
definition CLOUD_BACKUP_DIR :: string where "CLOUD_BACKUP_DIR = ''Cloud-Backups''"
definition XUI_BACKUP_DIR :: string where "XUI_BACKUP_DIR = ''Xui-Backups''"
definition CF_AUTH :: string where "CF_AUTH = ''cf-auth.toml''"
definition ANSIBLE_CFG :: string where "ANSIBLE_CFG = ''ansible_min.cfg''"
definition ANSIBLE_DIR :: path where "ANSIBLE_DIR = [''Ansible-Files'', ''0.2.0'']"
definition XRAY_FILES :: "path list" where
  "XRAY_FILES = map (\<lambda>f. [''usr'', ''local'', ''bin'', f]) [''xray'', ''geoip.dat'', ''geosite.dat'']"

text \<open>The octal modes 700 and 600.\<close>

definition mode_700 :: nat where "mode_700 = 7 * 64"
definition mode_600 :: nat where "mode_600 = 6 * 64"

text \<open>
  The Semantic Versioning crate: parsing (of scalar values), the order, and \<open>Version::new(0, 0, 0)\<close>.
\<close>

record 'v SemVer =
  sv_parse :: "nat list \<Rightarrow> 'v option"
  sv_less :: "'v \<Rightarrow> 'v \<Rightarrow> bool"
  sv_zero :: 'v

datatype Embedded = EDir path "Embedded list" | EFile path string

record ('v, 'w) StartEnv =
  st_fs :: FsEnv
  st_uid :: nat
  st_xdg :: "XdgDirs option"
  st_example :: string
  st_toml_token :: "string \<Rightarrow> string option"
  st_toml_skel :: "StartError + string"
  st_client :: "string \<Rightarrow> unit res"
  st_api :: "'w CFApi"
  st_ansible :: "string option"
  st_xray :: "string option"
  st_semver :: "'v SemVer"
  st_embedded :: "Embedded list"
  st_open_db :: "path \<Rightarrow> unit fs_call"
  st_geoip :: "GeoRecord res list res"

definition choose_dirs :: "nat \<Rightarrow> XdgDirs option \<Rightarrow> StartError + DaemonDirs" where
  "choose_dirs uid xdg =
     (if uid = 0
      then Inr \<lparr>config_dir = [''etc'', ''xcplane''], data_dir = [''var'', ''lib'', ''xcplane''],
                cache_dir = [''var'', ''cache'', ''xcplane''], runtime_dir = [''run'', ''xcplane''],
                state_dir = [''var'', ''log'', ''xcplane'']\<rparr>
      else and_then (ok_or xdg NoXdgDirs) (\<lambda>x.
           and_then (ok_or (xdg_runtime x) NoRuntimeDir) (\<lambda>run.
           and_then (ok_or (xdg_state x) NoStateDir) (\<lambda>state.
           Inr \<lparr>config_dir = xdg_config x, data_dir = xdg_data x, cache_dir = xdg_cache x,
                runtime_dir = run, state_dir = state\<rparr>))))"

definition make_dirs :: "FsEnv \<Rightarrow> path list \<Rightarrow> unit fs_call" where
  "make_dirs env ps = via_each (\<lambda>_. create_dir_all env) () ps"

definition restrict_dirs :: "FsEnv \<Rightarrow> DaemonDirs \<Rightarrow> unit fs_call" where
  "restrict_dirs env d =
     via_each (\<lambda>_ p. set_permissions env p mode_700) () [config_dir d, data_dir d, state_dir d]"

text \<open>The first run makes the directories, an example and an empty token file.\<close>

definition first_run :: "('v, 'w) StartEnv \<Rightarrow> DaemonDirs \<Rightarrow> unit fs_call" where
  "first_run env d =
     (let fsv = st_fs env; auth = config_dir d @ [CF_AUTH] in
      via (make_dirs fsv [config_dir d, data_dir d, cache_dir d, runtime_dir d, state_dir d]) (\<lambda>_.
      via (restrict_dirs fsv d) (\<lambda>_.
      via (write_text fsv (config_dir d @ [CLOUD_EXAMPLE_NAME]) (st_example env)) (\<lambda>_.
      via (pure (st_toml_skel env)) (\<lambda>skel.
      via (write_text fsv auth skel) (\<lambda>_.
      set_permissions fsv auth mode_600))))))"

definition prepare_workspace :: "('v, 'w) StartEnv \<Rightarrow> WorkSpace fs_call" where
  "prepare_workspace env =
     via (pure (choose_dirs (st_uid env) (st_xdg env))) (\<lambda>d.
     via (\<lambda>fs. if fs (config_dir d) = None then first_run env d fs else (Inr (), fs)) (\<lambda>_.
     pure (Inr \<lparr>ws_dirs = d, ws_pid_file = runtime_dir d @ [''xcplane.pid''],
                ws_sock_file = runtime_dir d @ [''xcplane.sock'']\<rparr>)))"

text \<open>The token file gets its permissions if it does not have them, and must hold a token.\<close>

definition check_auth :: "('v, 'w) StartEnv \<Rightarrow> path \<Rightarrow> unit fs_call" where
  "check_auth env p =
     via (\<lambda>fs. case mode_of fs p of
                None \<Rightarrow> (Inl (Io p), fs)
              | Some m \<Rightarrow> if m mod 512 \<noteq> mode_600 then set_permissions (st_fs env) p mode_600 fs else (Inr (), fs)) (\<lambda>_.
     via (read_text (st_fs env) p) (\<lambda>txt.
     pure (and_then (ok_or (st_toml_token env txt) (BadToml p)) (\<lambda>token. ensure (token \<noteq> []) (EmptyToken p)))))"

definition check_required :: "('v, 'w) StartEnv \<Rightarrow> DaemonDirs \<Rightarrow> path \<Rightarrow> unit fs_call" where
  "check_required env d item fs =
     (if fs item = None then (Inl (MissingFile item), fs)
      else if item = config_dir d @ [CF_AUTH] then check_auth env item fs
      else (Inr (), fs))"

text \<open>The check of Ansible at the end of \<open>validate_workspace\<close> only prints: its result is dropped.\<close>

definition validate_workspace :: "('v, 'w) StartEnv \<Rightarrow> WorkSpace \<Rightarrow> unit fs_call" where
  "validate_workspace env ws =
     (let d = ws_dirs ws; others = [data_dir d, cache_dir d, runtime_dir d, state_dir d] in
      via (\<lambda>fs. if list_ex (\<lambda>p. fs p = None) others then make_dirs (st_fs env) others fs else (Inr (), fs)) (\<lambda>_.
      via (restrict_dirs (st_fs env) d) (\<lambda>_.
      via_each (\<lambda>_. check_required env d) () [config_dir d @ [CLOUD_CONFIG], config_dir d @ [CF_AUTH]])))"

section \<open>Installed programs\<close>

definition scalars :: "string \<Rightarrow> nat list" where
  "scalars s = map of_char s"

definition first_line :: "string \<Rightarrow> nat list option" where
  "first_line out = (case str_lines out of [] \<Rightarrow> None | l # _ \<Rightarrow> Some (str_chars l))"

text \<open>The text before the first occurrence of a pattern, and the text after it.\<close>

fun cut_at :: "nat list \<Rightarrow> nat list \<Rightarrow> nat list \<times> nat list option" where
  "cut_at pat [] = ([], None)"
| "cut_at pat (c # cs) =
     (if starts_with pat (c # cs) then ([], Some (drop (length pat) (c # cs)))
      else (c # fst (cut_at pat cs), snd (cut_at pat cs)))"

text \<open>\<open>split(pat).nth(1)\<close>\<close>

definition second_piece :: "nat list \<Rightarrow> nat list \<Rightarrow> nat list option" where
  "second_piece pat s = map_option (\<lambda>rest. fst (cut_at pat rest)) (snd (cut_at pat s))"

text \<open>\<open>split_whitespace\<close>\<close>

function ws_words :: "nat list \<Rightarrow> nat list list" where
  "ws_words s =
     (let t = dropWhile white_space s in
      if t = [] then []
      else takeWhile (\<lambda>c. \<not> white_space c) t # ws_words (dropWhile (\<lambda>c. \<not> white_space c) t))"
  by pat_completeness auto
termination
proof (relation "measure length")
  fix s :: "nat list" and t
  assume t: "t = dropWhile white_space s" "t \<noteq> []"
  then have "\<not> white_space (hd t)" by (simp add: hd_dropWhile)
  then have "length (dropWhile (\<lambda>c. \<not> white_space c) t) < length t"
    using t(2) by (cases t) (auto simp: le_imp_less_Suc length_dropWhile_le)
  also have "length t \<le> length s" by (simp add: t(1) length_dropWhile_le)
  finally show "(dropWhile (\<lambda>c. \<not> white_space c) t, s) \<in> measure length" by simp
qed simp

declare ws_words.simps [simp del]

text \<open>\<open>ansible [core 2.19.2]\<close>, or \<open>ansible 2.9.1\<close> of old releases.\<close>

definition core_version :: "nat list \<Rightarrow> nat list option" where
  "core_version line =
     (case second_piece (scalars ''core '') line of
        Some part \<Rightarrow> Some (trim_ws (takeWhile (\<lambda>c. c \<noteq> of_char (CHR '']'')) part))
      | None \<Rightarrow> map_option trim_ws (find (\<lambda>w. w \<noteq> [] \<and> ascii_digit (hd w)) (ws_words line)))"

definition parsed_version :: "'v SemVer \<Rightarrow> nat list \<Rightarrow> 'v" where
  "parsed_version sv v =
     (case sv_parse sv v of
        Some x \<Rightarrow> x
      | None \<Rightarrow> (case sv_parse sv (v @ scalars ''.0'') of Some x \<Rightarrow> x | None \<Rightarrow> sv_zero sv))"

definition check_version :: "'v SemVer \<Rightarrow> string \<Rightarrow> string \<Rightarrow> nat list \<Rightarrow> StartError + unit" where
  "check_version sv prog lowest v =
     and_then (ok_or (sv_parse sv (scalars lowest)) (NoVersion lowest)) (\<lambda>min_required.
     ensure (\<not> sv_less sv (parsed_version sv v) min_required) (VersionLow prog))"

definition check_ansible :: "('v, 'w) StartEnv \<Rightarrow> StartError + unit" where
  "check_ansible env =
     and_then (ok_or (st_ansible env) (NotInstalled ''ansible'')) (\<lambda>out.
     and_then (ok_or (Option.bind (first_line out) core_version) (NoVersion ''ansible'')) (\<lambda>v.
     check_version (st_semver env) ''ansible'' ''2.19.0'' v))"

definition check_xray_paths :: "('v, 'w) StartEnv \<Rightarrow> unit fs_call" where
  "check_xray_paths env fs =
     (and_then (ensure (list_all (\<lambda>p. fs p \<noteq> None) XRAY_FILES) XrayMissing) (\<lambda>_.
      and_then (try_fold (\<lambda>_ p. ensure (\<not> fe_fault (st_fs env) ReadFile p) (NotAccessible p)) () XRAY_FILES) (\<lambda>_.
      and_then (ok_or (st_xray env) (NotInstalled ''xray'')) (\<lambda>out.
      and_then (ok_or (Option.bind (first_line out) (\<lambda>l. let ws = ws_words l in if 1 < length ws then Some (trim_ws (ws ! 1)) else None))
                 (NoVersion ''xray'')) (\<lambda>v.
      check_version (st_semver env) ''xray'' ''26.0.0'' v)))), fs)"

section \<open>Embedded sources\<close>

text \<open>The paths of the entries are relative to the root of the embedded tree.\<close>

fun extract_entry :: "FsEnv \<Rightarrow> path \<Rightarrow> Embedded \<Rightarrow> unit fs_call"
  and extract_ansible :: "FsEnv \<Rightarrow> path \<Rightarrow> Embedded list \<Rightarrow> unit fs_call" where
  "extract_entry env dest (EDir p es) = via (create_dir_all env (dest @ p)) (\<lambda>_. extract_ansible env dest es)"
| "extract_entry env dest (EFile p txt) =
     via (create_dir_all env (butlast (dest @ p))) (\<lambda>_. write_text env (dest @ p) txt)"
| "extract_ansible env dest [] = pure (Inr ())"
| "extract_ansible env dest (e # es) = via (extract_entry env dest e) (\<lambda>_. extract_ansible env dest es)"

section \<open>All checks\<close>

definition path_text :: "path \<Rightarrow> string" where
  "path_text p = concat (map (\<lambda>c. CHR ''/'' # c) p)"

definition path_of :: "string \<Rightarrow> path" where
  "path_of s = filter (\<lambda>c. c \<noteq> []) (split_at (CHR ''/'') s)"

definition validate_sources :: "FsEnv \<Rightarrow> path \<Rightarrow> unit fs_call" where
  "validate_sources env dest fs =
     (case validate_actions (\<lambda>s. fs (path_of s) \<noteq> None) (\<lambda>s. \<not> fe_fault env ReadFile (path_of s))
             (path_text (dest @ [''tasks''])) of
        Inl e \<Rightarrow> (Inl (Catalogue e), fs)
      | Inr _ \<Rightarrow> (Inr (), fs))"

definition ansible_cfg_text :: string where
  "ansible_cfg_text =
     ''[defaults]'' @ nl @ ''host_key_checking = False'' @ nl @ ''retry_files_enabled = False'' @ nl
     @ ''stdout_callback = quiet_success'' @ nl @ ''callback_plugins = ./callback_plugins'' @ nl @ ''nocows = 1'' @ nl @ nl
     @ ''[ssh_connection]'' @ nl @ ''ssh_args = -o BatchMode=yes -o IdentitiesOnly=yes -o ControlMaster=auto ''
     @ ''-o ControlPersist=600s -o ConnectTimeout=10 -o ServerAliveInterval=15 -o ServerAliveCountMax=3 ''
     @ ''-o StrictHostKeyChecking=no -o UserKnownHostsFile=/dev/null''"

text \<open>What is checked needs the file system, the GeoIP database and Cloudflare.\<close>

type_synonym ('w, 'a) start_call = "(Fs \<times> Geoip option \<times> 'w, StartError, 'a) call"

definition on_fs :: "'a fs_call \<Rightarrow> ('w, 'a) start_call" where
  "on_fs f st = (let (fs, g, w) = st; (r, fs') = f fs in (r, (fs', g, w)))"

definition boxed :: "'a res \<Rightarrow> StartError + 'a" where
  "boxed r = (case r of Inl e \<Rightarrow> Inl (Boxed e) | Inr x \<Rightarrow> Inr x)"

definition backup_dirs :: "FsEnv \<Rightarrow> DaemonDirs \<Rightarrow> unit fs_call" where
  "backup_dirs env d =
     via_each (\<lambda>_ f. via (create_dir_all env (data_dir d @ [f])) (\<lambda>_. set_permissions env (data_dir d @ [f]) mode_700)) ()
       [CLOUD_BACKUP_DIR, XUI_BACKUP_DIR]"

definition extract_sources :: "('v, 'w) StartEnv \<Rightarrow> path \<Rightarrow> unit fs_call" where
  "extract_sources env dest fs =
     (if fs dest = None then extract_ansible (st_fs env) dest (st_embedded env) fs else (Inr (), fs))"

definition restrict_db :: "FsEnv \<Rightarrow> path \<Rightarrow> unit fs_call" where
  "restrict_db env p fs = (if fs p \<noteq> None then set_permissions env p mode_600 fs else (Inr (), fs))"

definition check_prereq :: "('v, 'w) StartEnv \<Rightarrow> WorkSpace \<Rightarrow> ('w, unit) start_call" where
  "check_prereq env ws =
     (let d = ws_dirs ws; fsv = st_fs env; auth = config_dir d @ [CF_AUTH]; dest = data_dir d @ ANSIBLE_DIR;
          db = data_dir d @ [CLOUD_DB] in
      via (on_fs (read_text fsv auth)) (\<lambda>txt.
      via (pure (ok_or (st_toml_token env txt) (BadToml auth))) (\<lambda>token.
      via (pure (boxed (st_client env token))) (\<lambda>_.
      via (on_fs (backup_dirs fsv d)) (\<lambda>_.
      via (\<lambda>(fs, g, w). let (r, w') = test_cf_token (st_api env) w in (boxed r, (fs, g, w'))) (\<lambda>_.
      via (on_fs (check_xray_paths env)) (\<lambda>_.
      via (pure (check_ansible env)) (\<lambda>_.
      via (on_fs (extract_sources env dest)) (\<lambda>_.
      via (on_fs (validate_sources fsv dest)) (\<lambda>_.
      via (on_fs (write_text fsv (config_dir d @ [ANSIBLE_CFG]) ansible_cfg_text)) (\<lambda>_.
      via (on_fs (restrict_db fsv db)) (\<lambda>_.
      via (on_fs (st_open_db env db)) (\<lambda>_.
      via (pure (boxed (st_geoip env))) (\<lambda>csv.
      (\<lambda>(fs, g, w). let (r, g') = create_geoip_db csv g in (boxed r, (fs, g', w)))))))))))))))))"

end
