(* ===== verification/Startup_Props.thy ===== *)
theory Startup_Props
  imports Startup
begin

text \<open>
  What the start of the daemon guarantees: permissions of the working directories and of the token
  file, the extraction of the embedded sources, and the check of the Ansible version.
\<close>

section \<open>Footprints\<close>

text \<open>A call changes nothing outside a set of paths, whether it succeeds or fails.\<close>

definition within :: "path set \<Rightarrow> 'a fs_call \<Rightarrow> bool" where
  "within A f \<longleftrightarrow> (\<forall>fs q. q \<notin> A \<longrightarrow> snd (f fs) q = fs q)"

named_theorems footprint \<open>which paths a call can change\<close>

lemma withinD: "within A f \<Longrightarrow> f fs = (r, fs') \<Longrightarrow> q \<notin> A \<Longrightarrow> fs' q = fs q"
  unfolding within_def by (metis snd_conv)

lemma within_mono: "within A f \<Longrightarrow> A \<subseteq> B \<Longrightarrow> within B f"
  unfolding within_def by blast

lemma within_pure [footprint]: "within A (pure r)"
  by (simp add: within_def pure_def)

lemma within_via [footprint]: "within A m \<Longrightarrow> (\<And>x. within A (k x)) \<Longrightarrow> within A (via m k)"
  unfolding within_def via_def by (auto split: prod.split sum.split) (metis snd_conv)+

lemma within_via_each: "(\<And>s x. x \<in> set xs \<Longrightarrow> within A (f s x)) \<Longrightarrow> within A (via_each f s xs)"
  by (induction xs arbitrary: s) (auto intro!: footprint)

lemma within_if: "within A f \<Longrightarrow> within A (\<lambda>fs. if P fs then f fs else (Inr x, fs))"
  by (simp add: within_def)

lemma within_make_dir: "p \<in> A \<Longrightarrow> within A (make_dir env p)"
  unfolding within_def make_dir_def by (auto split: option.split Node.split)

lemma within_create_dir_all: "within {q. \<exists>n < length p. q = take (Suc n) p} (create_dir_all env p)"
  unfolding create_dir_all_def by (rule within_via_each) (auto intro!: within_make_dir)

lemma within_set_permissions [footprint]: "p \<in> A \<Longrightarrow> within A (set_permissions env p m)"
  unfolding within_def set_permissions_def by (auto split: option.split)

lemma within_write_text [footprint]: "p \<in> A \<Longrightarrow> within A (write_text env p txt)"
  unfolding within_def write_text_def by (auto simp: Let_def split: option.split Node.split)

lemma within_read_text [footprint]: "within A (read_text env p)"
  unfolding within_def read_text_def by (auto split: option.split Node.split)

section \<open>Permissions\<close>

lemma node_mode_with_mode [simp]: "node_mode (with_mode m n) = m"
  by (cases n) simp_all

lemma set_permissions_Inr:
  "set_permissions env p m fs = (Inr u, fs') \<Longrightarrow>
     mode_of fs' q = (if q = p then Some m else mode_of fs q) \<and> (fs' q = None \<longleftrightarrow> fs q = None)"
  by (auto simp: set_permissions_def mode_of_def split: option.splits if_splits)

lemma restrict_dirs_Inr:
  assumes "restrict_dirs env d fs = (Inr u, fs')" "q \<in> {config_dir d, data_dir d, state_dir d}"
  shows "mode_of fs' q = Some mode_700"
proof -
  from assms(1) obtain fs1 fs2 where
    "set_permissions env (config_dir d) mode_700 fs = (Inr (), fs1)"
    "set_permissions env (data_dir d) mode_700 fs1 = (Inr (), fs2)"
    "set_permissions env (state_dir d) mode_700 fs2 = (Inr (), fs')"
    by (auto simp: restrict_dirs_def via_Inr_iff)
  from this [THEN set_permissions_Inr, where q = q] assms(2) show ?thesis by auto
qed

lemma within_check_auth [footprint]: "p \<in> A \<Longrightarrow> within A (check_auth env p)"
  unfolding check_auth_def
proof (intro within_via within_read_text within_pure)
  assume "p \<in> A"
  then show "within A (\<lambda>fs. case mode_of fs p of None \<Rightarrow> (Inl (Io p), fs)
      | Some m \<Rightarrow> if m mod 512 \<noteq> mode_600 then set_permissions (st_fs env) p mode_600 fs else (Inr (), fs))"
    by (auto simp: within_def set_permissions_def split: option.split)
qed

lemma within_check_required: "within {config_dir d @ [CF_AUTH]} (check_required env d item)"
  using within_check_auth [of item "{config_dir d @ [CF_AUTH]}" env]
  unfolding within_def check_required_def by auto

lemma check_auth_Inr:
  assumes "check_auth env p fs = (Inr u, fs')"
  obtains m body token where "fs' p = Some (FileNode m body)" "m mod 512 = mode_600"
    "st_toml_token env body = Some token" "token \<noteq> []"
proof -
  from assms obtain m0 where m0: "mode_of fs p = Some m0"
    by (auto simp: check_auth_def via_Inr_iff split: option.splits)
  with assms obtain fs1 body token where fix_mode:
      "(if m0 mod 512 \<noteq> mode_600 then set_permissions (st_fs env) p mode_600 fs else (Inr (), fs)) = (Inr (), fs1)"
    and rd: "read_text (st_fs env) p fs1 = (Inr body, fs')"
    and tok: "st_toml_token env body = Some token" "token \<noteq> []"
    by (auto simp: check_auth_def via_Inr_iff)
  have "mode_of fs1 p = Some mode_600 \<or> mode_of fs1 p = Some m0 \<and> m0 mod 512 = mode_600"
    using fix_mode m0 set_permissions_Inr [of "st_fs env" p mode_600 fs _ fs1 p] by (auto split: if_splits)
  moreover have "mode_600 mod 512 = mode_600" by (simp add: mode_600_def)
  moreover from rd obtain m where "fs' p = Some (FileNode m body)" "fs' = fs1"
    by (auto simp: read_text_def split: option.splits Node.splits if_splits)
  ultimately show thesis using that tok by (auto simp: mode_of_def)
qed

lemma mode_of_cong: "fs' q = fs q \<Longrightarrow> mode_of fs' q = mode_of fs q"
  by (simp add: mode_of_def)

text \<open>
  C34. The secrets of the daemon are its user's alone before it starts: once the workspace is
  validated, the directories of the configuration, the data and the logs are open to their owner
  only, the token file is readable and writable by its owner only and holds a token, and a cloud
  configuration is there. The directories of the cache and of the running files are created, but no
  mode is set on them.
\<close>

theorem workspace_locked:
  assumes ok: "validate_workspace env ws fs = (Inr (), fs')"
    and apart: "data_dir (ws_dirs ws) \<noteq> config_dir (ws_dirs ws) @ [CF_AUTH]"
      "state_dir (ws_dirs ws) \<noteq> config_dir (ws_dirs ws) @ [CF_AUTH]"
  shows "mode_of fs' (config_dir (ws_dirs ws)) = Some mode_700 \<and> mode_of fs' (data_dir (ws_dirs ws)) = Some mode_700
    \<and> mode_of fs' (state_dir (ws_dirs ws)) = Some mode_700 \<and> fs' (config_dir (ws_dirs ws) @ [CLOUD_CONFIG]) \<noteq> None
    \<and> (\<exists>m txt token. fs' (config_dir (ws_dirs ws) @ [CF_AUTH]) = Some (FileNode m txt) \<and> m mod 512 = mode_600
         \<and> st_toml_token env txt = Some token \<and> token \<noteq> [])"
proof -
  let ?d = "ws_dirs ws"
  let ?auth = "config_dir ?d @ [CF_AUTH]" and ?cloud = "config_dir ?d @ [CLOUD_CONFIG]"
  have ne: "?cloud \<noteq> ?auth" by (simp add: CLOUD_CONFIG_def CF_AUTH_def)
  from ok obtain fs1 fs2 fs3 where restricted: "restrict_dirs (st_fs env) ?d fs1 = (Inr (), fs2)"
    and cloud: "check_required env ?d ?cloud fs2 = (Inr (), fs3)"
    and auth: "check_required env ?d ?auth fs3 = (Inr (), fs')"
    by (auto simp: validate_workspace_def Let_def via_Inr_iff)
  have kept: "fs' q = fs2 q" if "q \<noteq> ?auth" for q
    using withinD [OF within_check_required cloud] withinD [OF within_check_required auth] that by simp
  have modes: "mode_of fs' q = Some mode_700" if "q \<in> {config_dir ?d, data_dir ?d, state_dir ?d}" for q
    using restrict_dirs_Inr [OF restricted that] mode_of_cong [of fs' q fs2] kept [of q] that apart by auto
  have "fs' ?cloud \<noteq> None" using cloud ne kept [OF ne] by (auto simp: check_required_def split: if_splits)
  moreover have "check_auth env ?auth fs3 = (Inr (), fs')"
    using auth by (auto simp: check_required_def split: if_splits)
  from check_auth_Inr [OF this] have "\<exists>m txt token. fs' ?auth = Some (FileNode m txt) \<and> m mod 512 = mode_600
      \<and> st_toml_token env txt = Some token \<and> token \<noteq> []" by metis
  ultimately show ?thesis using modes by simp
qed

section \<open>Extraction\<close>

fun entry_files :: "Embedded \<Rightarrow> (path \<times> string) list" and embedded_files :: "Embedded list \<Rightarrow> (path \<times> string) list" where
  "entry_files (EDir p es) = embedded_files es"
| "entry_files (EFile p txt) = [(p, txt)]"
| "embedded_files [] = []"
| "embedded_files (e # es) = entry_files e @ embedded_files es"

text \<open>Outside a set of paths, a call only adds directories.\<close>

definition adds_dirs :: "path set \<Rightarrow> 'a fs_call \<Rightarrow> bool" where
  "adds_dirs A f \<longleftrightarrow> (\<forall>fs q. q \<notin> A \<longrightarrow> snd (f fs) q = fs q \<or> fs q = None \<and> (\<exists>m. snd (f fs) q = Some (DirNode m)))"

lemma adds_dirs_via: "adds_dirs A m \<Longrightarrow> (\<And>x. adds_dirs A (k x)) \<Longrightarrow> adds_dirs A (via m k)"
  unfolding adds_dirs_def via_def by (auto split: prod.split sum.split) (metis snd_conv)+

lemma adds_dirs_pure: "adds_dirs A (pure r)"
  by (simp add: adds_dirs_def pure_def)

lemma adds_dirs_via_each: "(\<And>s x. adds_dirs A (f s x)) \<Longrightarrow> adds_dirs A (via_each f s xs)"
  by (induction xs arbitrary: s) (auto intro!: adds_dirs_via adds_dirs_pure)

lemma adds_dirs_make: "adds_dirs A (make_dir env p)"
  unfolding adds_dirs_def make_dir_def by (auto split: option.split Node.split)

lemma adds_dirs_create: "adds_dirs A (create_dir_all env p)"
  unfolding create_dir_all_def by (rule adds_dirs_via_each) (rule adds_dirs_make)

lemma adds_dirs_write: "p \<in> A \<Longrightarrow> adds_dirs A (write_text env p txt)"
  using within_write_text unfolding adds_dirs_def within_def by metis

lemma adds_dirs_mono: "adds_dirs A f \<Longrightarrow> A \<subseteq> B \<Longrightarrow> adds_dirs B f"
  unfolding adds_dirs_def by blast

lemma extract_adds_dirs:
  "adds_dirs ((\<lambda>x. dest @ fst x) ` set (entry_files e)) (extract_entry env dest e)"
  "adds_dirs ((\<lambda>x. dest @ fst x) ` set (embedded_files es)) (extract_ansible env dest es)"
  by (induction e and es rule: entry_files_embedded_files.induct)
    (auto intro!: adds_dirs_via adds_dirs_pure adds_dirs_create adds_dirs_write intro: adds_dirs_mono)

lemma adds_dirs_keeps_file:
  "adds_dirs A f \<Longrightarrow> f fs = (r, fs') \<Longrightarrow> q \<notin> A \<Longrightarrow> fs q = Some (FileNode m txt) \<Longrightarrow> fs' q = Some (FileNode m txt)"
  unfolding adds_dirs_def by (metis option.distinct(1) snd_conv)

lemma write_text_Inr: "write_text env p txt fs = (Inr u, fs') \<Longrightarrow> \<exists>m. fs' p = Some (FileNode m txt)"
  by (auto simp: write_text_def Let_def split: option.splits Node.splits if_splits)

lemma extract_contents:
  "extract_entry env dest e fs = (Inr (), fs') \<Longrightarrow> distinct (map fst (entry_files e)) \<Longrightarrow> (p, content) \<in> set (entry_files e)
     \<Longrightarrow> \<exists>m. fs' (dest @ p) = Some (FileNode m content)"
  "extract_ansible env dest es fs = (Inr (), fs') \<Longrightarrow> distinct (map fst (embedded_files es))
     \<Longrightarrow> (p, content) \<in> set (embedded_files es) \<Longrightarrow> \<exists>m. fs' (dest @ p) = Some (FileNode m content)"
proof (induction e and es arbitrary: fs fs' and fs fs' rule: entry_files_embedded_files.induct)
  case (1 q es)
  then show ?case by (auto simp: via_Inr_iff)
next
  case (2 q t)
  then show ?case by (auto simp: via_Inr_iff dest: write_text_Inr)
next
  case (4 e es)
  from "4.prems"(1) obtain fs1 where fs1: "extract_entry env dest e fs = (Inr (), fs1)"
    "extract_ansible env dest es fs1 = (Inr (), fs')" by (auto simp: via_Inr_iff)
  show ?case
  proof (cases "(p, content) \<in> set (entry_files e)")
    case True
    with "4.IH"(1) [OF fs1(1)] "4.prems"(2) obtain m where "fs1 (dest @ p) = Some (FileNode m content)" by auto
    moreover have "dest @ p \<notin> (\<lambda>x. dest @ fst x) ` set (embedded_files es)"
      using True "4.prems"(2) by force
    ultimately show ?thesis using adds_dirs_keeps_file [OF extract_adds_dirs(2) fs1(2)] by blast
  next
    case False
    then show ?thesis using "4.IH"(2) [OF fs1(2)] "4.prems"(2,3) by simp
  qed
qed simp

text \<open>
  C35. The extraction is exact: when it succeeds, every embedded file is at its place below the
  destination with its content; everything that existed before and is not one of them is as it was, and
  what is new besides them is a directory.
\<close>

theorem extract_exact:
  assumes "extract_ansible env dest src fs = (Inr (), fs')" "distinct (map fst (embedded_files src))"
  shows "(\<forall>(p, content) \<in> set (embedded_files src). \<exists>m. fs' (dest @ p) = Some (FileNode m content))
    \<and> (\<forall>q. q \<notin> (\<lambda>x. dest @ fst x) ` set (embedded_files src) \<longrightarrow>
         fs' q = fs q \<or> fs q = None \<and> (\<exists>m. fs' q = Some (DirNode m)))"
proof (intro conjI ballI allI impI)
  fix x
  assume "x \<in> set (embedded_files src)"
  then show "case x of (p, content) \<Rightarrow> \<exists>m. fs' (dest @ p) = Some (FileNode m content)"
    using extract_contents(2) [OF assms] by auto
next
  fix q
  assume "q \<notin> (\<lambda>x. dest @ fst x) ` set (embedded_files src)"
  moreover have "snd (extract_ansible env dest src fs) = fs'" using assms(1) by simp
  ultimately show "fs' q = fs q \<or> fs q = None \<and> (\<exists>m. fs' q = Some (DirNode m))"
    using extract_adds_dirs(2) [of dest src env] unfolding adds_dirs_def by blast
qed

section \<open>Repeated starts\<close>

text \<open>A call that leaves a directory alone, once it exists.\<close>

definition leaves :: "path \<Rightarrow> ('w, 'a) start_call \<Rightarrow> bool" where
  "leaves dest f \<longleftrightarrow> (\<forall>st. fst st dest \<noteq> None \<longrightarrow> (\<forall>p. fst (snd (f st)) (dest @ p) = fst st (dest @ p)))"

lemma leavesD: "leaves dest f \<Longrightarrow> f st = (r, st') \<Longrightarrow> fst st dest \<noteq> None \<Longrightarrow> fst st' (dest @ p) = fst st (dest @ p)"
  unfolding leaves_def by (metis snd_conv)

lemma leaves_via:
  fixes m :: "('w, 'a) start_call"
  assumes m: "leaves dest m" and k: "\<And>x. leaves dest (k x)"
  shows "leaves dest (via m k)"
  unfolding leaves_def
proof (intro allI impI)
  fix st :: "Fs \<times> Geoip option \<times> 'w" and p
  assume st: "fst st dest \<noteq> None"
  obtain r st1 where r: "m st = (r, st1)" by (cases "m st")
  note same = leavesD [OF m r st]
  have "fst st1 dest \<noteq> None" using same [of "[]"] st by simp
  then have "fst (snd (k x st1)) (dest @ p) = fst st1 (dest @ p)" for x using k [of x] unfolding leaves_def by blast
  then show "fst (snd (via m k st)) (dest @ p) = fst st (dest @ p)" using r same by (cases r) simp_all
qed

lemma leaves_pure: "leaves dest (pure r)"
  by (simp add: leaves_def pure_def)

lemma leaves_on_fs: "within {q. \<forall>p. q \<noteq> dest @ p} f \<Longrightarrow> leaves dest (on_fs f)"
  unfolding leaves_def within_def on_fs_def by (auto simp: Let_def split: prod.split) (metis snd_conv)

lemma leaves_extract: "leaves dest (on_fs (extract_sources env dest))"
  by (auto simp: leaves_def on_fs_def extract_sources_def)

lemma leaves_rest:
  "leaves dest (\<lambda>(fs, g, w). case f w of (r, w') \<Rightarrow> (h r, (fs, g, w')))"
  "leaves dest (\<lambda>(fs, g, w). case f' g of (r, g') \<Rightarrow> (h' r, (fs, g', w)))"
  by (auto simp: leaves_def split: prod.split)

lemma within_check_xray_paths: "within A (check_xray_paths env)"
  by (simp add: within_def check_xray_paths_def)

lemma within_validate_sources: "within A (validate_sources env dest)"
  by (simp add: within_def validate_sources_def split: sum.split)

lemma within_restrict_db: "p \<in> A \<Longrightarrow> within A (restrict_db env p)"
  using within_set_permissions [of p A env mode_600] by (simp add: within_def restrict_db_def)

text \<open>The paths on the way to another entry of the data directory are not below the sources.\<close>

lemma not_below: "take n (data @ [a]) \<noteq> (data @ ANSIBLE_DIR) @ p"
proof
  assume "take n (data @ [a]) = (data @ ANSIBLE_DIR) @ p"
  then have "length (take n (data @ [a])) = length ((data @ ANSIBLE_DIR) @ p)" by (rule arg_cong)
  then show False by (simp add: ANSIBLE_DIR_def min_def split: if_splits)
qed

lemma within_backup_dirs: "within {q. \<forall>p. q \<noteq> (data_dir d @ ANSIBLE_DIR) @ p} (backup_dirs env d)"
  unfolding backup_dirs_def
proof (intro within_via_each within_via)
  fix x :: string
  have "{q. \<exists>n < length (data_dir d @ [x]). q = take (Suc n) (data_dir d @ [x])}
      \<subseteq> {q. \<forall>p. q \<noteq> (data_dir d @ ANSIBLE_DIR) @ p}"
    using not_below [of _ "data_dir d" x] by (auto simp del: append_assoc take_append)
  then show "within {q. \<forall>p. q \<noteq> (data_dir d @ ANSIBLE_DIR) @ p} (create_dir_all env (data_dir d @ [x]))"
    by (rule within_mono [OF within_create_dir_all])
  show "within {q. \<forall>p. q \<noteq> (data_dir d @ ANSIBLE_DIR) @ p} (set_permissions env (data_dir d @ [x]) mode_700)"
    by (rule within_set_permissions) (simp add: ANSIBLE_DIR_def)
qed

lemma config_not_below:
  assumes "\<not> starts_with data config"
  shows "config @ [a] \<noteq> (data @ ANSIBLE_DIR) @ p"
proof
  assume "config @ [a] = (data @ ANSIBLE_DIR) @ p"
  then have "config = butlast ((data @ ANSIBLE_DIR) @ p)" by (metis butlast_snoc)
  then have "config = data @ butlast (ANSIBLE_DIR @ p)" by (simp add: ANSIBLE_DIR_def butlast_append)
  then show False using assms by (auto simp: starts_with_iff)
qed

text \<open>
  An extraction that broke off is never completed: as soon as the directory of the sources exists, no
  start of the daemon changes anything below it, whether its checks succeed or fail. Files missing
  there that are not task files go unnoticed.
\<close>

lemma sources_never_repaired:
  assumes there: "fs (data_dir (ws_dirs ws) @ ANSIBLE_DIR) \<noteq> None"
    and apart: "\<not> starts_with (data_dir (ws_dirs ws)) (config_dir (ws_dirs ws))"
    and db: "\<And>p. within {p} (st_open_db env p)"
  shows "fst (snd (check_prereq env ws (fs, g, w))) ((data_dir (ws_dirs ws) @ ANSIBLE_DIR) @ p)
    = fs ((data_dir (ws_dirs ws) @ ANSIBLE_DIR) @ p)"
proof -
  let ?dest = "data_dir (ws_dirs ws) @ ANSIBLE_DIR" and ?db = "data_dir (ws_dirs ws) @ [CLOUD_DB]"
  let ?A = "{q. \<forall>p. q \<noteq> ?dest @ p}"
  have cfg: "config_dir (ws_dirs ws) @ [ANSIBLE_CFG] \<in> ?A" using config_not_below [OF apart] by simp
  have dbA: "?db \<in> ?A" by (simp add: ANSIBLE_DIR_def)
  have opened: "within ?A (st_open_db env ?db)"
    by (rule within_mono [OF db]) (use dbA in simp)
  have "leaves ?dest (check_prereq env ws)"
    unfolding check_prereq_def Let_def
    by (intro leaves_via leaves_pure leaves_extract leaves_rest leaves_on_fs within_read_text within_backup_dirs opened
        within_check_xray_paths within_validate_sources within_write_text [OF cfg] within_restrict_db [OF dbA])
  then show ?thesis unfolding leaves_def using there by (metis fst_conv)
qed

section \<open>Versions\<close>

definition ver2 :: "nat \<Rightarrow> nat \<Rightarrow> string" where
  "ver2 a b = show_nat a @ CHR ''.'' # show_nat b"

definition ver3 :: "nat \<Rightarrow> nat \<Rightarrow> nat \<Rightarrow> string" where
  "ver3 a b c = ver2 a b @ CHR ''.'' # show_nat c"

text \<open>
  What the crate for Semantic Versioning documents: three numbers of 64 bits make a version, two do not,
  and versions without further parts are ordered by their numbers.
\<close>

definition semver_ok :: "'v SemVer \<Rightarrow> (nat \<Rightarrow> nat \<Rightarrow> nat \<Rightarrow> 'v) \<Rightarrow> bool" where
  "semver_ok sv mk \<longleftrightarrow>
     (\<forall>a b c. a < 2 ^ 64 \<longrightarrow> b < 2 ^ 64 \<longrightarrow> c < 2 ^ 64 \<longrightarrow> sv_parse sv (scalars (ver3 a b c)) = Some (mk a b c))
     \<and> (\<forall>a b. sv_parse sv (scalars (ver2 a b)) = None)
     \<and> (\<forall>a b c a' b' c'. sv_less sv (mk a b c) (mk a' b' c') \<longleftrightarrow>
          a < a' \<or> a = a' \<and> (b < b' \<or> b = b' \<and> c < c'))"

lemma scalars_append [simp]: "scalars (s @ t) = scalars s @ scalars t" "scalars [] = []"
  "scalars (c # s) = of_char c # scalars s"
  by (simp_all add: scalars_def)

definition version_char :: "char \<Rightarrow> bool" where
  "version_char c \<longleftrightarrow> ascii_digit (of_char c) \<or> c = CHR ''.''"

lemma show_nat_digit: "c \<in> set (show_nat n) \<Longrightarrow> ascii_digit (of_char c)"
proof -
  assume "c \<in> set (show_nat n)"
  then obtain d where "d < 10" "c = digit_char d" using digits_bound [of 10 _ n] by (auto simp: show_base_def)
  then show ?thesis by (simp add: digit_char_def ascii_digit_def)
qed

lemma ver_chars: "list_all version_char (ver2 a b)" "list_all version_char (ver3 a b c)"
  using show_nat_digit by (auto simp: ver3_def ver2_def version_char_def list_all_iff)

lemma ver_starts: "ver2 a b \<noteq> []" "ver3 a b c \<noteq> []" "ascii_digit (of_char (hd (ver2 a b)))" "ascii_digit (of_char (hd (ver3 a b c)))"
  using show_nat_digit [of "hd (show_nat a)" a] by (simp_all add: ver3_def ver2_def)

lemma version_char_code:
  "version_char c \<Longrightarrow> \<not> white_space (of_char c) \<and> (of_char c :: nat) < 128 \<and> of_char c \<noteq> (99 :: nat)
     \<and> of_char c \<noteq> (93 :: nat) \<and> of_char c \<noteq> (10 :: nat) \<and> of_char c \<noteq> (13 :: nat)"
  by (auto simp: version_char_def ascii_defs white_space_def)

lemma version_scalars:
  assumes "list_all version_char v" "x \<in> set (scalars v)"
  shows "\<not> white_space x" "x < 128" "x \<noteq> 99" "x \<noteq> 93"
  using assms version_char_code by (auto simp: scalars_def list_all_iff)

lemma cut_at_none: "c \<notin> set s \<Longrightarrow> cut_at (c # pat) s = (s, None)"
  by (induction s) (auto simp: starts_with_iff)

lemma trim_version: "list_all version_char v \<Longrightarrow> v \<noteq> [] \<Longrightarrow> trim_ws (scalars v) = scalars v"
proof -
  assume v: "list_all version_char v" "v \<noteq> []"
  then have "scalars v \<noteq> []" by (simp add: scalars_def)
  with version_scalars(1) [OF v(1)] show ?thesis by (intro trim_ws_ends) simp_all
qed

lemma core_version_modern:
  assumes "list_all version_char v" "v \<noteq> []"
  shows "core_version (scalars (''ansible [core '' @ v @ '']'')) = Some (scalars v)"
proof -
  have "99 \<notin> set (scalars v @ [93])" using version_scalars(3) [OF assms(1)] by auto
  then have cut: "cut_at (scalars ''core '') (scalars v @ [93]) = (scalars v @ [93], None)"
    by (simp add: cut_at_none)
  have "second_piece (scalars ''core '') (scalars (''ansible [core '' @ v @ '']'')) = Some (scalars v @ [93])"
    using cut by (simp add: second_piece_def starts_with_def strip_prefix_def)
  moreover have "takeWhile (\<lambda>c. c \<noteq> 93) (scalars v @ [93]) = scalars v"
    using version_scalars(4) [OF assms(1)] by (subst takeWhile_append2) auto
  ultimately show ?thesis by (simp add: core_version_def trim_version [OF assms])
qed

lemma ws_words_one: "s \<noteq> [] \<Longrightarrow> (\<And>x. x \<in> set s \<Longrightarrow> \<not> white_space x) \<Longrightarrow> ws_words s = [s]"
proof -
  assume s: "s \<noteq> []" "\<And>x. x \<in> set s \<Longrightarrow> \<not> white_space x"
  then have "dropWhile white_space s = s" "takeWhile (\<lambda>c. \<not> white_space c) s = s" "dropWhile (\<lambda>c. \<not> white_space c) s = []"
    by (simp_all add: dropWhile_eq_self_iff takeWhile_eq_all_conv dropWhile_eq_Nil_conv)
  moreover have "ws_words [] = []" by (simp add: ws_words.simps)
  ultimately show "ws_words s = [s]" using s(1) by (simp only: ws_words.simps [of s] Let_def if_False)
qed

lemma core_version_legacy:
  assumes "list_all version_char v" "v \<noteq> []" "ascii_digit (of_char (hd v))"
  shows "core_version (scalars (''ansible '' @ v)) = Some (scalars v)"
proof -
  have "99 \<notin> set (scalars (''ansible '' @ v))" using version_scalars(3) [OF assms(1)] by auto
  from cut_at_none [OF this, of "[111, 114, 101, 32]"]
  have "snd (cut_at (scalars ''core '') (scalars (''ansible '' @ v))) = None"
    by (simp add: scalars_def del: cut_at.simps map_append)
  then have "second_piece (scalars ''core '') (scalars (''ansible '' @ v)) = None"
    unfolding second_piece_def by (simp only: option.map)
  moreover have one: "ws_words (scalars v) = [scalars v]"
    using version_scalars(1) [OF assms(1)] assms(2) by (intro ws_words_one) (auto simp: scalars_def)
  have blank: "ws_words (32 # scalars v) = ws_words (scalars v)"
    by (simp add: ws_words.simps [of "32 # scalars v"] ws_words.simps [of "scalars v"] white_space_def)
  have "ws_words (scalars (''ansible '' @ v)) = [scalars ''ansible'', scalars v]"
    using one blank by (simp add: ws_words.simps [of "97 # _"] white_space_def)
  ultimately show ?thesis
    using assms trim_version [OF assms(1,2)] by (simp add: core_version_def ascii_digit_def scalars_def hd_map)
qed

lemma first_line_ascii:
  assumes "\<And>c. c \<in> set l \<Longrightarrow> of_char c \<noteq> (10 :: nat) \<and> of_char c \<noteq> (13 :: nat) \<and> (of_char c :: nat) < 128" "l \<noteq> []"
  shows "first_line (l @ char_of (10 :: nat) # below) = Some (scalars l)"
proof -
  let ?nl = "char_of (10 :: nat) :: char"
  have "?nl \<notin> set l" using assms(1) by force
  then have "split_at ?nl (l @ ?nl # below) = l # split_at ?nl below" by (rule split_at_sep)
  moreover have "strip_cr l = l" using assms(1) [of "last l"] assms(2) by (auto simp: strip_cr_def)
  ultimately have "\<exists>rest. str_lines (l @ ?nl # below) = l # rest" by (simp add: str_lines_def Let_def)
  moreover have "str_chars l = scalars l"
    using assms(1) by (auto simp: str_chars_def scalars_def list_all_iff intro!: utf8_chars_ascii)
  ultimately show ?thesis by (auto simp: first_line_def)
qed

lemma check_version_ok:
  assumes sv: "semver_ok sv mk" and n: "a < 2 ^ 64" "b < 2 ^ 64" "c < 2 ^ 64"
    and v: "v = ver3 a b c \<or> v = ver2 a b \<and> c = 0"
  shows "check_version sv prog ''2.19.0'' (scalars v) = (if 2 < a \<or> a = 2 \<and> 19 \<le> b then Inr () else Inl (VersionLow prog))"
proof -
  have full: "sv_parse sv (scalars (ver3 a b c)) = Some (mk a b c)" and short: "sv_parse sv (scalars (ver2 a b)) = None"
    and least: "sv_parse sv (scalars (ver3 2 19 0)) = Some (mk 2 19 0)"
    and less: "sv_less sv (mk a b c) (mk 2 19 0) \<longleftrightarrow> a < 2 \<or> a = 2 \<and> b < 19"
    using sv n by (simp_all add: semver_ok_def)
  have "ver3 2 19 0 = ''2.19.0''"
    by (simp add: ver3_def ver2_def show_base_def digits.simps digit_char_def char_of_eq_iff)
  moreover have "show_nat 0 = ''0''" by (simp add: show_base_def digits.simps digit_char_def char_of_eq_iff)
  then have "ver2 a b @ ''.0'' = ver3 a b 0" by (simp add: ver3_def)
  then have "scalars (ver2 a b) @ scalars ''.0'' = scalars (ver3 a b 0)" by (metis scalars_append(1))
  then have "parsed_version sv (scalars v) = mk a b c" using v full short by (auto simp: parsed_version_def)
  ultimately show ?thesis using least less by (auto simp: check_version_def ensure_def simp del: scalars_append)
qed

text \<open>
  The gate for Ansible: whatever the numbers of the installed release are and in either format of
  its first line, with or without a third number, the check passes exactly for the releases from 2.19 on.
\<close>

lemma ansible_gate:
  assumes sv: "semver_ok (st_semver env) mk" and n: "a < 2 ^ 64" "b < 2 ^ 64" "c < 2 ^ 64"
    and v: "v = ver3 a b c \<or> v = ver2 a b \<and> c = 0"
    and out: "st_ansible env = Some (l @ char_of (10 :: nat) # below)"
    and l: "l = ''ansible [core '' @ v @ '']'' \<or> l = ''ansible '' @ v"
  shows "check_ansible env = (if 2 < a \<or> a = 2 \<and> 19 \<le> b then Inr () else Inl (VersionLow ''ansible''))"
proof -
  have good: "list_all version_char v" "v \<noteq> []" "ascii_digit (of_char (hd v))"
    using v ver_chars ver_starts by (elim disjE; simp)+
  have "first_line (l @ char_of (10 :: nat) # below) = Some (scalars l)"
  proof (rule first_line_ascii)
    fix ch
    assume "ch \<in> set l"
    then have "version_char ch \<or> ch \<in> set ''ansible [core ]''" using l good(1) by (auto simp: list_all_iff)
    then show "of_char ch \<noteq> (10 :: nat) \<and> of_char ch \<noteq> (13 :: nat) \<and> (of_char ch :: nat) < 128"
      using version_char_code by auto
  qed (use l in auto)
  moreover have "core_version (scalars l) = Some (scalars v)"
    using l core_version_modern [OF good(1,2)] core_version_legacy [OF good] by metis
  ultimately show ?thesis
    using check_version_ok [OF sv n v] by (simp add: check_ansible_def out del: scalars_append)
qed

section \<open>Concrete instances\<close>

definition demo_fsv :: FsEnv where
  "demo_fsv = \<lparr>fe_dir_mode = 493, fe_file_mode = 420, fe_fault = \<lambda>_ _. False, fe_torn = \<lambda>_. None\<rparr>"

text \<open>Three numbers separated by dots, for the versions without further parts.\<close>

definition demo_semver :: "(nat \<times> nat \<times> nat) SemVer" where
  "demo_semver =
     \<lparr>sv_parse = (\<lambda>s. case map (parse_unsigned (2 ^ 64 - 1)) (split_at (CHR ''.'') (map char_of s)) of
                     [Some a, Some b, Some c] \<Rightarrow> Some (a, b, c) | _ \<Rightarrow> None),
      sv_less = (\<lambda>(a, b, c) (a', b', c'). a < a' \<or> a = a' \<and> (b < b' \<or> b = b' \<and> c < c')), sv_zero = (0, 0, 0)\<rparr>"

definition demo_start :: "string \<Rightarrow> (nat \<times> nat \<times> nat, unit) StartEnv" where
  "demo_start out =
     \<lparr>st_fs = demo_fsv, st_uid = 0, st_xdg = None, st_example = [], st_toml_token = Some, st_toml_skel = Inr [],
      st_client = \<lambda>_. Inr (), st_api = undefined, st_ansible = Some out, st_xray = None, st_semver = demo_semver,
      st_embedded = [], st_open_db = \<lambda>_. pure (Inr ()), st_geoip = Inr []\<rparr>"

definition demo_ws :: WorkSpace where
  "demo_ws = \<lparr>ws_dirs = \<lparr>config_dir = [''c''], data_dir = [''d''], cache_dir = [''k''], runtime_dir = [''r''], state_dir = [''s'']\<rparr>,
     ws_pid_file = [''r'', ''p''], ws_sock_file = [''r'', ''s'']\<rparr>"

definition demo_home :: Fs where
  "demo_home = [[''c''] \<mapsto> DirNode 493, [''c'', ''cloud.toml''] \<mapsto> FileNode 420 [],
     [''c'', ''cf-auth.toml''] \<mapsto> FileNode 420 ''token'']"

lemmas demo_start_simps = demo_fsv_def demo_start_def demo_ws_def demo_home_def mode_700_def mode_600_def CF_AUTH_def CLOUD_CONFIG_def

theorem workspace_locked_witness:
  "\<exists>fs'. validate_workspace (demo_start []) demo_ws demo_home = (Inr (), fs')
     \<and> mode_of fs' [''c''] = Some 448 \<and> mode_of fs' [''d''] = Some 448
     \<and> (\<exists>m body. fs' [''c'', ''cf-auth.toml''] = Some (FileNode m body) \<and> m mod 512 = 384 \<and> body \<noteq> [])"
proof -
  have "\<exists>fs'. validate_workspace (demo_start []) demo_ws demo_home = (Inr (), fs')"
    by (simp add: demo_start_simps validate_workspace_def Let_def via_Inr_iff restrict_dirs_def check_required_def check_auth_def
        make_dirs_def create_dir_all_def make_dir_def set_permissions_def read_text_def mode_of_def)
  then obtain fs' where ok: "validate_workspace (demo_start []) demo_ws demo_home = (Inr (), fs')" ..
  have "data_dir (ws_dirs demo_ws) \<noteq> config_dir (ws_dirs demo_ws) @ [CF_AUTH]"
    "state_dir (ws_dirs demo_ws) \<noteq> config_dir (ws_dirs demo_ws) @ [CF_AUTH]"
    by (simp_all add: demo_ws_def)
  from workspace_locked [OF ok this] show ?thesis
    using ok by (auto simp: demo_start_simps)
qed

definition demo_tree :: "Embedded list" where
  "demo_tree = [EFile [''a''] ''one'', EDir [''t''] [EFile [''t'', ''b''] ''two'']]"

theorem extract_exact_witness:
  "\<exists>fs'. extract_ansible demo_fsv [''d''] demo_tree [[''x''] \<mapsto> FileNode 0 ''old''] = (Inr (), fs')
     \<and> fs' [''x''] = Some (FileNode 0 ''old'')
     \<and> (\<exists>m. fs' [''d'', ''a''] = Some (FileNode m ''one'')) \<and> (\<exists>m. fs' [''d'', ''t'', ''b''] = Some (FileNode m ''two''))"
proof -
  let ?fs = "[[''x''] \<mapsto> FileNode 0 ''old'']"
  have "\<exists>fs'. extract_ansible demo_fsv [''d''] demo_tree ?fs = (Inr (), fs')"
    by (simp add: demo_tree_def demo_fsv_def create_dir_all_def make_dir_def write_text_def parent_is_dir_def via_Inr_iff Let_def)
  then obtain fs' where ok: "extract_ansible demo_fsv [''d''] demo_tree ?fs = (Inr (), fs')" ..
  have uniq: "distinct (map fst (embedded_files demo_tree))" by (simp add: demo_tree_def)
  note exact = extract_exact [OF ok uniq]
  have "fs' [''x''] = Some (FileNode 0 ''old'')"
    using exact [THEN conjunct2, THEN spec, of "[''x'']"] by (simp add: demo_tree_def)
  moreover have "(\<exists>m. fs' [''d'', ''a''] = Some (FileNode m ''one'')) \<and> (\<exists>m. fs' [''d'', ''t'', ''b''] = Some (FileNode m ''two''))"
    using exact [THEN conjunct1] by (simp add: demo_tree_def)
  ultimately show ?thesis using ok by blast
qed

lemma demo_semver_ok: "semver_ok demo_semver (\<lambda>a b c. (a, b, c))"
proof -
  have dots: "CHR ''.'' \<notin> set (show_nat n)" for n
    using show_nat_digit by (force simp: ascii_digit_def)
  have chars: "map char_of (scalars s) = s" for s by (simp add: scalars_def comp_def)
  have "split_at (CHR ''.'') (ver3 a b c) = [show_nat a, show_nat b, show_nat c]" for a b c
    using dots by (simp add: ver3_def ver2_def split_at_sep split_at_plain)
  moreover have "split_at (CHR ''.'') (ver2 a b) = [show_nat a, show_nat b]" for a b
    using dots by (simp add: ver2_def split_at_sep split_at_plain)
  moreover have "parse_unsigned (2 ^ 64 - 1) (show_nat n) = Some n" if "n < 2 ^ 64" for n
    using that by (intro parse_show) simp
  ultimately show ?thesis
    by (auto simp: semver_ok_def demo_semver_def chars split: option.splits)
qed

theorem ansible_gate_witness:
  "check_ansible (demo_start (''ansible [core 2.19.2]'' @ nl @ ''  config file = None'')) = Inr ()
   \<and> check_ansible (demo_start (''ansible 2.9'' @ nl)) = Inl (VersionLow ''ansible'')"
proof -
  have latest: "ver3 2 19 2 = ''2.19.2''" and oldest: "ver2 2 9 = ''2.9''"
    by (simp_all add: ver3_def ver2_def show_base_def digits.simps digit_char_def char_of_eq_iff)
  have sv: "semver_ok (st_semver (demo_start out)) (\<lambda>a b c. (a, b, c))" for out
    using demo_semver_ok by (simp add: demo_start_def)
  have "check_ansible (demo_start (''ansible [core 2.19.2]'' @ nl @ ''  config file = None'')) = Inr ()"
    by (subst ansible_gate [OF sv, where a = 2 and b = 19 and c = 2 and v = "''2.19.2''" and l = "''ansible [core 2.19.2]''"])
      (simp_all add: latest demo_start_def nl_def)
  moreover have "check_ansible (demo_start (''ansible 2.9'' @ nl)) = Inl (VersionLow ''ansible'')"
    by (subst ansible_gate [OF sv, where a = 2 and b = 9 and c = 0 and v = "''2.9''" and l = "''ansible 2.9''"])
      (simp_all add: oldest demo_start_def nl_def)
  ultimately show ?thesis ..
qed

end
