(* ===== verification/Log_Setup.thy ===== *)
theory Log_Setup
  imports Startup
begin

text \<open>
  \<^verbatim>\<open>src/log.rs\<close>: where log lines go and in which form. The environment chooses; opening the first
  file of the day and the syntax of filters belong to the crates.
\<close>

datatype LogWriter = StandardOutput | DailyFile path string string

record LogLayer =
  ly_writer :: LogWriter
  ly_json :: bool
  ly_close_events :: bool
  ly_filter :: string

record LogEnv =
  le_var :: "string \<Rightarrow> string option"
  le_is_filter :: "string \<Rightarrow> bool"
  le_appender :: "path \<Rightarrow> string \<Rightarrow> string \<Rightarrow> unit fs_call"

definition log_filter :: "LogEnv \<Rightarrow> string" where
  "log_filter env =
     (case le_var env ''RUST_LOG'' of
        Some f \<Rightarrow> if le_is_filter env f then f else ''info''
      | None \<Rightarrow> ''info'')"

text \<open>Only the presence of the two variables of the program counts. The console is never written to as JSON.\<close>

definition log_layers :: "LogEnv \<Rightarrow> path \<Rightarrow> LogLayer list" where
  "log_layers env dir =
     (let layer = \<lambda>w json. \<lparr>ly_writer = w, ly_json = json, ly_close_events = le_var env ''XCPLANE_TIMINGS'' \<noteq> None,
        ly_filter = log_filter env\<rparr>
      in [layer StandardOutput False,
          layer (DailyFile dir ''xcplane'' ''log'') (le_var env ''XCPLANE_JSON_LOG'' \<noteq> None)])"

definition init_log :: "LogEnv \<Rightarrow> path \<Rightarrow> LogLayer list fs_call" where
  "init_log env dir =
     via (le_appender env dir ''xcplane'' ''log'') (\<lambda>_. pure (Inr (log_layers env dir)))"

end
