(* ===== verification/Daemonize.thy ===== *)
theory Daemonize
  imports Daemon_Props Single_Instance Startup_Props Log_Setup
begin

text \<open>
  The daemon as a whole: \<open>daemonize\<close> of \<^verbatim>\<open>src/daemon/core.rs\<close> with \<open>acquire_lock\<close> of
  \<^verbatim>\<open>src/daemon/startup.rs\<close>. It opens its log, checks the workspace, takes the lock, checks the prerequisites, runs
  its cycles, and removes its files when it is shut down.

  A daemon may run forever, so the loop is a partial function with the value \<open>None\<close> for a run that
  does not end. What happens in a cycle is given by its number: the environment, the events the core
  handles in turn, and what the tasks of the cycle have written by its end.
\<close>

section \<open>One cycle to its end\<close>

fun core_event :: "CoreState \<Rightarrow> DaemonEvent \<Rightarrow> CoreStep" where
  "core_event st (Handle env clients cmd) = core_step env clients st cmd"
| "core_event st (Signalled env clients sig) = sigx_watcher env clients st sig"
| "core_event st ev = Goes None (daemon_event st ev)"

text \<open>The command processor; it waits forever when no event makes it return.\<close>

fun command_loop :: "CoreState \<Rightarrow> DaemonEvent list \<Rightarrow> DaemonNext res option" where
  "command_loop st [] = None"
| "command_loop st (ev # evs) =
     (case core_event st ev of
        Goes _ st' \<Rightarrow> command_loop st' evs
      | Returns _ nxt \<Rightarrow> Some (Inr nxt)
      | Fails e \<Rightarrow> Some (Inl e))"

section \<open>The lock, taken by one process\<close>

definition is_unique :: "(LockState, string, unit) call" where
  "is_unique s =
     (case lk_pid s of
        Some c \<Rightarrow> (if pid_answers s c then (Inl ''Daemon is already running'', s) else (Inr (), s\<lparr>lk_pid := None\<rparr>))
      | None \<Rightarrow> (Inr (), s))"

definition socket_unique :: "(LockState, string, unit) call" where
  "socket_unique s =
     (case lk_sock s of
        Some _ \<Rightarrow> (if connects s then (Inl ''Daemon socket is active'', s) else (Inr (), s\<lparr>lk_sock := None\<rparr>))
      | None \<Rightarrow> (Inr (), s))"

definition create_pid_file :: "nat \<Rightarrow> (LockState, string, unit) call" where
  "create_pid_file p s = (Inr (), s\<lparr>lk_pid := Some (Some (int p))\<rparr>)"

text \<open>\<open>UnixListener::bind\<close> first binds, which creates the file, and then listens.\<close>

definition socket_bind :: "nat \<Rightarrow> (LockState, string, unit) call" where
  "socket_bind p s =
     (if lk_sock s = None then (Inr (), moves p Bound (s\<lparr>lk_sock := Some (Some p)\<rparr>)) else (Inl ''Address already in use'', s))"

definition socket_listen :: "nat \<Rightarrow> (LockState, string, unit) call" where
  "socket_listen p s = (Inr (), moves p Holding s)"

definition create_socket :: "nat \<Rightarrow> (LockState, string, unit) call" where
  "create_socket p = via (socket_bind p) (\<lambda>_. socket_listen p)"

definition acquire_lock :: "nat \<Rightarrow> (LockState, string, unit) call" where
  "acquire_lock p =
     via is_unique (\<lambda>_. via socket_unique (\<lambda>_. via (create_pid_file p) (\<lambda>_. create_socket p)))"

section \<open>The whole daemon\<close>

datatype MainError = AtStart StartError | AtLock string | AtCore BoxError | AtExit string

record 'w World =
  wd_fs :: Fs
  wd_geoip :: "Geoip option"
  wd_cf :: 'w
  wd_db :: Db
  wd_lock :: LockState
  wd_cycle :: nat

record ('v, 'w) MainEnv =
  me_log :: LogEnv
  me_start :: "nat \<Rightarrow> ('v, 'w) StartEnv"
  me_core :: "nat \<Rightarrow> 'w CoreEnv"
  me_answers :: "nat \<Rightarrow> TaskEntry \<Rightarrow> SvcSummary option"
  me_events :: "nat \<Rightarrow> DaemonEvent list"
  me_tasks :: "nat \<Rightarrow> Db \<times> 'w \<Rightarrow> Db \<times> 'w"

type_synonym ('w, 'a) main_call = "('w World, MainError, 'a) call"

fun wrap :: "('e \<Rightarrow> MainError) \<Rightarrow> 'e + 'a \<Rightarrow> MainError + 'a" where
  "wrap f (Inl e) = Inl (f e)"
| "wrap f (Inr x) = Inr x"

definition on_disk :: "'a fs_call \<Rightarrow> ('w, 'a) main_call" where
  "on_disk f wd = (let (r, fs) = f (wd_fs wd) in (wrap AtStart r, wd\<lparr>wd_fs := fs\<rparr>))"

definition on_lock :: "(string \<Rightarrow> MainError) \<Rightarrow> (LockState, string, 'a) call \<Rightarrow> ('w, 'a) main_call" where
  "on_lock err f wd = (let (r, l) = f (wd_lock wd) in (wrap err r, wd\<lparr>wd_lock := l\<rparr>))"

definition on_start :: "('w, 'a) start_call \<Rightarrow> ('w, 'a) main_call" where
  "on_start f wd =
     (let (r, (fs, g, w)) = f (wd_fs wd, wd_geoip wd, wd_cf wd)
      in (wrap AtStart r, wd\<lparr>wd_fs := fs, wd_geoip := g, wd_cf := w\<rparr>))"

text \<open>A restart prepares the workspace and checks everything again.\<close>

definition prepare_again :: "('v, 'w) StartEnv \<Rightarrow> ('w, unit) main_call" where
  "prepare_again env =
     via (on_disk (prepare_workspace env)) (\<lambda>ws.
     via (on_disk (validate_workspace env ws)) (\<lambda>_.
     on_start (check_prereq env ws)))"

definition run_cycle :: "('v, 'w) MainEnv \<Rightarrow> DaemonNext \<Rightarrow> 'w World \<Rightarrow> ((MainError + DaemonNext) \<times> 'w World) option" where
  "run_cycle env init wd =
     (let k = wd_cycle wd;
          (r, st) = core_start (me_core env k) init (wd_db wd, wd_cf wd);
          after = (\<lambda>(db, cf). wd\<lparr>wd_db := db, wd_cf := cf, wd_cycle := Suc k\<rparr>) in
      case r of
        Inl e \<Rightarrow> Some (Inl (AtCore e), after st)
      | Inr rc \<Rightarrow> map_option (\<lambda>res. (wrap AtCore res, after (me_tasks env k st)))
          (command_loop (core_state (me_answers env k) rc) (me_events env k)))"

datatype 'w Round = Ended "MainError + unit" "'w World" | Onward DaemonNext "'w World"

text \<open>One pass of the loop around the cycles: a cycle, then what its exit code asks for.\<close>

definition one_round :: "('v, 'w) MainEnv \<Rightarrow> DaemonNext \<Rightarrow> 'w World \<Rightarrow> 'w Round option" where
  "one_round env init wd =
     map_option (\<lambda>(r, wd').
       case r of
         Inl e \<Rightarrow> Ended (Inl e) wd'
       | Inr nxt \<Rightarrow>
           (case outer_step (dn_code nxt) of
              Leave \<Rightarrow> Ended (Inr ()) wd'
            | Fail msg \<Rightarrow> Ended (Inl (AtExit msg)) wd'
            | Again \<Rightarrow> Onward nxt wd'
            | Recheck \<Rightarrow> (case prepare_again (me_start env (wd_cycle wd')) wd' of
                           (Inl e, wd2) \<Rightarrow> Ended (Inl e) wd2
                         | (Inr _, wd2) \<Rightarrow> Onward nxt wd2)))
       (run_cycle env init wd)"

partial_function (option) cycles :: "('v, 'w) MainEnv \<Rightarrow> DaemonNext \<Rightarrow> 'w World \<Rightarrow> ((MainError + unit) \<times> 'w World) option" where
  "cycles env init wd =
     Option.bind (one_round env init wd) (\<lambda>rd.
       case rd of Ended r wd' \<Rightarrow> Some (r, wd') | Onward nxt wd' \<Rightarrow> cycles env nxt wd')"

definition start_daemon :: "LogEnv \<Rightarrow> ('v, 'w) StartEnv \<Rightarrow> WorkSpace \<Rightarrow> nat \<Rightarrow> ('w, unit) main_call" where
  "start_daemon lenv env ws p =
     via (on_disk (init_log lenv (state_dir (ws_dirs ws)))) (\<lambda>_.
     via (on_disk (validate_workspace env ws)) (\<lambda>_.
     via (on_lock AtLock (acquire_lock p)) (\<lambda>_.
     on_start (check_prereq env ws))))"

definition daemonize :: "('v, 'w) MainEnv \<Rightarrow> WorkSpace \<Rightarrow> nat \<Rightarrow> 'w World \<Rightarrow> ((MainError + unit) \<times> 'w World) option" where
  "daemonize env ws p wd =
     (case start_daemon (me_log env) (me_start env (wd_cycle wd)) ws p wd of
        (Inl e, wd1) \<Rightarrow> Some (Inl e, wd1)
      | (Inr _, wd1) \<Rightarrow>
          map_option (\<lambda>(r, wd2). case r of Inl e \<Rightarrow> (Inl e, wd2) | Inr _ \<Rightarrow> on_lock AtExit cleanup wd2)
            (cycles env init_state wd1))"

section \<open>Taking the lock is a run of the protocol\<close>

definition pid_taken :: "LockState \<Rightarrow> bool" where
  "pid_taken s \<longleftrightarrow> (case lk_pid s of Some c \<Rightarrow> pid_answers s c | None \<Rightarrow> False)"

lemma moves_moves [simp]: "moves p a (moves p b s) = moves p a s"
  by (simp add: moves_def)

lemma moves_pc [simp]: "lk_pc (moves p a s) p = a"
  by (simp add: moves_def)

lemma files_moves [simp]: "lk_pid (moves p a s) = lk_pid s" "lk_sock (moves p a s) = lk_sock s"
  "lk_others (moves p a s) = lk_others s"
  "(moves p a s)\<lparr>lk_pid := x\<rparr> = moves p a (s\<lparr>lk_pid := x\<rparr>)" "(moves p a s)\<lparr>lk_sock := y\<rparr> = moves p a (s\<lparr>lk_sock := y\<rparr>)"
  by (simp_all add: moves_def)

lemma connects_pid [simp]: "connects (s\<lparr>lk_pid := x\<rparr>) = connects s"
  by (simp add: connects_def sock_answers_def split: option.split)

lemma acquire_lock_cases:
  "acquire_lock p s =
     (if pid_taken s then (Inl ''Daemon is already running'', s)
      else if connects s then (Inl ''Daemon socket is active'', s\<lparr>lk_pid := None\<rparr>)
      else (Inr (), moves p Holding (s\<lparr>lk_pid := Some (Some (int p)), lk_sock := Some (Some p)\<rparr>)))"
proof -
  have "s\<lparr>lk_pid := x, lk_sock := y, lk_pid := x'\<rparr> = s\<lparr>lk_pid := x', lk_sock := y\<rparr>" for x x' y by (cases s) simp
  moreover have "s\<lparr>lk_sock := y, lk_pid := x\<rparr> = s\<lparr>lk_pid := x, lk_sock := y\<rparr>" for x y by (cases s) simp
  moreover have "lk_pid s = None \<Longrightarrow> s\<lparr>lk_pid := None\<rparr> = s" by (cases s) simp
  moreover have "lk_sock s = None \<Longrightarrow> \<not> connects s" by (simp add: connects_def)
  ultimately show ?thesis
    by (cases "lk_pid s"; cases "lk_sock s")
      (simp_all add: acquire_lock_def via_def is_unique_def socket_unique_def create_pid_file_def create_socket_def
        socket_bind_def socket_listen_def pid_taken_def)
qed

text \<open>The operations of one process, run without interruption, are steps of the concurrent protocol.\<close>

lemma connects_moves: "lk_pc s p \<noteq> Holding \<Longrightarrow> a \<noteq> Holding \<Longrightarrow> connects (moves p a s) = connects s"
  by (auto simp: connects_def sock_answers_def moves_def split: option.split)

lemma pid_answers_moves:
  "lk_pc s p \<notin> {NotYet, Gone} \<Longrightarrow> a \<notin> {NotYet, Gone} \<Longrightarrow> pid_answers (moves p a s) c = pid_answers s c"
  by (auto simp: pid_answers_def pid_alive_def moves_def split: option.split)

lemma pid_phase:
  assumes "lk_pc s p = Started" "\<not> pid_taken s"
  shows "lock_step\<^sup>*\<^sup>* s (moves p LookSock (s\<lparr>lk_pid := None\<rparr>))"
proof (cases "lk_pid s")
  case None
  then have "s\<lparr>lk_pid := None\<rparr> = s" by simp
  then show ?thesis using lock_step.no_pid [OF assms(1) None] by simp
next
  case (Some c)
  have "lock_step s (moves p ReadPid s)" using assms(1) Some by (intro lock_step.has_pid) simp_all
  moreover have "lock_step (moves p ReadPid s) (moves p (Ping c) s)"
    using lock_step.read_pid [of "moves p ReadPid s" p c] Some by simp
  moreover have "lock_step (moves p (Ping c) s) (moves p DropPid s)"
    using lock_step.stale_pid [of "moves p (Ping c) s" p c] assms Some pid_answers_moves [of s p "Ping c" c]
    by (simp add: pid_taken_def)
  moreover have "lock_step (moves p DropPid s) (moves p LookSock (s\<lparr>lk_pid := None\<rparr>))"
    using lock_step.drop_pid [of "moves p DropPid s" p] Some by simp
  ultimately show ?thesis by (meson run_step rtranclp.rtrancl_refl)
qed

lemma sock_phase:
  assumes "\<not> connects s" "lk_pc s p \<noteq> Holding"
  shows "lock_step\<^sup>*\<^sup>* (moves p LookSock s) (moves p PutPid (s\<lparr>lk_sock := None\<rparr>))"
proof (cases "lk_sock s")
  case None
  then have same: "s\<lparr>lk_sock := None\<rparr> = s" by simp
  show ?thesis unfolding same using lock_step.no_sock [of "moves p LookSock s" p] None by simp
next
  case (Some c)
  have "lock_step (moves p LookSock s) (moves p Connecting s)"
    using lock_step.has_sock [of "moves p LookSock s" p] Some by simp
  moreover have "lock_step (moves p Connecting s) (moves p DropSock s)"
    using lock_step.stale_sock [of "moves p Connecting s" p] assms connects_moves [of s p Connecting] by simp
  moreover have "lock_step (moves p DropSock s) (moves p PutPid (s\<lparr>lk_sock := None\<rparr>))"
    using lock_step.drop_sock [of "moves p DropSock s" p] Some by simp
  ultimately show ?thesis by (meson run_step rtranclp.rtrancl_refl)
qed

lemma acquire_is_run:
  assumes "acquire_lock p s = (Inr u, s')" "lk_pc s p = Started"
  shows "lock_step\<^sup>*\<^sup>* s s'"
proof -
  let ?s1 = "s\<lparr>lk_pid := None\<rparr>" and ?s2 = "s\<lparr>lk_pid := None, lk_sock := None\<rparr>"
  let ?s3 = "s\<lparr>lk_pid := Some (Some (int p)), lk_sock := None\<rparr>"
  let ?s4 = "moves p Bound (s\<lparr>lk_pid := Some (Some (int p)), lk_sock := Some (Some p)\<rparr>)"
  have a: "\<not> pid_taken s" "\<not> connects s"
    "s' = moves p Holding (s\<lparr>lk_pid := Some (Some (int p)), lk_sock := Some (Some p)\<rparr>)"
    using assms(1) by (auto simp: acquire_lock_cases split: if_splits)
  have "lock_step\<^sup>*\<^sup>* (moves p LookSock ?s1) (moves p PutPid ?s2)"
    using sock_phase [of ?s1 p] a(2) assms(2) by simp
  with pid_phase [OF assms(2) a(1)] have "lock_step\<^sup>*\<^sup>* s (moves p PutPid ?s2)" by (rule rtranclp_trans)
  moreover have "lock_step (moves p PutPid ?s2) (moves p Binding ?s3)"
    using lock_step.put_pid [of "moves p PutPid ?s2" p] by (cases s) (simp add: moves_def)
  moreover have "lock_step (moves p Binding ?s3) ?s4"
    using lock_step.bind [of "moves p Binding ?s3" p] by (simp add: moves_def)
  moreover have "lock_step ?s4 s'"
    using lock_step.listen [of ?s4 p] by (simp add: a(3))
  ultimately show ?thesis by (meson run_step)
qed

text \<open>
  A left-over PID file that happens to hold the number of the starting process itself locks the daemon
  out: the number answers, because it is the process that asks.
\<close>

lemma own_pid_locks_out:
  assumes "lk_pid s = Some (Some (int p))" "lk_pc s p = Started"
  shows "\<exists>e. acquire_lock p s = (Inl e, s)"
  using assms by (simp add: acquire_lock_cases pid_taken_def pid_answers_def pid_alive_def)

text \<open>Where nobody else is alive and no other process has the number in the file, only that can go wrong.\<close>

lemma acquire_alone:
  assumes "\<And>x. x \<noteq> q \<Longrightarrow> lk_pc s x \<in> {NotYet, Gone}" "lk_pc s q = Started"
    "\<And>n. lk_pid s = Some (Some n) \<Longrightarrow> n \<noteq> int q \<and> n \<notin> lk_others s"
  shows "fst (acquire_lock q s) = Inr ()"
proof -
  have "\<not> pid_answers s (Some n)" if n: "lk_pid s = Some (Some n)" for n
  proof
    assume "pid_answers s (Some n)"
    then have alive: "0 \<le> n" "pid_alive s (nat n)" using assms(3) [OF n] by (simp_all add: pid_answers_def)
    then have "nat n \<noteq> q" using assms(3) [OF n] by auto
    with alive(2) show False using assms(1) [of "nat n"] by (auto simp: pid_alive_def)
  qed
  then have "\<not> pid_taken s" by (auto simp: pid_taken_def pid_answers_def split: option.splits)
  moreover have "\<not> connects s"
    using assms(1) [of "the (the (lk_sock s))"] assms(2)
    by (cases "the (the (lk_sock s)) = q") (auto simp: connects_def sock_answers_def split: option.splits)
  ultimately show ?thesis by (simp add: acquire_lock_cases)
qed

section \<open>Termination\<close>

primrec rounds :: "('v, 'w) MainEnv \<Rightarrow> nat \<Rightarrow> DaemonNext \<Rightarrow> 'w World \<Rightarrow> (DaemonNext \<times> 'w World) option" where
  "rounds env 0 init wd = Some (init, wd)"
| "rounds env (Suc n) init wd =
     (case one_round env init wd of Some (Onward nxt wd') \<Rightarrow> rounds env n nxt wd' | _ \<Rightarrow> None)"

lemma rounds_cycles:
  "rounds env n init wd = Some (nxt, wd1) \<Longrightarrow> one_round env nxt wd1 = Some (Ended r wd2) \<Longrightarrow> cycles env init wd = Some (r, wd2)"
proof (induction n arbitrary: init wd)
  case 0
  then show ?case by (simp add: cycles.simps [of env nxt wd1])
next
  case (Suc n)
  then show ?case by (auto simp: cycles.simps [of env init wd] split: option.splits Round.splits)
qed

lemma cycles_rounds:
  assumes "cycles env init wd = Some (r, wd2)"
  shows "\<exists>n nxt wd1. rounds env n init wd = Some (nxt, wd1) \<and> one_round env nxt wd1 = Some (Ended r wd2)"
proof -
  have "\<And>x. cycles env init wd = Some x \<Longrightarrow>
      \<exists>n nxt wd1. rounds env n init wd = Some (nxt, wd1) \<and> one_round env nxt wd1 = Some (Ended (fst x) (snd x))"
  proof (rule cycles.raw_induct [where P = "\<lambda>env init wd x. \<exists>n nxt wd1. rounds env n init wd = Some (nxt, wd1)
      \<and> one_round env nxt wd1 = Some (Ended (fst x) (snd x))"])
    fix cyc env init wd x
    assume ih: "\<And>env init wd x. cyc env init wd = Some x \<Longrightarrow>
        \<exists>n nxt wd1. rounds env n init wd = Some (nxt, wd1) \<and> one_round env nxt wd1 = Some (Ended (fst x) (snd x))"
      and step: "Option.bind (one_round env init wd) (\<lambda>rd. case rd of Ended r wd' \<Rightarrow> Some (r, wd') | Onward nxt wd' \<Rightarrow> cyc env nxt wd') = Some x"
    from step obtain rd where rd: "one_round env init wd = Some rd"
      "(case rd of Ended r wd' \<Rightarrow> Some (r, wd') | Onward nxt wd' \<Rightarrow> cyc env nxt wd') = Some x"
      by (auto simp: bind_eq_Some_conv)
    show "\<exists>n nxt wd1. rounds env n init wd = Some (nxt, wd1) \<and> one_round env nxt wd1 = Some (Ended (fst x) (snd x))"
    proof (cases rd)
      case (Ended r' w)
      then show ?thesis using rd by (intro exI [of _ 0]) auto
    next
      case (Onward n' w)
      then obtain n nxt wd1 where "rounds env n n' w = Some (nxt, wd1)" "one_round env nxt wd1 = Some (Ended (fst x) (snd x))"
        using rd(2) ih [of env n' w x] by auto
      then show ?thesis using rd(1) Onward by (intro exI [of _ "Suc n"]) auto
    qed
  qed simp
  then show ?thesis using assms by fastforce
qed

text \<open>
  What a cycle returns, when it returns: the exit of a shutdown, or one of the four codes that ask for
  another cycle. No cycle returns the code of an error or an unknown one.
\<close>

lemma core_event_code:
  assumes "core_event st ev = Returns r nxt"
  shows "nxt = shutdown_exit \<or> dn_code nxt \<in> {20, 21, 22, 23}"
proof -
  have step: "nxt = shutdown_exit \<or> dn_code nxt \<in> {20, 21, 22, 23}" if "core_step env clients st cmd = Returns q nxt"
    for env clients cmd q
    using that
    by (cases cmd) (auto simp: core_step_def check_and_backup_def Let_def EXIT_RESTART_def EXIT_RELOAD_def EXIT_REMAP_def
        EXIT_REBASE_def split: sum.splits option.splits prod.splits)
  show ?thesis
    using assms step by (cases ev) (auto simp: sigx_watcher_def split: if_splits CoreStep.splits)
qed

lemma command_loop_code:
  "command_loop st evs = Some (Inr nxt) \<Longrightarrow> nxt = shutdown_exit \<or> dn_code nxt \<in> {20, 21, 22, 23}"
  by (induction evs arbitrary: st) (auto split: CoreStep.splits dest: core_event_code)

lemma run_cycle_code:
  assumes "run_cycle env init wd = Some (Inr nxt, wd1)"
  shows "nxt = shutdown_exit \<or> dn_code nxt \<in> {20, 21, 22, 23}"
  using assms
  by (auto simp: run_cycle_def Let_def split: prod.splits sum.splits elim!: wrap.elims dest!: command_loop_code)

text \<open>
  The life of the daemon from a cycle on, in the large: the run of cycles ends with this result in this world.
  The codes are those of \<^verbatim>\<open>src/constants.rs\<close>: 20 for a Restart, 21 to 23 for a Reload, a Remap
  and a Rebase.
\<close>

inductive process_ends :: "('v, 'w) MainEnv \<Rightarrow> DaemonNext \<Rightarrow> 'w World \<Rightarrow> MainError + unit \<Rightarrow> 'w World \<Rightarrow> bool"
  for env where
  cycle_fails: "run_cycle env init wd = Some (Inl e, wd1) \<Longrightarrow> process_ends env init wd (Inl e) wd1"
| shut_down: "run_cycle env init wd = Some (Inr shutdown_exit, wd1) \<Longrightarrow> process_ends env init wd (Inr ()) wd1"
| restart_fails: "run_cycle env init wd = Some (Inr nxt, wd1) \<Longrightarrow> dn_code nxt = 20 \<Longrightarrow>
    prepare_again (me_start env (wd_cycle wd1)) wd1 = (Inl e, wd2) \<Longrightarrow> process_ends env init wd (Inl e) wd2"
| restarts: "run_cycle env init wd = Some (Inr nxt, wd1) \<Longrightarrow> dn_code nxt = 20 \<Longrightarrow>
    prepare_again (me_start env (wd_cycle wd1)) wd1 = (Inr u, wd2) \<Longrightarrow> process_ends env nxt wd2 r wd3 \<Longrightarrow>
    process_ends env init wd r wd3"
| goes_on: "run_cycle env init wd = Some (Inr nxt, wd1) \<Longrightarrow> dn_code nxt \<in> {21, 22, 23} \<Longrightarrow>
    process_ends env nxt wd1 r wd2 \<Longrightarrow> process_ends env init wd r wd2"

lemmas exit_codes = outer_step_def EXIT_OK_def EXIT_ERROR_def EXIT_RESTART_def EXIT_RELOAD_def EXIT_REMAP_def
  EXIT_REBASE_def shutdown_exit_def

lemma process_ends_cycles: "process_ends env init wd r wd' \<Longrightarrow> cycles env init wd = Some (r, wd')"
  by (induction rule: process_ends.induct)
    (subst cycles.simps, fastforce simp: one_round_def exit_codes)+

lemma round_ends:
  assumes "one_round env init wd = Some (Ended r wd')"
  shows "process_ends env init wd r wd'"
proof -
  obtain q wd1 where cyc: "run_cycle env init wd = Some (q, wd1)" using assms by (auto simp: one_round_def)
  show ?thesis
  proof (cases q)
    case (Inl e)
    then show ?thesis using assms cyc by (auto simp: one_round_def intro: process_ends.cycle_fails)
  next
    case (Inr nxt)
    then consider "nxt = shutdown_exit" | "dn_code nxt = 20" | "dn_code nxt \<in> {21, 22, 23}"
      using run_cycle_code cyc by blast
    then show ?thesis
    proof cases
      case 1
      then have "r = Inr ()" "wd' = wd1" using assms cyc Inr by (auto simp: one_round_def exit_codes)
      with 1 cyc Inr show ?thesis by (auto intro: process_ends.shut_down)
    next
      case 2
      then obtain e where "r = Inl e" "prepare_again (me_start env (wd_cycle wd1)) wd1 = (Inl e, wd')"
        using assms cyc Inr by (auto simp: one_round_def exit_codes split: prod.splits sum.splits)
      with 2 cyc Inr show ?thesis by (auto intro: process_ends.restart_fails)
    next
      case 3
      then show ?thesis using assms cyc Inr by (auto simp: one_round_def exit_codes)
    qed
  qed
qed

lemma round_goes_on:
  assumes "one_round env init wd = Some (Onward nxt wd')" "process_ends env nxt wd' r wd2"
  shows "process_ends env init wd r wd2"
proof -
  obtain q wd1 where cyc: "run_cycle env init wd = Some (q, wd1)" using assms by (auto simp: one_round_def)
  obtain n where n: "q = Inr n" using assms(1) cyc by (cases q) (auto simp: one_round_def)
  then consider "n = shutdown_exit" | "dn_code n = 20" | "dn_code n \<in> {21, 22, 23}"
    using run_cycle_code cyc by blast
  then show ?thesis
  proof cases
    case 1
    then show ?thesis using assms(1) cyc n by (auto simp: one_round_def exit_codes)
  next
    case 2
    then have "n = nxt" "prepare_again (me_start env (wd_cycle wd1)) wd1 = (Inr (), wd')"
      using assms cyc n by (auto simp: one_round_def exit_codes split: prod.splits sum.splits)
    with 2 cyc n assms(2) show ?thesis by (auto intro: process_ends.restarts)
  next
    case 3
    then have "n = nxt" "wd1 = wd'" using assms cyc n by (auto simp: one_round_def exit_codes)
    with 3 cyc n assms(2) show ?thesis by (auto intro: process_ends.goes_on)
  qed
qed

lemma cycles_process_ends: "cycles env init wd = Some (r, wd') \<longleftrightarrow> process_ends env init wd r wd'"
proof
  assume "cycles env init wd = Some (r, wd')"
  then obtain n nxt wd1 where run: "rounds env n init wd = Some (nxt, wd1)" "one_round env nxt wd1 = Some (Ended r wd')"
    using cycles_rounds by blast
  from run(1) show "process_ends env init wd r wd'"
  proof (induction n arbitrary: init wd)
    case 0
    then show ?case using round_ends [OF run(2)] by simp
  next
    case (Suc n)
    then show ?case by (auto split: option.splits Round.splits intro: round_goes_on)
  qed
qed (rule process_ends_cycles)

text \<open>
  C36. When the daemon ends, and how: it returns exactly if its start fails, with that error, or if after
  finitely many cycles, each of which ended with a Reload, a Remap, a Rebase, or a Restart after which the
  workspace and the prerequisites were found in order again, a cycle fails, or a check after a Restart fails,
  with that error, or a cycle ends for a shutdown, and then the result is that of removing its files. No cycle
  ever makes it end with the exit code of an error or with an unknown one.
\<close>

theorem daemon_ends_iff:
  "daemonize env ws p wd = Some (r, wd') \<longleftrightarrow>
     (case start_daemon (me_log env) (me_start env (wd_cycle wd)) ws p wd of
        (Inl e, wd1) \<Rightarrow> r = Inl e \<and> wd' = wd1
      | (Inr _, wd1) \<Rightarrow>
          (\<exists>e. process_ends env init_state wd1 (Inl e) wd' \<and> r = Inl e)
          \<or> (\<exists>wd2. process_ends env init_state wd1 (Inr ()) wd2 \<and> on_lock AtExit cleanup wd2 = (r, wd')))"
proof (cases "start_daemon (me_log env) (me_start env (wd_cycle wd)) ws p wd")
  case (Pair q wd1)
  show ?thesis
  proof (cases q)
    case (Inl e)
    then show ?thesis using Pair by (auto simp: daemonize_def)
  next
    case (Inr u)
    have "daemonize env ws p wd = Some (r, wd') \<longleftrightarrow> (\<exists>x wd2. cycles env init_state wd1 = Some (x, wd2)
        \<and> (case x of Inl e \<Rightarrow> (Inl e, wd2) | Inr _ \<Rightarrow> on_lock AtExit cleanup wd2) = (r, wd'))"
      using Pair Inr by (auto simp: daemonize_def)
    also have "\<dots> \<longleftrightarrow> (\<exists>x wd2. process_ends env init_state wd1 x wd2
        \<and> (case x of Inl e \<Rightarrow> (Inl e, wd2) | Inr _ \<Rightarrow> on_lock AtExit cleanup wd2) = (r, wd'))"
      by (simp only: cycles_process_ends)
    also have "\<dots> \<longleftrightarrow> (\<exists>e. process_ends env init_state wd1 (Inl e) wd' \<and> r = Inl e)
        \<or> (\<exists>wd2. process_ends env init_state wd1 (Inr ()) wd2 \<and> on_lock AtExit cleanup wd2 = (r, wd'))"
      by (auto split: sum.splits) (metis (full_types) old.unit.exhaust sum.exhaust)+
    finally show ?thesis using Pair Inr by simp
  qed
qed

section \<open>Starting again\<close>

lemma wd_lock_frame:
  "wd_lock (snd (on_disk f wd)) = wd_lock wd" "wd_lock (snd (on_start g wd)) = wd_lock wd"
  by (simp_all add: on_disk_def on_start_def Let_def split: prod.split)

lemma wd_lock_via:
  "wd_lock (snd (m wd)) = wd_lock wd \<Longrightarrow> (\<And>x wd. wd_lock (snd (k x wd)) = wd_lock wd) \<Longrightarrow>
     wd_lock (snd (via m k wd)) = wd_lock wd"
  by (cases "m wd"; cases "fst (m wd)") (auto simp: via_def)

lemma wd_lock_prepare: "wd_lock (snd (prepare_again env wd)) = wd_lock wd"
  unfolding prepare_again_def by (intro wd_lock_via wd_lock_frame)

lemma prepare_again_lock: "prepare_again env wd = (r, wd') \<Longrightarrow> wd_lock wd' = wd_lock wd"
  using wd_lock_prepare [of env wd] by simp

lemma run_cycle_lock: "run_cycle env init wd = Some (r, wd') \<Longrightarrow> wd_lock wd' = wd_lock wd"
  by (auto simp: run_cycle_def Let_def split: prod.splits sum.splits)

fun round_world :: "'w Round \<Rightarrow> 'w World" where
  "round_world (Ended _ w) = w"
| "round_world (Onward _ w) = w"

lemma one_round_lock:
  assumes "one_round env init wd = Some rd"
  shows "wd_lock (round_world rd) = wd_lock wd"
proof -
  from assms obtain q w1 where q: "run_cycle env init wd = Some (q, w1)" by (auto simp: one_round_def)
  note same = run_cycle_lock [OF q]
  obtain q2 w2 where again: "prepare_again (me_start env (wd_cycle w1)) w1 = (q2, w2)" by force
  note same2 = prepare_again_lock [OF again]
  show ?thesis
  proof (cases q)
    case (Inl e)
    then show ?thesis using assms q same by (auto simp: one_round_def)
  next
    case (Inr nxt)
    then show ?thesis using assms q same again same2
      by (cases "outer_step (dn_code nxt)"; cases q2) (auto simp: one_round_def)
  qed
qed

lemma rounds_lock: "rounds env n init wd = Some (nxt, wd') \<Longrightarrow> wd_lock wd' = wd_lock wd"
  by (induction n arbitrary: init wd) (auto split: option.splits Round.splits dest: one_round_lock)

lemma cycles_lock: "cycles env init wd = Some (r, wd') \<Longrightarrow> wd_lock wd' = wd_lock wd"
  using cycles_rounds [of env init wd r wd'] rounds_lock one_round_lock round_world.simps(1) by metis

text \<open>
  After its start the daemon either holds the lock, or the PID file is absent or the old one, and
  nobody but the daemon itself is alive.
\<close>

definition own_files :: "nat \<Rightarrow> LockState \<Rightarrow> LockState \<Rightarrow> bool" where
  "own_files p l l' \<longleftrightarrow> lk_pid l' \<in> {None, lk_pid l, Some (Some (int p))} \<and> (\<forall>x. x \<noteq> p \<longrightarrow> lk_pc l' x = lk_pc l x)
     \<and> lk_others l' = lk_others l"

lemma own_files_acquire: "own_files p l (snd (acquire_lock p l))"
  by (simp add: acquire_lock_cases own_files_def moves_def)

lemma on_lock_lock: "wd_lock (snd (on_lock err f wd)) = snd (f (wd_lock wd))"
  by (simp add: on_lock_def Let_def split: prod.split)

lemma start_daemon_lock:
  assumes "start_daemon lenv env ws p wd = (r, wd')"
  shows "own_files p (wd_lock wd) (wd_lock wd')"
    and "r = Inr u \<Longrightarrow> lk_pid (wd_lock wd') = Some (Some (int p)) \<and> lk_sock (wd_lock wd') = Some (Some p)"
proof -
  obtain r0 wd0 where 0: "on_disk (init_log lenv (state_dir (ws_dirs ws))) wd = (r0, wd0)" by force
  obtain r1 wd1 where 1: "on_disk (validate_workspace env ws) wd0 = (r1, wd1)" by force
  obtain r2 wd2 where 2: "on_lock AtLock (acquire_lock p) wd1 = (r2, wd2)" by force
  obtain r3 wd3 where 3: "on_start (check_prereq env ws) wd2 = (r3, wd3)" by force
  have l: "wd_lock wd0 = wd_lock wd" "wd_lock wd1 = wd_lock wd" "wd_lock wd2 = snd (acquire_lock p (wd_lock wd))" "wd_lock wd3 = wd_lock wd2"
    using wd_lock_frame(1) [of "init_log lenv (state_dir (ws_dirs ws))" wd] wd_lock_frame(1) [of "validate_workspace env ws" wd0]
      on_lock_lock [of AtLock "acquire_lock p" wd1] wd_lock_frame(2) [of "check_prereq env ws" wd2] 0 1 2 3 by simp_all
  have "wd_lock wd' \<in> {wd_lock wd, snd (acquire_lock p (wd_lock wd))}"
    using assms 0 1 2 3 l by (cases r0; cases r1; cases r2) (auto simp: start_daemon_def via_def)
  moreover have "own_files p (wd_lock wd) (wd_lock wd)" by (simp add: own_files_def)
  ultimately show "own_files p (wd_lock wd) (wd_lock wd')" using own_files_acquire by auto
  assume "r = Inr u"
  then have "r2 = Inr ()" "wd' = wd3" using assms 0 1 2 3 by (cases r0; cases r1; cases r2; auto simp: start_daemon_def via_def)+
  moreover from this(1) have "fst (acquire_lock p (wd_lock wd)) = Inr ()"
    using 2 l(2) by (cases "acquire_lock p (wd_lock wd1)"; cases "fst (acquire_lock p (wd_lock wd1))") (auto simp: on_lock_def)
  ultimately show "lk_pid (wd_lock wd') = Some (Some (int p)) \<and> lk_sock (wd_lock wd') = Some (Some p)"
    using l by (auto simp: acquire_lock_cases moves_def split: if_splits)
qed

lemma daemonize_lock:
  assumes "daemonize env ws p wd = Some (r, wd')"
  shows "own_files p (wd_lock wd) (wd_lock wd')" "r = Inr () \<Longrightarrow> lk_pid (wd_lock wd') = None \<and> lk_sock (wd_lock wd') = None"
proof -
  obtain q wd1 where start: "start_daemon (me_log env) (me_start env (wd_cycle wd)) ws p wd = (q, wd1)" by force
  note own = start_daemon_lock [OF start]
  have "own_files p (wd_lock wd) (wd_lock wd') \<and> (r = Inr () \<longrightarrow> lk_pid (wd_lock wd') = None \<and> lk_sock (wd_lock wd') = None)"
  proof (cases q)
    case (Inl e)
    then show ?thesis using assms start own(1) by (auto simp: daemonize_def)
  next
    case (Inr u)
    then obtain q2 wd2 where c: "cycles env init_state wd1 = Some (q2, wd2)"
      and wd': "(r, wd') = (case q2 of Inl e \<Rightarrow> (Inl e, wd2) | Inr _ \<Rightarrow> on_lock AtExit cleanup wd2)"
      using assms start by (auto simp: daemonize_def)
    have lock: "wd_lock wd2 = wd_lock wd1" using cycles_lock [OF c] .
    then have "cleanup (wd_lock wd2) = (Inr (), (wd_lock wd1)\<lparr>lk_pid := None, lk_sock := None\<rparr>)"
      using own(2) Inr by (simp add: cleanup_def)
    then show ?thesis
      using wd' own(1) lock by (cases q2) (auto simp: on_lock_def own_files_def)
  qed
  then show "own_files p (wd_lock wd) (wd_lock wd')"
    "r = Inr () \<Longrightarrow> lk_pid (wd_lock wd') = None \<and> lk_sock (wd_lock wd') = None" by simp_all
qed

text \<open>
  C37. However the daemon ends, it can be started again: after a shutdown both of its files are gone,
  and after any failure what it leaves behind does not keep the next process with another number from
  taking the lock, as long as no unrelated process has the number that is left in the PID file.
\<close>

theorem daemon_restartable:
  assumes "daemonize env ws p wd = Some (r, wd')"
    and "\<forall>x. x \<noteq> p \<longrightarrow> lk_pc (wd_lock wd) x \<in> {NotYet, Gone}"
    and "q \<noteq> p" "lk_pid (wd_lock wd) \<noteq> Some (Some (int q))"
    and "int p \<notin> lk_others (wd_lock wd)" "\<forall>n. lk_pid (wd_lock wd) = Some (Some n) \<longrightarrow> n \<notin> lk_others (wd_lock wd)"
  shows "fst (acquire_lock q (moves q Started (moves p Gone (wd_lock wd')))) = Inr ()
    \<and> (r = Inr () \<longrightarrow> lk_pid (wd_lock wd') = None \<and> lk_sock (wd_lock wd') = None)"
proof
  note d = daemonize_lock [OF assms(1)]
  show "fst (acquire_lock q (moves q Started (moves p Gone (wd_lock wd')))) = Inr ()"
    using d(1) assms(2-6) by (intro acquire_alone) (auto simp: own_files_def moves_def)
  show "r = Inr () \<longrightarrow> lk_pid (wd_lock wd') = None \<and> lk_sock (wd_lock wd') = None" using d(2) by blast
qed

text \<open>A shutdown, whatever commands and signals came before it in its cycle, ends the daemon regularly.\<close>

lemma command_loop_shutdown:
  "command_loop st evs = None \<Longrightarrow> command_loop st (evs @ [Handle e cl DShutdown]) = Some (Inr shutdown_exit)"
  by (induction evs arbitrary: st) (auto simp: core_step_def split: CoreStep.splits)

lemma daemon_shuts_down:
  assumes start: "start_daemon (me_log env) (me_start env (wd_cycle wd)) ws p wd = (Inr (), wd1)"
    and core: "core_start (me_core env (wd_cycle wd1)) init_state (wd_db wd1, wd_cf wd1) = (Inr rc, st)"
    and evs: "me_events env (wd_cycle wd1) = evs @ [Handle e cl DShutdown]"
      "command_loop (core_state (me_answers env (wd_cycle wd1)) rc) evs = None"
  shows "\<exists>wd'. daemonize env ws p wd = Some (Inr (), wd')"
proof -
  obtain wd2 where cyc: "run_cycle env init_state wd1 = Some (Inr shutdown_exit, wd2)"
    using core command_loop_shutdown [OF evs(2)] by (auto simp: run_cycle_def Let_def evs(1))
  then have "cycles env init_state wd1 = Some (Inr (), wd2)"
    by (simp add: cycles.simps [of env init_state wd1] one_round_def outer_step_def shutdown_exit_def)
  moreover have "lk_pid (wd_lock wd2) \<noteq> None" "lk_sock (wd_lock wd2) \<noteq> None"
    using start_daemon_lock(2) [OF start] run_cycle_lock [OF cyc] by auto
  ultimately show ?thesis using start by (simp add: daemonize_def on_lock_def cleanup_def)
qed

section \<open>A concrete run\<close>

text \<open>The workspace is fine and the lock is taken, but no client for Cloudflare can be built.\<close>

definition demo_log :: LogEnv where
  "demo_log = \<lparr>le_var = \<lambda>_. None, le_is_filter = \<lambda>_. False, le_appender = \<lambda>_ _ _. pure (Inr ())\<rparr>"

definition demo_main :: "(nat \<times> nat \<times> nat, unit) MainEnv" where
  "demo_main = \<lparr>me_log = demo_log, me_start = \<lambda>_. (demo_start [])\<lparr>st_client := \<lambda>_. Inl (External ''token'')\<rparr>, me_core = undefined,
     me_answers = undefined, me_events = \<lambda>_. [], me_tasks = \<lambda>_. id\<rparr>"

definition demo_world :: "unit World" where
  "demo_world = \<lparr>wd_fs = demo_home, wd_geoip = None, wd_cf = (), wd_db = undefined,
     wd_lock = moves 1 Started (lock_start (Some (Some 9)) (Some None)), wd_cycle = 0\<rparr>"

theorem daemon_restartable_witness:
  "\<exists>wd'. daemonize demo_main demo_ws 1 demo_world = Some (Inl (AtStart (Boxed (External ''token''))), wd')
     \<and> lk_pid (wd_lock wd') = Some (Some (int 1)) \<and> fst (acquire_lock 2 (moves 2 Started (moves 1 Gone (wd_lock wd')))) = Inr ()"
proof -
  let ?env = "(demo_start [])\<lparr>st_client := \<lambda>_. Inl (External ''token'')\<rparr>"
  note home = demo_start_simps via_Inr_iff via_Inl_iff
  have "\<exists>fs. validate_workspace ?env demo_ws demo_home = (Inr (), fs) \<and> fs [''c'', ''cf-auth.toml''] = Some (FileNode 384 ''token'')"
    by (simp add: home validate_workspace_def Let_def restrict_dirs_def check_required_def check_auth_def
        make_dirs_def create_dir_all_def make_dir_def set_permissions_def read_text_def mode_of_def)
  then obtain fs where fs: "validate_workspace ?env demo_ws demo_home = (Inr (), fs)"
    "fs [''c'', ''cf-auth.toml''] = Some (FileNode 384 ''token'')" by blast
  let ?l = "wd_lock demo_world"
  have lock: "acquire_lock 1 ?l = (Inr (), moves 1 Holding (?l\<lparr>lk_pid := Some (Some (int 1)), lk_sock := Some (Some 1)\<rparr>))"
    by (simp add: acquire_lock_cases pid_taken_def lock_simps demo_world_def)
  have pre: "check_prereq ?env demo_ws (fs, None, ()) = (Inl (Boxed (External ''token'')), (fs, None, ()))"
    using fs(2) by (simp add: home check_prereq_def Let_def on_fs_def read_text_def boxed_def)
  obtain wd' where run: "daemonize demo_main demo_ws 1 demo_world = Some (Inl (AtStart (Boxed (External ''token''))), wd')"
    "lk_pid (wd_lock wd') = Some (Some (int 1))"
    using fs(1) lock pre
    by (simp add: daemonize_def start_daemon_def init_log_def demo_log_def pure_def demo_main_def on_disk_def on_lock_def
        on_start_def via_def demo_world_def)
  have "\<forall>x. x \<noteq> 1 \<longrightarrow> lk_pc (wd_lock demo_world) x \<in> {NotYet, Gone}" "lk_pid (wd_lock demo_world) \<noteq> Some (Some (int 2))"
    "lk_others (wd_lock demo_world) = {}"
    by (simp_all add: demo_world_def lock_start_def moves_def)
  from daemon_restartable [OF run(1) this(1) _ this(2)] this(3) run show ?thesis by auto
qed

end
