(* ===== verification/Cli.thy ===== *)
theory Cli
  imports Daemonize Service_Check
begin

text \<open>
  The program as its user calls it: \<^verbatim>\<open>src/main.rs\<close>, and the two ends of the socket in \<^verbatim>\<open>src/cli.rs\<close>.
  A command is one line of JSON; its reply is all that the daemon writes before it closes the
  connection. Encoding and decoding JSON and TOML are parameters, and what is shown is a value.
\<close>

section \<open>Lines and blanks\<close>

text \<open>\<open>read_line\<close>: up to the first line end, which is kept.\<close>

fun read_line :: "string \<Rightarrow> string" where
  "read_line [] = []"
| "read_line (c # cs) = (if c = char_of (10 :: nat) then [c] else c # read_line cs)"

text \<open>\<open>str::trim\<close> cuts whole characters at both ends, which take one to four bytes each.\<close>

definition blank_bytes :: "nat list \<Rightarrow> nat" where
  "blank_bytes cs = sum_list (map len_utf8 (takeWhile white_space cs))"

definition trim_str :: "string \<Rightarrow> string" where
  "trim_str s =
     (let t = drop (blank_bytes (str_chars s)) s
      in take (length t - blank_bytes (rev (str_chars t))) t)"

section \<open>The two ends of the socket\<close>

definition client_request :: "(CliComm \<Rightarrow> string) \<Rightarrow> CliComm \<Rightarrow> string" where
  "client_request enc c = enc c @ [char_of (10 :: nat)]"

text \<open>
  One accepted connection: what the client reads, and what becomes of the core. A line that is not
  UTF-8 or not a command is ignored; a core that fails drops the request, which closes the connection
  without an answer.
\<close>

definition answer_text ::
  "(DaemonReply res \<Rightarrow> string res) \<Rightarrow> (DaemonReply res \<Rightarrow> string res) \<Rightarrow> DaemonReply res option \<Rightarrow> string" where
  "answer_text to_toml to_json r = (case socket_reply to_toml to_json r of None \<Rightarrow> [] | Some body \<Rightarrow> body)"

fun step_reply :: "CoreStep \<Rightarrow> DaemonReply res option" where
  "step_reply (Goes r _) = r"
| "step_reply (Returns r _) = r"
| "step_reply (Fails _) = None"

definition serve_connection ::
  "(string \<Rightarrow> CliComm option) \<Rightarrow> (DaemonReply res \<Rightarrow> string res) \<Rightarrow> (DaemonReply res \<Rightarrow> string res)
     \<Rightarrow> (DaemonComm \<Rightarrow> CoreStep) \<Rightarrow> string \<Rightarrow> string \<times> CoreStep option" where
  "serve_connection parse to_toml to_json core received =
     (let line = read_line received in
      if \<not> valid_utf8 (map of_char line) then ([], None)
      else
        (case socket_request parse (trim_str line) of
           None \<Rightarrow> ([], None)
         | Some cmd \<Rightarrow> (answer_text to_toml to_json (step_reply (core cmd)), Some (core cmd))))"

text \<open>A connection to the socket gives what the daemon answers to what is sent, or fails.\<close>

definition send_socket_command :: "(CliComm \<Rightarrow> string) \<Rightarrow> (string \<Rightarrow> string) res \<Rightarrow> CliComm \<Rightarrow> string res" where
  "send_socket_command enc socket c =
     and_then socket (\<lambda>server. Inr (trim_str (server (client_request enc c))))"

datatype Shown = InPager string | OnStdout string | OnStderr string

definition process_socket_reply :: "CliComm \<Rightarrow> string \<Rightarrow> Shown" where
  "process_socket_reply c reply =
     (case c of
        CliCreds _ \<Rightarrow> InPager reply
      | CliClients \<Rightarrow> InPager reply
      | _ \<Rightarrow> OnStdout (''Received reply from the socket:'' @ nl @ nl @ reply))"

definition check_config :: "Cloud res \<Rightarrow> (BoxError \<Rightarrow> string) \<Rightarrow> Shown list" where
  "check_config cfg show_error =
     [OnStdout ''Checking cloud configuration ...'',
      case cfg of
        Inr _ \<Rightarrow> OnStdout ''The cloud config is Ok.''
      | Inl e \<Rightarrow> OnStderr (''Error in cloud config: '' @ show_error e)]"

section \<open>The program\<close>

datatype MainMode = RunDaemon | CheckConfig | RestoreConfig | AskDaemon CliComm

text \<open>Without a command the program is the daemon.\<close>

definition main_mode :: "CliComm option \<Rightarrow> MainMode" where
  "main_mode arg =
     (case arg of
        None \<Rightarrow> RunDaemon
      | Some CliDaemon \<Rightarrow> RunDaemon
      | Some CliCheck \<Rightarrow> CheckConfig
      | Some CliRestore \<Rightarrow> RestoreConfig
      | Some c \<Rightarrow> AskDaemon c)"

section \<open>A session\<close>

lemma str_chars_ascii: "list_all (\<lambda>c. of_char c < (128 :: nat)) s \<Longrightarrow> str_chars s = map of_char s"
  by (auto simp: str_chars_def list_all_iff intro!: utf8_chars_ascii)

lemma valid_utf8_ascii: "list_all (\<lambda>b. b < 128) bs \<Longrightarrow> valid_utf8 bs"
  by (induction bs) auto

lemma read_line_client: "char_of (10 :: nat) \<notin> set s \<Longrightarrow> read_line (s @ [char_of (10 :: nat)]) = s @ [char_of (10 :: nat)]"
  by (induction s) auto

text \<open>A text of one line, printable at both ends.\<close>

definition plain_line :: "string \<Rightarrow> bool" where
  "plain_line s \<longleftrightarrow> s \<noteq> [] \<and> list_all (\<lambda>c. of_char c < (128 :: nat)) s \<and> char_of (10 :: nat) \<notin> set s
     \<and> \<not> white_space (of_char (hd s)) \<and> \<not> white_space (of_char (last s))"

lemma trim_str_line:
  assumes "plain_line s"
  shows "trim_str (s @ [char_of (10 :: nat)]) = s"
proof -
  let ?t = "s @ [char_of (10 :: nat)]"
  have "list_all (\<lambda>c. of_char c < (128 :: nat)) ?t" using assms by (simp add: plain_line_def)
  then have chars: "str_chars ?t = map of_char s @ [10]" by (simp add: str_chars_ascii)
  have front: "blank_bytes (map of_char s @ [10]) = 0"
    using assms by (cases s) (auto simp: blank_bytes_def plain_line_def)
  have rear: "blank_bytes (rev (map of_char s @ [10])) = 1"
  proof -
    obtain x xs where r: "rev s = x # xs" using assms by (cases "rev s") (auto simp: plain_line_def)
    then have "\<not> white_space (of_char x)" using assms by (metis hd_rev list.sel(1) plain_line_def)
    moreover have "white_space 10" "len_utf8 10 = 1" by (simp_all add: white_space_def len_utf8_def)
    ultimately show ?thesis using r by (simp add: blank_bytes_def rev_map)
  qed
  show ?thesis by (simp add: trim_str_def chars front rear del: rev_append)
qed

text \<open>
  A command typed by the user is the command the daemon handles: whatever it is, apart from the
  three that need no daemon, the core gets exactly its translation, and the user is shown the reply of
  that step, without blanks at its ends; credentials and clients only in the pager.
\<close>

lemma cli_session:
  assumes codec: "plain_line (enc c)" "parse (enc c) = Some c" and mode: "main_mode arg = AskDaemon c"
    and core: "core = core_step env clients st"
  shows "send_socket_command enc (Inr (fst \<circ> serve_connection parse to_toml to_json core)) c
      = Inr (trim_str (answer_text to_toml to_json (step_reply (core_step env clients st (daemon_command c)))))
    \<and> snd (serve_connection parse to_toml to_json core (client_request enc c)) = Some (core_step env clients st (daemon_command c))
    \<and> daemon_command c \<noteq> DUnknown
    \<and> ((\<exists>body. process_socket_reply c reply = InPager body) \<longleftrightarrow> (\<exists>b. daemon_command c = DCredentials b) \<or> daemon_command c = DClients)"
proof -
  have "read_line (client_request enc c) = client_request enc c"
    using codec(1) by (simp add: client_request_def read_line_client plain_line_def)
  moreover have "valid_utf8 (map of_char (client_request enc c))"
    using codec(1) by (auto simp: client_request_def plain_line_def list_all_iff intro!: valid_utf8_ascii)
  moreover from calculation have "socket_request parse (trim_str (read_line (client_request enc c))) = Some (daemon_command c)"
    using codec trim_str_line [OF codec(1)] by (simp add: client_request_def socket_request_def)
  moreover have "daemon_command c \<noteq> DUnknown"
    using mode by (cases c) (auto simp: main_mode_def split: option.splits CliComm.splits)
  moreover have "(\<exists>body. process_socket_reply c reply = InPager body) \<longleftrightarrow> (\<exists>b. daemon_command c = DCredentials b) \<or> daemon_command c = DClients"
    by (cases c) (simp_all add: process_socket_reply_def)
  ultimately show ?thesis by (simp add: send_socket_command_def serve_connection_def core)
qed

section \<open>A concrete session\<close>

definition demo_enc :: "CliComm \<Rightarrow> string" where
  "demo_enc c = (if c = CliShutdown then ''{Shutdown}'' else ''{}'')"

definition demo_dec :: "string \<Rightarrow> CliComm option" where
  "demo_dec s = (if s = ''{Shutdown}'' then Some CliShutdown else None)"

definition demo_session :: "string \<Rightarrow> string \<times> CoreStep option" where
  "demo_session = serve_connection demo_dec (\<lambda>_. Inl UnsuitableCommand) (\<lambda>_. Inl UnsuitableCommand)
     (core_step (demo_check_env (Inl UnsuitableCommand)) (\<lambda>_. Inr []) demo_core)"

lemma cli_session_witness:
  "send_socket_command demo_enc (Inr (fst \<circ> demo_session)) CliShutdown = Inr (trim_str ''Shutting down'')
   \<and> snd (demo_session (client_request demo_enc CliShutdown)) = Some (Returns (Some (Inr (Message ''Shutting down''))) shutdown_exit)"
proof -
  have "plain_line (demo_enc CliShutdown)" "demo_dec (demo_enc CliShutdown) = Some CliShutdown"
    by (simp_all add: demo_enc_def demo_dec_def plain_line_def white_space_def char_of_eq_iff)
  moreover have "main_mode (Some CliShutdown) = AskDaemon CliShutdown" by (simp add: main_mode_def)
  ultimately show ?thesis
    unfolding demo_session_def
    using cli_session [of demo_enc CliShutdown demo_dec "Some CliShutdown" _ "demo_check_env (Inl UnsuitableCommand)"
        "\<lambda>_. Inr []" demo_core, OF _ _ _ refl]
    by (simp add: core_step_def answer_text_def socket_reply_def serialize_pretty_def)
qed

end
