(* ===== verification/Cloud_Toml.thy ===== *)
theory Cloud_Toml
  imports Database_Props Service_Check
begin

text \<open>
  The cloud as TOML: how a declaration is read (\<open>Deserialize\<close> of \<^verbatim>\<open>src/types.rs\<close> with the defaults of
  \<^verbatim>\<open>src/constants.rs\<close>, and \<open>TCloud\<close> of \<^verbatim>\<open>src/cloud.rs\<close>), how a running cloud is written
  (\<open>Serialize\<close>), and the editing of the text in \<open>create_backup\<close> of \<^verbatim>\<open>src/db.rs\<close>.

  A document is a table; a struct is read from a table, whose unknown keys are ignored. What the
  crates decide is the record \<open>TomlRules\<close>: which host names and country codes there are, the text of
  a table (\<open>toml::to_string\<close>), the text of a document that was read and edited (\<open>DocumentMut\<close>, which
  keeps the layout of what it read), and which lists of a written document are arrays of tables. Of
  several errors in one document it is not modelled which is reported.
\<close>

section \<open>Values\<close>

datatype TomlVal =
    VStr string | VInt int | VBool bool | VArr "TomlVal list" | VTab "(string \<times> TomlVal) list" | VOther string

record TomlRules =
  tr_parse :: "string \<Rightarrow> TomlVal res"
  tr_print :: "TomlVal \<Rightarrow> string"
  tr_edited :: "string \<Rightarrow> TomlVal \<Rightarrow> string"
  tr_tables :: "TomlVal list \<Rightarrow> bool"
  tr_host :: "string \<Rightarrow> Host res"
  tr_country :: "TomlVal \<Rightarrow> CountryCode res"
  tr_country_value :: "CountryCode \<Rightarrow> TomlVal"
  tr_kind :: "TomlVal \<Rightarrow> InboundKind res"

definition bad_type :: BoxError where
  "bad_type = External ''invalid type''"

definition str_value :: "TomlVal \<Rightarrow> string res" where
  "str_value v = (case v of VStr s \<Rightarrow> Inr s | _ \<Rightarrow> Inl bad_type)"

definition bool_value :: "TomlVal \<Rightarrow> bool res" where
  "bool_value v = (case v of VBool b \<Rightarrow> Inr b | _ \<Rightarrow> Inl bad_type)"

definition word_value :: "TomlVal \<Rightarrow> ('l :: len word) res" where
  "word_value v =
     (case v of
        VInt n \<Rightarrow> (if 0 \<le> n \<and> n < 2 ^ LENGTH('l) then Inr (word_of_int n) else Inl (External ''invalid value''))
      | _ \<Rightarrow> Inl bad_type)"

definition list_value :: "(TomlVal \<Rightarrow> 'a res) \<Rightarrow> TomlVal \<Rightarrow> 'a list res" where
  "list_value f v = (case v of VArr vs \<Rightarrow> try_map f vs | _ \<Rightarrow> Inl bad_type)"

definition table_value :: "TomlVal \<Rightarrow> (string \<times> TomlVal) list res" where
  "table_value v = (case v of VTab t \<Rightarrow> Inr t | _ \<Rightarrow> Inl bad_type)"

text \<open>A field without a default must be there; one with a default is read if it is there.\<close>

definition needed :: "(string \<times> TomlVal) list \<Rightarrow> string \<Rightarrow> (TomlVal \<Rightarrow> 'a res) \<Rightarrow> 'a res" where
  "needed t k f = and_then (ok_or (map_of t k) (External (''missing field '' @ k))) f"

definition defaulted :: "(string \<times> TomlVal) list \<Rightarrow> string \<Rightarrow> 'a \<Rightarrow> (TomlVal \<Rightarrow> 'a res) \<Rightarrow> 'a res" where
  "defaulted t k d f = (case map_of t k of None \<Rightarrow> Inr d | Some v \<Rightarrow> f v)"

section \<open>Defaults\<close>

definition default_ssh_port :: u16 where "default_ssh_port = SSH_PORT"
definition default_true :: bool where "default_true = True"
definition default_threshold :: u64 where "default_threshold = FIX_THRESHOLD"
definition default_mon_interval :: u64 where "default_mon_interval = SVC_MON_INTERVAL"
definition default_country_code :: CountryCode where "default_country_code = ''US''"
definition default_outbound_block :: "CountryCode list" where "default_outbound_block = [''CN'', ''IR'', ''RU'']"
definition DNS_SUBDOMAIN :: string where "DNS_SUBDOMAIN = ''dns''"
definition UI_SUBDOMAIN :: string where "UI_SUBDOMAIN = ''ui''"
definition SUB_SUBDOMAIN :: string where "SUB_SUBDOMAIN = ''sub''"
definition default_dns_subdomain :: string where "default_dns_subdomain = DNS_SUBDOMAIN"
definition default_ui_subdomain :: string where "default_ui_subdomain = UI_SUBDOMAIN"
definition default_sub_subdomain :: string where "default_sub_subdomain = SUB_SUBDOMAIN"

lemmas server_default_defs = default_ssh_port_def default_true_def default_country_code_def default_outbound_block_def
  DNS_SUBDOMAIN_def UI_SUBDOMAIN_def SUB_SUBDOMAIN_def default_dns_subdomain_def default_ui_subdomain_def default_sub_subdomain_def

definition default_secrets :: Secrets where
  "default_secrets = \<lparr>health_path = [], doh_endpoint = [], xui_username = [], xui_password = [], xui_token = None,
     xui_webpath = [], xui_subpath = [], xui_jsubpath = [], mother_subids = Map.empty\<rparr>"

section \<open>Reading\<close>

definition deserialize_host :: "TomlRules \<Rightarrow> TomlVal \<Rightarrow> Host res" where
  "deserialize_host tr v = and_then (str_value v) (tr_host tr)"

definition ip_value :: "TomlVal \<Rightarrow> IpAddr res" where
  "ip_value v = and_then (str_value v) (\<lambda>s. ok_or (parse_ip s) (External ''invalid IP address syntax''))"

definition state_value :: "TomlVal \<Rightarrow> ServerState res" where
  "state_value v = and_then (str_value v) (\<lambda>s. ok_or (state_deserialize s) (External ''Invalid server state''))"

text \<open>A variant is read from its name; the other forms the format has for it are left to the crate.\<close>

definition kind_value :: "TomlRules \<Rightarrow> TomlVal \<Rightarrow> InboundKind res" where
  "kind_value tr v = (case v of VStr s \<Rightarrow> ok_or (kind_from_str s) (External ''unknown variant'') | _ \<Rightarrow> tr_kind tr v)"

definition read_inbound :: "TomlRules \<Rightarrow> TomlVal \<Rightarrow> Inbound res" where
  "read_inbound tr v =
     and_then (table_value v) (\<lambda>t.
     and_then (needed t ''name'' str_value) (\<lambda>nm.
     and_then (needed t ''port'' word_value) (\<lambda>port.
     and_then (defaulted t ''kind'' VlessXhttpReality (kind_value tr)) (\<lambda>kind.
     and_then (needed t ''total'' word_value) (\<lambda>total.
     and_then (defaulted t ''traffic'' 0 word_value) (\<lambda>traffic.
     and_then (defaulted t ''expiry'' 0 word_value) (\<lambda>expiry.
     and_then (defaulted t ''comment'' [] str_value) (\<lambda>comment.
     Inr \<lparr>inb_name = nm, inb_port = port, inb_kind = kind, inb_total = total, inb_traffic = traffic,
          inb_expiry = expiry, inb_comment = comment\<rparr>))))))))"

definition read_server :: "TomlRules \<Rightarrow> TomlVal \<Rightarrow> KetServer res" where
  "read_server tr v =
     and_then (table_value v) (\<lambda>t.
     and_then (needed t ''name'' str_value) (\<lambda>nm.
     and_then (needed t ''ip'' ip_value) (\<lambda>ip.
     and_then (needed t ''domain'' (deserialize_host tr)) (\<lambda>domain.
     and_then (defaulted t ''region'' default_country_code (tr_country tr)) (\<lambda>region.
     and_then (defaulted t ''state'' Offgrid state_value) (\<lambda>state.
     and_then (defaulted t ''quota'' 0 word_value) (\<lambda>quota.
     and_then (defaulted t ''enabled'' default_true bool_value) (\<lambda>enabled.
     and_then (defaulted t ''ssh-port'' default_ssh_port word_value) (\<lambda>ssh_port.
     and_then (defaulted t ''dns-subdomain'' default_dns_subdomain str_value) (\<lambda>dns.
     and_then (defaulted t ''ui-subdomain'' default_ui_subdomain str_value) (\<lambda>ui.
     and_then (defaulted t ''sub-subdomain'' default_sub_subdomain str_value) (\<lambda>sub.
     and_then (defaulted t ''cloudflare-proxied'' False bool_value) (\<lambda>proxied.
     and_then (defaulted t ''inbounds'' [] (list_value (read_inbound tr))) (\<lambda>inbounds.
     and_then (defaulted t ''outbound-block'' default_outbound_block (list_value (tr_country tr))) (\<lambda>block.
     Inr \<lparr>srv_name = nm, srv_ip = ip, srv_domain = domain, srv_region = region, srv_state = state, srv_quota = quota,
          srv_enabled = enabled, srv_ssh_port = ssh_port, srv_dns_subdomain = dns, srv_ui_subdomain = ui,
          srv_sub_subdomain = sub, srv_cloudflare_proxied = proxied, srv_inbounds = inbounds, srv_outbound_block = block,
          srv_ansible_conn = None, srv_secrets = default_secrets, srv_cfstate = None, srv_xui = None\<rparr>)))))))))))))))"

definition read_settings :: "TomlRules \<Rightarrow> TomlVal \<Rightarrow> CloudSettings res" where
  "read_settings tr v =
     and_then (table_value v) (\<lambda>t.
     and_then (needed t ''inbound-set'' (list_value (read_inbound tr))) (\<lambda>ins.
     and_then (defaulted t ''auto-fix'' default_true bool_value) (\<lambda>fix.
     and_then (defaulted t ''fix-threshold'' default_threshold word_value) (\<lambda>threshold.
     and_then (defaulted t ''monitor-interval'' default_mon_interval word_value) (\<lambda>interval.
     Inr \<lparr>inbound_set = ins, auto_fix = fix, fix_threshold = threshold, monitor_interval = interval\<rparr>)))))"

definition read_cloud :: "TomlRules \<Rightarrow> TomlVal \<Rightarrow> Cloud res" where
  "read_cloud tr v =
     and_then (table_value v) (\<lambda>t.
     and_then (needed t ''servers'' (list_value (read_server tr))) (\<lambda>ss.
     and_then (needed t ''settings'' (read_settings tr)) (\<lambda>st.
     Inr \<lparr>servers = ss, settings = st\<rparr>)))"

definition toml_from_str :: "TomlRules \<Rightarrow> string \<Rightarrow> Cloud res" where
  "toml_from_str tr text = and_then (tr_parse tr text) (read_cloud tr)"

section \<open>Writing\<close>

text \<open>An integer beyond 63 bits cannot be written.\<close>

definition ser_u64 :: "u64 \<Rightarrow> TomlVal res" where
  "ser_u64 w = (if uint w < 2 ^ 63 then Inr (VInt (uint w)) else Inl (External ''out-of-range value''))"

definition ser_inbound :: "Inbound \<Rightarrow> TomlVal" where
  "ser_inbound i = VTab [(''name'', VStr (inb_name i)), (''port'', VInt (uint (inb_port i))), (''kind'', VStr (kind_to_string (inb_kind i))),
     (''total'', VInt (uint (inb_total i))), (''traffic'', VInt (uint (inb_traffic i))), (''expiry'', VInt (uint (inb_expiry i))),
     (''comment'', VStr (inb_comment i))]"

definition serialize_host :: "Host \<Rightarrow> TomlVal" where
  "serialize_host h = VStr h"

text \<open>The connection, the secrets, the Cloudflare state, the panel and its gate are skipped.\<close>

definition ser_server :: "TomlRules \<Rightarrow> KetServer \<Rightarrow> TomlVal" where
  "ser_server tr s = VTab [(''name'', VStr (srv_name s)), (''ip'', VStr (show_ip (srv_ip s))), (''domain'', serialize_host (srv_domain s)),
     (''region'', tr_country_value tr (srv_region s)), (''state'', VStr (state_to_string (srv_state s))), (''quota'', VInt (uint (srv_quota s))),
     (''enabled'', VBool (srv_enabled s)), (''ssh-port'', VInt (uint (srv_ssh_port s))), (''dns-subdomain'', VStr (srv_dns_subdomain s)),
     (''ui-subdomain'', VStr (srv_ui_subdomain s)), (''sub-subdomain'', VStr (srv_sub_subdomain s)),
     (''cloudflare-proxied'', VBool (srv_cloudflare_proxied s)), (''inbounds'', VArr (map ser_inbound (srv_inbounds s))),
     (''outbound-block'', VArr (map (tr_country_value tr) (srv_outbound_block s)))]"

definition ser_settings :: "CloudSettings \<Rightarrow> TomlVal res" where
  "ser_settings st =
     and_then (ser_u64 (fix_threshold st)) (\<lambda>threshold.
     and_then (ser_u64 (monitor_interval st)) (\<lambda>interval.
     Inr (VTab [(''inbound-set'', VArr (map ser_inbound (inbound_set st))), (''auto-fix'', VBool (auto_fix st)),
       (''fix-threshold'', threshold), (''monitor-interval'', interval)])))"

definition ser_cloud :: "TomlRules \<Rightarrow> Cloud \<Rightarrow> TomlVal res" where
  "ser_cloud tr c =
     and_then (ser_settings (settings c)) (\<lambda>st.
     Inr (VTab [(''servers'', VArr (map (ser_server tr) (servers c))), (''settings'', st)]))"

section \<open>The backup text\<close>

text \<open>
  The printed cloud is read again as a document that can be edited, in which a list is an array of
  tables only if the printer wrote it as one; then the supervisor inbound is taken out of the
  servers.
\<close>

definition put :: "string \<Rightarrow> TomlVal \<Rightarrow> (string \<times> TomlVal) list \<Rightarrow> (string \<times> TomlVal) list" where
  "put k v t = map (\<lambda>(k', v'). if k' = k then (k, v) else (k', v')) t"

definition tables_of :: "TomlRules \<Rightarrow> TomlVal option \<Rightarrow> TomlVal list option" where
  "tables_of tr v = (case v of Some (VArr ts) \<Rightarrow> if tr_tables tr ts then Some ts else None | _ \<Rightarrow> None)"

definition named :: "string \<Rightarrow> TomlVal \<Rightarrow> bool" where
  "named nm v = (case v of VTab t \<Rightarrow> map_of t ''name'' = Some (VStr nm) | _ \<Rightarrow> False)"

definition drop_super_table :: "TomlRules \<Rightarrow> TomlVal \<Rightarrow> TomlVal" where
  "drop_super_table tr v =
     (case v of
        VTab t \<Rightarrow> (case tables_of tr (map_of t ''inbounds'') of
                     Some ins \<Rightarrow> VTab (put ''inbounds'' (VArr (filter (\<lambda>i. \<not> named super_name i) ins)) t)
                   | None \<Rightarrow> v)
      | _ \<Rightarrow> v)"

definition drop_super_toml :: "TomlRules \<Rightarrow> TomlVal \<Rightarrow> TomlVal res" where
  "drop_super_toml tr v =
     and_then (table_value v) (\<lambda>t.
     and_then (ok_or (tables_of tr (map_of t ''servers'')) (External ''servers must be an array of tables'')) (\<lambda>ss.
     Inr (VTab (put ''servers'' (VArr (map (drop_super_table tr) ss)) t))))"

definition backup_text :: "TomlRules \<Rightarrow> Cloud \<Rightarrow> string res" where
  "backup_text tr c =
     and_then (ser_cloud tr c) (\<lambda>v.
     and_then (tr_parse tr (tr_print tr v)) (\<lambda>doc.
     and_then (drop_super_toml tr doc) (\<lambda>doc'. Inr (tr_edited tr (tr_print tr v) doc'))))"

section \<open>What is written is read back\<close>

text \<open>A type that is written as a value and read back; \<open>ok\<close> are the values that can be written.\<close>

locale value_codec =
  fixes enc :: "'a \<Rightarrow> TomlVal" and dec :: "TomlVal \<Rightarrow> 'a res" and ok :: "'a \<Rightarrow> bool"
  assumes dec_enc: "ok x \<Longrightarrow> dec (enc x) = Inr x"
begin

lemma list_dec_enc: "list_all ok xs \<Longrightarrow> list_value dec (VArr (map enc xs)) = Inr xs"
  unfolding list_value_def by (induction xs) (simp_all add: dec_enc)

end

lemma word_value_uint [simp]: "word_value (VInt (uint w)) = Inr w"
  by (simp add: word_value_def uint_lt2p)

interpretation word_codec: value_codec "\<lambda>w :: 'l :: len word. VInt (uint w)" word_value "\<lambda>_. True"
  by unfold_locales simp

lemma value_simps [simp]:
  "str_value (VStr s) = Inr s" "bool_value (VBool b) = Inr b" "table_value (VTab t) = Inr t"
  "needed ((k, v) # t) k f = f v" "k \<noteq> k' \<Longrightarrow> needed ((k', v) # t) k f = needed t k f"
  "defaulted ((k, v) # t) k d f = f v" "k \<noteq> k' \<Longrightarrow> defaulted ((k', v) # t) k d f = defaulted t k d f"
  "defaulted [] k d f = Inr d"
  by (simp_all add: str_value_def bool_value_def table_value_def needed_def defaulted_def)

lemma named_values [simp]:
  "ip_value (VStr (show_ip ip)) = Inr ip" "state_value (VStr (state_to_string st)) = Inr st"
  "kind_value tr (VStr (kind_to_string k)) = Inr k"
  by (simp_all add: ip_value_def state_value_def kind_value_def ip_text.dec_enc state_config.dec_enc kind_text.dec_enc)

interpretation inbound_codec: value_codec ser_inbound "read_inbound tr" "\<lambda>_. True" for tr
  by unfold_locales (simp add: ser_inbound_def read_inbound_def)

text \<open>
  The values a document can hold: texts are UTF-8, integers have 64 bits, no key occurs twice in a
  table, and tables and lists are nested at most \<open>d\<close> deep. The dates and floats that \<open>VOther\<close> stands
  for never occur in a cloud.
\<close>

definition text_ok :: "string \<Rightarrow> bool" where
  "text_ok s \<longleftrightarrow> valid_utf8 (map of_char s)"

fun fits :: "nat \<Rightarrow> TomlVal \<Rightarrow> bool" where
  "fits d (VInt n) \<longleftrightarrow> - (2 ^ 63) \<le> n \<and> n < 2 ^ 63"
| "fits d (VArr vs) \<longleftrightarrow> 0 < d \<and> (\<forall>v \<in> set vs. fits (d - 1) v)"
| "fits d (VTab t) \<longleftrightarrow> 0 < d \<and> distinct (map fst t) \<and> (\<forall>kv \<in> set t. text_ok (fst kv) \<and> fits (d - 1) (snd kv))"
| "fits d (VStr s) \<longleftrightarrow> text_ok s"
| "fits d (VBool _) \<longleftrightarrow> True"
| "fits d (VOther _) \<longleftrightarrow> False"

text \<open>
  Two values that differ at most in the order of the keys of their tables; what is read out of them
  does not depend on it.
\<close>

inductive same_value :: "TomlVal \<Rightarrow> TomlVal \<Rightarrow> bool" where
  "same_value (VStr s) (VStr s)"
| "same_value (VInt n) (VInt n)"
| "same_value (VBool b) (VBool b)"
| "same_value (VOther s) (VOther s)"
| "list_all2 same_value vs ws \<Longrightarrow> same_value (VArr vs) (VArr ws)"
| "(\<And>k. rel_option same_value (map_of t k) (map_of u k)) \<Longrightarrow> same_value (VTab t) (VTab u)"

inductive_simps same_value_simps [simp]:
  "same_value (VStr s) w" "same_value (VInt n) w" "same_value (VBool b) w" "same_value (VArr vs) w"

inductive_cases same_value_cases: "same_value v w"

definition same_table :: "(string \<times> TomlVal) list \<Rightarrow> (string \<times> TomlVal) list \<Rightarrow> bool" where
  "same_table t u \<longleftrightarrow> (\<forall>k. rel_option same_value (map_of t k) (map_of u k))"

lemma same_value_tables [simp]: "same_value (VTab t) w \<longleftrightarrow> (\<exists>u. w = VTab u \<and> same_table t u)"
  by (auto simp: same_table_def intro: same_value.intros elim: same_value_cases)

lemma same_tableD: "same_table t u \<Longrightarrow> rel_option same_value (map_of t k) (map_of u k)"
  by (simp add: same_table_def)

text \<open>Two values that differ in the order of keys only have the same form.\<close>

lemma same_value_induct [consumes 1, case_names same arrays tables]:
  assumes "same_value v w" "\<And>v. P v v" "\<And>vs ws. list_all2 same_value vs ws \<Longrightarrow> P (VArr vs) (VArr ws)"
    "\<And>t u. same_table t u \<Longrightarrow> P (VTab t) (VTab u)"
  shows "P v w"
  using assms(1) by (cases rule: same_value_cases) (auto simp: same_table_def intro: assms(2-4))

definition order_free :: "(TomlVal \<Rightarrow> 'a) \<Rightarrow> bool" where
  "order_free f \<longleftrightarrow> (\<forall>v w. same_value v w \<longrightarrow> f v = f w)"

lemma order_freeI: "(\<And>v w. same_value v w \<Longrightarrow> f v = f w) \<Longrightarrow> order_free f"
  by (simp add: order_free_def)

lemma order_freeD: "order_free f \<Longrightarrow> same_value v w \<Longrightarrow> f w = f v"
  by (simp add: order_free_def)

lemma order_free_values [simp]: "order_free str_value" "order_free bool_value" "order_free word_value"
  by (rule order_freeI, erule same_value_induct, simp_all add: str_value_def bool_value_def word_value_def)+

lemma order_free_and_then: "order_free f \<Longrightarrow> order_free (\<lambda>v. and_then (f v) g)"
  by (simp add: order_free_def)

lemma order_free_texts [simp]: "order_free ip_value" "order_free state_value" "order_free (deserialize_host tr)"
  unfolding ip_value_def state_value_def deserialize_host_def by (simp_all add: order_free_and_then)

lemma order_free_list: "order_free f \<Longrightarrow> order_free (list_value f)"
proof (rule order_freeI)
  fix v w assume f: "order_free f" "same_value v w"
  have "list_all2 same_value vs ws \<Longrightarrow> try_map f vs = try_map f ws" for vs ws
    by (induction rule: list_all2_induct) (simp_all add: order_freeD [OF f(1)])
  with f(2) show "list_value f v = list_value f w" by (induction rule: same_value_induct) (simp_all add: list_value_def)
qed

lemma order_free_field:
  assumes "same_table t u" "order_free f"
  shows "needed u k f = needed t k f" "defaulted u k d f = defaulted t k d f"
  using same_tableD [OF assms(1), of k] order_freeD [OF assms(2)]
  by (auto simp: needed_def defaulted_def elim!: option.rel_cases)

lemma order_free_table: "(\<And>t u. same_table t u \<Longrightarrow> f u = f t) \<Longrightarrow> order_free (\<lambda>v. and_then (table_value v) f)"
  by (rule order_freeI, erule same_value_induct) (simp_all add: table_value_def)

text \<open>The readers of the crates are given a value, in which the order of the keys cannot be seen either.\<close>

definition readers_ok :: "TomlRules \<Rightarrow> bool" where
  "readers_ok tr \<longleftrightarrow> order_free (tr_country tr) \<and> order_free (tr_kind tr)"

lemma order_free_inbound: "readers_ok tr \<Longrightarrow> order_free (read_inbound tr)"
proof -
  assume tr: "readers_ok tr"
  have kind: "order_free (kind_value tr)"
    by (rule order_freeI, erule same_value_induct)
      (use tr in \<open>simp_all add: kind_value_def readers_ok_def order_free_def\<close>)
  show ?thesis
    unfolding read_inbound_def
  proof (rule order_free_table, goal_cases)
    case (1 t u)
    show ?case by (simp add: order_free_field [OF 1] kind)
  qed
qed

lemma order_free_server: "readers_ok tr \<Longrightarrow> order_free (read_server tr)"
  unfolding read_server_def
proof (rule order_free_table, goal_cases)
  case (1 t u)
  then have "order_free (tr_country tr)" by (simp add: readers_ok_def)
  then show ?case by (simp add: order_free_field [OF 1(2)] order_free_list order_free_inbound [OF 1(1)])
qed

lemma order_free_settings: "readers_ok tr \<Longrightarrow> order_free (read_settings tr)"
  unfolding read_settings_def
proof (rule order_free_table, goal_cases)
  case (1 t u)
  show ?case by (simp add: order_free_field [OF 1(2)] order_free_list order_free_inbound [OF 1(1)])
qed

lemma order_free_cloud: "readers_ok tr \<Longrightarrow> order_free (read_cloud tr)"
  unfolding read_cloud_def
proof (rule order_free_table, goal_cases)
  case (1 t u)
  show ?case
    by (simp add: order_free_field [OF 1(2)] order_free_list order_free_server [OF 1(1)] order_free_settings [OF 1(1)])
qed

text \<open>The codes of a server's countries, which are written as text, and the part of a server that is written.\<close>

definition rules_ok :: "TomlRules \<Rightarrow> KetServer \<Rightarrow> bool" where
  "rules_ok tr s \<longleftrightarrow> tr_host tr (srv_domain s) = Inr (srv_domain s)
     \<and> list_all (\<lambda>c. tr_country tr (tr_country_value tr c) = Inr c) (srv_region s # srv_outbound_block s)"

definition declared_part :: "KetServer \<Rightarrow> KetServer" where
  "declared_part s = s\<lparr>srv_ansible_conn := None, srv_secrets := default_secrets, srv_cfstate := None, srv_xui := None\<rparr>"

lemma country_list: "list_all (\<lambda>c. tr_country tr (tr_country_value tr c) = Inr c) cs \<Longrightarrow>
    list_value (tr_country tr) (VArr (map (tr_country_value tr) cs)) = Inr cs"
  unfolding list_value_def by (induction cs) simp_all

lemma inbound_list [simp]: "list_value (read_inbound tr) (VArr (map ser_inbound xs)) = Inr xs"
  by (rule inbound_codec.list_dec_enc) (simp add: list_all_iff)

lemma read_written_server: "rules_ok tr s \<Longrightarrow> read_server tr (ser_server tr s) = Inr (declared_part s)"
  by (simp add: read_server_def ser_server_def deserialize_host_def serialize_host_def rules_ok_def country_list
      declared_part_def del: map_map)

interpretation server_codec: value_codec "ser_server tr" "read_server tr" "\<lambda>s. rules_ok tr s \<and> declared_part s = s" for tr
  by unfold_locales (simp add: read_written_server)

text \<open>The settings and the whole cloud. The crates read documents that are nested up to 80 deep.\<close>

definition writable :: "TomlRules \<Rightarrow> Cloud \<Rightarrow> bool" where
  "writable tr c \<longleftrightarrow> (case ser_cloud tr c of Inl _ \<Rightarrow> False | Inr v \<Rightarrow> fits 16 v)"

definition printable :: "TomlRules \<Rightarrow> Cloud \<Rightarrow> bool" where
  "printable tr c \<longleftrightarrow> list_all (rules_ok tr) (servers c) \<and> writable tr c"

lemma read_written_settings: "ser_settings st = Inr v \<Longrightarrow> read_settings tr v = Inr st"
  by (auto simp: ser_settings_def ser_u64_def read_settings_def split: if_splits)

lemma read_written_cloud:
  assumes "printable tr c"
  obtains t where "ser_cloud tr c = Inr (VTab t)" "fits 16 (VTab t)"
    "read_cloud tr (VTab t) = Inr (c\<lparr>servers := map declared_part (servers c)\<rparr>)"
proof -
  obtain st where st: "ser_settings (settings c) = Inr st"
    using assms by (cases "ser_settings (settings c)") (auto simp: printable_def writable_def ser_cloud_def)
  have "list_all (rules_ok tr) ss \<Longrightarrow> list_value (read_server tr) (VArr (map (ser_server tr) ss)) = Inr (map declared_part ss)" for ss
    unfolding list_value_def by (induction ss) (simp_all add: read_written_server)
  with st read_written_settings [OF st] assms that show thesis
    by (simp add: ser_cloud_def read_cloud_def printable_def writable_def)
qed

text \<open>
  What is relied on of the crates that print, parse and edit. What a document gives back is the table it
  was printed from, up to the order of its keys: the printer writes the plain values of a table before
  its tables. After an edit this holds as long as no array of tables is left without an entry, since
  an empty one leaves no trace in the text.
\<close>

definition some_tables :: "string \<Rightarrow> (TomlVal \<Rightarrow> bool) \<Rightarrow> TomlVal \<Rightarrow> bool" where
  "some_tables k P v =
     (case v of VTab t \<Rightarrow> (case map_of t k of Some (VArr vs) \<Rightarrow> vs \<noteq> [] \<and> list_all P vs | _ \<Rightarrow> True) | _ \<Rightarrow> True)"

definition entries_left :: "TomlVal \<Rightarrow> bool" where
  "entries_left = some_tables ''servers'' (some_tables ''inbounds'' (\<lambda>_. True))"

definition keeps_tables :: "TomlRules \<Rightarrow> bool" where
  "keeps_tables tr \<longleftrightarrow> readers_ok tr
     \<and> (\<forall>ts. ts \<noteq> [] \<longrightarrow> tr_tables tr (map VTab ts))
     \<and> (\<forall>t. fits 16 (VTab t) \<longrightarrow> (\<exists>doc. tr_parse tr (tr_print tr (VTab t)) = Inr doc \<and> same_value (VTab t) doc))
     \<and> (\<forall>t doc doc'. fits 16 (VTab t) \<and> tr_parse tr (tr_print tr (VTab t)) = Inr doc \<and> drop_super_toml tr doc = Inr doc'
          \<and> entries_left doc' \<longrightarrow>
          (\<exists>w. tr_parse tr (tr_edited tr (tr_print tr (VTab t)) doc') = Inr w \<and> same_value doc' w))"

lemma same_table_lookup:
  assumes "same_table t u" "map_of t k = Some v"
  obtains w where "map_of u k = Some w" "same_value v w"
  using same_tableD [OF assms(1), of k] assms(2) that by (auto simp: option_rel_Some1)

lemma order_free_filter:
  assumes P: "order_free P"
  shows "list_all2 same_value vs ws \<Longrightarrow> list_all2 same_value (filter P vs) (filter P ws)"
  by (induction rule: list_all2_induct) (auto simp: order_freeD [OF P])

lemma order_free_some_tables: "order_free P \<Longrightarrow> order_free (some_tables k P)"
proof (rule order_freeI)
  fix v w assume P: "order_free P" and "same_value v w"
  have "list_all2 same_value vs ws \<Longrightarrow> list_all P vs = list_all P ws \<and> (vs = []) = (ws = [])" for vs ws
    by (induction rule: list_all2_induct) (simp_all add: order_freeD [OF P])
  then have "order_free (\<lambda>a. case a of VArr vs \<Rightarrow> vs \<noteq> [] \<and> list_all P vs | _ \<Rightarrow> True)"
    by (intro order_freeI, elim same_value_induct) auto
  note arr = order_freeD [OF this]
  from \<open>same_value v w\<close> show "some_tables k P v = some_tables k P w"
  proof (induction rule: same_value_induct)
    case (tables t u)
    from same_tableD [OF this, of k] show ?case
      by (cases rule: option.rel_cases) (auto simp: some_tables_def dest: arr)
  qed (simp_all add: some_tables_def)
qed

lemma order_free_named: "order_free (\<lambda>v. \<not> named nm v)"
proof (rule order_freeI)
  fix v w assume "same_value v w"
  then show "(\<not> named nm v) = (\<not> named nm w)"
  proof (induction rule: same_value_induct)
    case (tables t u)
    have "same_value a b \<Longrightarrow> (a = VStr nm) = (b = VStr nm)" for a b
      by (induction rule: same_value_induct) simp_all
    with same_tableD [OF tables, of "''name''"] show ?case
      by (cases rule: option.rel_cases) (auto simp: named_def)
  qed (simp_all add: named_def)
qed

lemma map_of_put: "map_of (put k v t) k' = (if k' = k \<and> map_of t k \<noteq> None then Some v else map_of t k')"
  unfolding put_def by (induction t) auto

lemma same_put: "same_table t u \<Longrightarrow> same_value v w \<Longrightarrow> same_table (put k v t) (put k w u)"
proof -
  assume t: "same_table t u" and v: "same_value v w"
  show ?thesis
    unfolding same_table_def map_of_put
  proof
    fix k'
    from same_tableD [OF t, of k'] v
    show "rel_option same_value (if k' = k \<and> map_of t k \<noteq> None then Some v else map_of t k')
        (if k' = k \<and> map_of u k \<noteq> None then Some w else map_of u k')"
      by (cases rule: option.rel_cases) auto
  qed
qed

lemma same_tables: "list_all2 same_value (map VTab ts) ws \<Longrightarrow> \<exists>us. ws = map VTab us \<and> length us = length ts"
proof (induction ts arbitrary: ws)
  case (Cons t ts)
  from Cons.prems obtain w ws' where w: "ws = w # ws'" "same_value (VTab t) w" "list_all2 same_value (map VTab ts) ws'"
    by (auto simp: list_all2_Cons1)
  with Cons.IH obtain us where "ws' = map VTab us" "length us = length ts" by blast
  moreover from w(2) obtain u where "w = VTab u" by auto
  ultimately show ?case using w(1) by (intro exI [of _ "u # us"]) simp
qed simp

text \<open>A list of tables is edited the same way whatever the order of the keys.\<close>

lemma same_tables_of:
  assumes "keeps_tables tr" "ts \<noteq> []" "same_table t u" "map_of t k = Some (VArr (map VTab ts))"
  obtains ws where "tables_of tr (map_of t k) = Some (map VTab ts)" "tables_of tr (map_of u k) = Some ws"
    "list_all2 same_value (map VTab ts) ws"
proof -
  from same_table_lookup [OF assms(3,4)] obtain w where "map_of u k = Some w" "same_value (VArr (map VTab ts)) w" .
  then obtain ws where ws: "map_of u k = Some (VArr ws)" "list_all2 same_value (map VTab ts) ws" by auto
  with same_tables obtain us where us: "ws = map VTab us" "length us = length ts" by blast
  have "us \<noteq> []" using us(2) assms(2) by auto
  then have "tr_tables tr (map VTab ts)" "tr_tables tr ws" using assms(1,2) us(1) by (simp_all add: keeps_tables_def)
  then show thesis using that [of ws] ws assms(4) by (simp add: tables_of_def)
qed

lemma same_drop_super:
  assumes "keeps_tables tr" "map_of t ''inbounds'' = Some (VArr (map VTab ts))" "ts \<noteq> []" "same_value (VTab t) w"
  shows "same_value (drop_super_table tr (VTab t)) (drop_super_table tr w)"
proof -
  from assms(4) obtain u where u: "w = VTab u" "same_table t u" by auto
  from same_tables_of [OF assms(1,3) u(2) assms(2)] obtain ws where ws:
    "tables_of tr (map_of t ''inbounds'') = Some (map VTab ts)" "tables_of tr (map_of u ''inbounds'') = Some ws"
    "list_all2 same_value (map VTab ts) ws" .
  have "same_value (VArr (filter (\<lambda>i. \<not> named super_name i) (map VTab ts))) (VArr (filter (\<lambda>i. \<not> named super_name i) ws))"
    using order_free_filter [OF order_free_named ws(3)] by simp
  from same_put [OF u(2) this] show ?thesis by (simp add: drop_super_table_def u(1) ws(1,2))
qed

text \<open>Taking the supervisor out of the text is taking it out of the servers.\<close>

lemma ser_inbounds: "xs \<noteq> [] \<Longrightarrow> \<exists>ts. map ser_inbound xs = map VTab ts \<and> ts \<noteq> []"
  by (rule exI [of _ "map (\<lambda>i. case ser_inbound i of VTab t \<Rightarrow> t) xs"]) (simp add: ser_inbound_def)

lemma server_inbounds: "ser_server tr s = VTab t \<Longrightarrow> map_of t ''inbounds'' = Some (VArr (map ser_inbound (srv_inbounds s)))"
  by (auto simp: ser_server_def)

lemma drop_super_written:
  assumes "keeps_tables tr" "srv_inbounds s \<noteq> []"
  shows "drop_super_table tr (ser_server tr s) = ser_server tr (drop_super s)"
proof -
  have "tr_tables tr (map ser_inbound (srv_inbounds s))"
    using assms(1) ser_inbounds [OF assms(2)] unfolding keeps_tables_def by metis
  moreover have "filter (\<lambda>i. \<not> named super_name i) (map ser_inbound xs) = map ser_inbound (filter (\<lambda>i. inb_name i \<noteq> super_name) xs)" for xs
    by (induction xs) (simp_all add: named_def ser_inbound_def)
  ultimately show ?thesis
    by (simp add: drop_super_table_def ser_server_def put_def drop_super_def tables_of_def)
qed

lemma drop_super_read:
  assumes "keeps_tables tr" "srv_inbounds s \<noteq> []" "same_value (ser_server tr s) w"
  shows "same_value (ser_server tr (drop_super s)) (drop_super_table tr w)"
proof -
  obtain t where t: "ser_server tr s = VTab t" by (simp add: ser_server_def)
  obtain ts where "map ser_inbound (srv_inbounds s) = map VTab ts" "ts \<noteq> []" using ser_inbounds assms(2) by blast
  from same_drop_super [OF assms(1) _ this(2), of t w] this(1) show ?thesis
    using server_inbounds [OF t] assms(3) drop_super_written [OF assms(1,2)] unfolding t by metis
qed

lemma drop_super_document:
  assumes tr: "keeps_tables tr" and some: "servers c \<noteq> []" "list_all (\<lambda>s. srv_inbounds s \<noteq> []) (servers c)"
    and v: "ser_cloud tr c = Inr v" "same_value v doc"
  obtains v' doc' where "drop_super_toml tr doc = Inr doc'" "ser_cloud tr (backup_cloud c) = Inr v'" "same_value v' doc'"
proof -
  define sers where "sers = map (ser_server tr) (servers c)"
  define sers' where "sers' = map (ser_server tr) (map drop_super (servers c))"
  obtain st where st: "ser_settings (settings c) = Inr st" "v = VTab [(''servers'', VArr sers), (''settings'', st)]"
    using v(1) by (auto simp: ser_cloud_def sers_def)
  let ?t = "[(''servers'', VArr sers), (''settings'', st)]"
  have "\<forall>v \<in> set sers. \<exists>t. v = VTab t" by (auto simp: sers_def ser_server_def)
  then obtain ts where ts: "sers = map VTab ts" by (metis ex_map_conv)
  with some(1) have "ts \<noteq> []" "map_of ?t ''servers'' = Some (VArr (map VTab ts))" by (auto simp: sers_def)
  moreover from v(2) obtain u where u: "doc = VTab u" "same_table ?t u" unfolding st(2) by auto
  ultimately obtain ws where ws: "tables_of tr (map_of u ''servers'') = Some ws" "list_all2 same_value sers ws"
    using same_tables_of [OF tr] ts by metis
  from ws(2) have "list_all2 (\<lambda>s w. same_value (ser_server tr s) w) (servers c) ws"
    by (simp add: list_all2_map1 sers_def)
  then have "list_all2 same_value sers' (map (drop_super_table tr) ws)"
    using some(2) unfolding sers'_def by (induction rule: list_all2_induct) (simp_all add: drop_super_read [OF tr])
  then have "same_value (VArr sers') (VArr (map (drop_super_table tr) ws))" by simp
  from same_put [OF u(2) this, of "''servers''"]
  have "same_value (VTab [(''servers'', VArr sers'), (''settings'', st)]) (VTab (put ''servers'' (VArr (map (drop_super_table tr) ws)) u))"
    by (simp add: put_def)
  then show thesis
    using that [of "VTab (put ''servers'' (VArr (map (drop_super_table tr) ws)) u)"] ws(1) u(1) st(1)
    by (simp add: drop_super_toml_def ser_cloud_def backup_cloud_def sers'_def)
qed

section \<open>A restored backup\<close>

lemma valid_declared: "valid_config (t\<lparr>servers := map declared_part (servers t)\<rparr>) \<longleftrightarrow> valid_config t"
  by (simp add: valid_config_def list_all_iff unique_servers_def comp_def valid_server_def effective_inbounds_def
      subdomains_of_def declared_part_def)

lemma fits_drop_super: "fits d (ser_server tr s) \<Longrightarrow> fits d (ser_server tr (drop_super s))"
  by (auto simp: ser_server_def drop_super_def)

lemma printable_backup: "printable tr c \<Longrightarrow> printable tr (backup_cloud c)"
  by (cases "ser_settings (settings c)")
    (auto simp: printable_def writable_def backup_cloud_def list_all_iff rules_ok_def drop_super_def ser_cloud_def
       intro: fits_drop_super [unfolded drop_super_def])

lemma entries_left_backup:
  assumes "ser_cloud tr c = Inr v" "servers c \<noteq> []" "list_all (\<lambda>s. srv_inbounds s \<noteq> []) (servers c)"
  shows "entries_left v"
proof -
  have "srv_inbounds s \<noteq> [] \<Longrightarrow> some_tables ''inbounds'' (\<lambda>_. True) (ser_server tr s)" for s
    by (simp add: some_tables_def ser_server_def list_all_iff)
  with assms show ?thesis
    by (cases "ser_settings (settings c)") (auto simp: entries_left_def some_tables_def ser_cloud_def list_all_iff)
qed

text \<open>The text of the backup is read back as the cloud without what is not written and without the supervisors.\<close>

lemma backup_reads_back:
  assumes tr: "keeps_tables tr" and "printable tr c" "servers c \<noteq> []" "list_all (\<lambda>s. srv_inbounds (drop_super s) \<noteq> []) (servers c)"
  obtains bk where "backup_text tr c = Inr bk"
    "toml_from_str tr bk = Inr ((backup_cloud c)\<lparr>servers := map declared_part (servers (backup_cloud c))\<rparr>)"
proof -
  obtain t where t: "ser_cloud tr c = Inr (VTab t)" "fits 16 (VTab t)" using read_written_cloud [OF assms(2)] .
  with tr obtain doc where doc: "tr_parse tr (tr_print tr (VTab t)) = Inr doc" "same_value (VTab t) doc"
    unfolding keeps_tables_def by blast
  have "list_all (\<lambda>s. srv_inbounds s \<noteq> []) (servers c)" using assms(4) by (auto simp: list_all_iff drop_super_def)
  from drop_super_document [OF tr assms(3) this t(1) doc(2)] obtain v doc' where
    doc': "drop_super_toml tr doc = Inr doc'" "ser_cloud tr (backup_cloud c) = Inr v" "same_value v doc'" .
  have "entries_left v"
    by (rule entries_left_backup [OF doc'(2)]) (use assms(3,4) in \<open>simp_all add: backup_cloud_def list_all_iff\<close>)
  moreover have "order_free entries_left"
    unfolding entries_left_def by (intro order_free_some_tables) (simp add: order_free_def)
  ultimately have "entries_left doc'" using order_freeD [OF _ doc'(3)] by metis
  with tr t(2) doc(1) doc'(1) obtain w where w: "tr_parse tr (tr_edited tr (tr_print tr (VTab t)) doc') = Inr w" "same_value doc' w"
    unfolding keeps_tables_def by blast
  have "order_free (read_cloud tr)" using tr order_free_cloud by (simp add: keeps_tables_def)
  then have "read_cloud tr w = read_cloud tr v" using order_freeD doc'(3) w(2) by metis
  moreover obtain t' where "ser_cloud tr (backup_cloud c) = Inr (VTab t')"
    "read_cloud tr (VTab t') = Inr ((backup_cloud c)\<lparr>servers := map declared_part (servers (backup_cloud c))\<rparr>)"
    using read_written_cloud [OF printable_backup [OF assms(2)]] by metis
  ultimately show thesis
    using that [of "tr_edited tr (tr_print tr (VTab t)) doc'"] t(1) doc(1) doc'(1,2) w(1)
    by (simp add: backup_text_def toml_from_str_def)
qed

lemma ser_server_declared: "ser_server tr (declared_part s) = ser_server tr s"
  by (simp add: ser_server_def declared_part_def)

lemma ser_cloud_declared: "ser_cloud tr (c\<lparr>servers := map declared_part (servers c)\<rparr>) = ser_cloud tr c"
  by (simp add: ser_cloud_def comp_def ser_server_declared)

lemma restored_inbounds:
  assumes "well_formed_server st s"
  shows "srv_inbounds s = srv_inbounds (drop_super s) @ [super_inbound]" "srv_inbounds (drop_super s) \<noteq> []"
proof -
  from well_formed_inbounds [OF assms] obtain ins where ins: "srv_inbounds s = ins @ [super_inbound]" "ins \<noteq> []"
    "valid_inbounds (inbound_set st) ins" .
  then have "srv_inbounds (drop_super s) = ins"
    by (auto simp: drop_super_def super_inbound_def valid_inbounds_def filter_id_conv rev_image_eqI)
  with ins(1,2) show "srv_inbounds s = srv_inbounds (drop_super s) @ [super_inbound]" "srv_inbounds (drop_super s) \<noteq> []" by simp_all
qed

lemma restored_server:
  assumes "well_formed_server st s" "ready_server lib st' (declared_part (drop_super s)) t"
  shows "declared_part t = declared_part s"
proof -
  from restored_inbounds [OF assms(1)] have ins: "srv_inbounds s = srv_inbounds (drop_super s) @ [super_inbound]"
    "srv_inbounds (drop_super s) \<noteq> []" by simp_all
  then have "srv_inbounds t = srv_inbounds s"
    using assms(2) by (simp add: ready_server_def effective_inbounds_def declared_part_def)
  moreover have "same_declaration (declared_part (drop_super s)) t" using assms(2) by (simp add: ready_server_def)
  ultimately show ?thesis
    by (simp add: same_declaration_def subdomains_of_def declared_part_def drop_super_def)
qed

text \<open>
  C19. A TOML backup restores the cloud it was made of: for a running cloud with at least one server the
  text can be written, it is the same whatever the secrets and the connections are, and as a
  configuration it is accepted and becomes a cloud with the same settings and, in the same order, the
  same servers in everything that is declared, their inbounds with the supervisor included. Of the crates
  it is relied on that a table whose values TOML can express is read back, with its keys in any order.
\<close>

theorem restored_backup:
  assumes "well_formed_cloud c" "servers c \<noteq> []" "printable tr c" "keeps_tables tr"
  shows "\<exists>text c'. backup_text tr c = Inr text \<and> parse_cloud_config lib rng pos (toml_from_str tr) (Inr text) = Inr c'
    \<and> settings c' = settings c \<and> map declared_part (servers c') = map declared_part (servers c)
    \<and> backup_text tr (c\<lparr>servers := map declared_part (servers c)\<rparr>) = Inr text"
proof -
  let ?t = "(backup_cloud c)\<lparr>servers := map declared_part (servers (backup_cloud c))\<rparr>"
  have wf: "list_all (well_formed_server (settings c)) (servers c)" using assms(1) by (simp add: well_formed_cloud_def)
  have "list_all (\<lambda>s. srv_inbounds (drop_super s) \<noteq> []) (servers c)"
    using wf restored_inbounds by (auto simp: list_all_iff)
  from backup_reads_back [OF assms(4,3,2) this] obtain bk where v: "backup_text tr c = Inr bk"
    and reread: "toml_from_str tr bk = Inr ?t" .
  obtain c' where c': "build_cloud lib rng pos ?t = Inr c'"
    using backup_is_accepted [OF assms(1)] valid_declared [of "backup_cloud c"] build_cloud_iff by blast
  note res = build_cloud_result(1,2) [OF c']
  have "list_all2 (\<lambda>s t. declared_part t = declared_part s) (servers c) (servers c')"
    using res(1) wf
    by (auto simp: backup_cloud_def list_all2_map1 list_all_iff elim!: list.rel_mono_strong dest: restored_server)
  then have same: "map declared_part (servers c') = map declared_part (servers c)"
    by (induction rule: list_all2_induct) simp_all
  have "settings c' = settings c"
    using res(2) assms(1) by (simp add: backup_cloud_def well_formed_cloud_def max_absorb1)
  moreover have "backup_text tr (c\<lparr>servers := map declared_part (servers c)\<rparr>) = backup_text tr c"
    unfolding backup_text_def ser_cloud_declared by simp
  ultimately show ?thesis using v(1) c' reread same by (auto simp: parse_cloud_config_def)
qed

text \<open>
  A cloud without servers has no backup unless the printer writes the empty list as an array of
  tables: the error reaches the command that asked for the backup, and ends the daemon.
\<close>

lemma empty_cloud_no_backup:
  assumes "servers c = []" "\<not> tr_tables tr []" "keeps_tables tr" "printable tr c"
  shows "\<exists>e. backup_text tr c = Inl e"
proof -
  obtain t where t: "ser_cloud tr c = Inr (VTab t)" "fits 16 (VTab t)" using read_written_cloud [OF assms(4)] .
  with assms(3) obtain doc where doc: "tr_parse tr (tr_print tr (VTab t)) = Inr doc" "same_value (VTab t) doc"
    unfolding keeps_tables_def by blast
  then obtain u where u: "doc = VTab u" "same_table t u" by auto
  have "map_of t ''servers'' = Some (VArr [])"
    using t(1) assms(1) by (cases "ser_settings (settings c)") (auto simp: ser_cloud_def)
  then have "map_of u ''servers'' = Some (VArr [])" using same_table_lookup [OF u(2)] by force
  then have "\<exists>e. drop_super_toml tr doc = Inl e"
    using u(1) assms(2) by (simp add: drop_super_toml_def tables_of_def)
  with t doc(1) show ?thesis by (auto simp: backup_text_def)
qed

section \<open>Minimal declarations\<close>

definition minimal_server :: "string \<times> IpAddr \<times> Host \<Rightarrow> TomlVal" where
  "minimal_server d = VTab [(''name'', VStr (fst d)), (''ip'', VStr (show_ip (fst (snd d)))), (''domain'', VStr (snd (snd d)))]"

definition default_server :: "string \<times> IpAddr \<times> Host \<Rightarrow> KetServer" where
  "default_server d = \<lparr>srv_name = fst d, srv_ip = fst (snd d), srv_domain = snd (snd d), srv_region = ''US'', srv_state = Offgrid,
     srv_quota = 0, srv_enabled = True, srv_ssh_port = SSH_PORT, srv_dns_subdomain = ''dns'', srv_ui_subdomain = ''ui'',
     srv_sub_subdomain = ''sub'', srv_cloudflare_proxied = False, srv_inbounds = [], srv_outbound_block = [''CN'', ''IR'', ''RU''],
     srv_ansible_conn = None, srv_secrets = default_secrets, srv_cfstate = None, srv_xui = None\<rparr>"

lemma read_minimal: "tr_host tr (snd (snd d)) = Inr (snd (snd d)) \<Longrightarrow> read_server tr (minimal_server d) = Inr (default_server d)"
  by (simp add: read_server_def minimal_server_def default_server_def deserialize_host_def server_default_defs)

lemma default_server_valid:
  assumes "valid_inbound_set (inbound_set st)"
  shows "valid_server st (default_server d) \<longleftrightarrow> is_proper (fst d) \<and> is_global (fst (snd d))"
proof -
  have "list_all is_proper_subdomain [''sub'', ''ui'', ''dns'']"
    by (simp add: is_proper_subdomain_def alnum_def ascii_defs)
  then show ?thesis
    using assms by (auto simp: valid_server_def default_server_def subdomains_of_def effective_inbounds_def
        valid_inbounds_def valid_inbound_set_def)
qed

text \<open>
  C20. The defaults never make a declaration invalid: servers that declare only a name, an address and a
  domain are accepted exactly if the names are proper and unique, the addresses global and unique and
  the domains unique, and each becomes an enabled Offgrid server with the inbounds of the cloud.
\<close>

theorem minimal_declarations:
  assumes doc: "tr_parse tr text = Inr (VTab [(''servers'', VArr (map minimal_server ds)), (''settings'', sts)])"
    and st: "read_settings tr sts = Inr st" "valid_inbound_set (inbound_set st)"
    and hosts: "list_all (\<lambda>d. tr_host tr (snd (snd d)) = Inr (snd (snd d))) ds"
  shows "((\<exists>c. parse_cloud_config lib rng pos (toml_from_str tr) (Inr text) = Inr c) \<longleftrightarrow>
      list_all (\<lambda>d. is_proper (fst d) \<and> is_global (fst (snd d))) ds
      \<and> distinct (map fst ds) \<and> distinct (map (fst \<circ> snd) ds) \<and> distinct (map (snd \<circ> snd) ds))
    \<and> (\<forall>c. parse_cloud_config lib rng pos (toml_from_str tr) (Inr text) = Inr c \<longrightarrow>
         map declared_part (servers c) = map (\<lambda>d. (default_server d)\<lparr>srv_inbounds := inbound_set st @ [super_inbound]\<rparr>) ds)"
proof -
  let ?t = "\<lparr>servers = map default_server ds, settings = st\<rparr>"
  have "list_value (read_server tr) (VArr (map minimal_server ds)) = Inr (map default_server ds)"
    using hosts unfolding list_value_def by (induction ds) (simp_all add: read_minimal)
  then have read: "toml_from_str tr text = Inr ?t"
    by (simp add: toml_from_str_def doc read_cloud_def st(1))
  have ids: "map srv_name (map default_server ds) = map fst ds" "map srv_ip (map default_server ds) = map (fst \<circ> snd) ds"
    "map srv_domain (map default_server ds) = map (snd \<circ> snd) ds"
    by (simp_all add: default_server_def)
  have "valid_config ?t \<longleftrightarrow> list_all (\<lambda>d. is_proper (fst d) \<and> is_global (fst (snd d))) ds
      \<and> distinct (map fst ds) \<and> distinct (map (fst \<circ> snd) ds) \<and> distinct (map (snd \<circ> snd) ds)"
    unfolding valid_config_def unique_servers_def KetServer.simps Cloud.simps ids
    by (auto simp: st(2) list_all_iff default_server_valid)
  moreover have "map declared_part (servers c) = map (\<lambda>d. (default_server d)\<lparr>srv_inbounds := inbound_set st @ [super_inbound]\<rparr>) ds"
    if c: "build_cloud lib rng pos ?t = Inr c" for c
  proof -
    have "declared_part t = (default_server d)\<lparr>srv_inbounds := inbound_set st @ [super_inbound]\<rparr>"
      if "ready_server lib st (default_server d) t" for d t
      using that by (simp add: ready_server_def same_declaration_def subdomains_of_def effective_inbounds_def
          default_server_def declared_part_def)
    with build_cloud_result(1) [OF c] show ?thesis
      by (auto simp: list_all2_map1 elim!: list_all2_induct [of _ ds])
  qed
  ultimately show ?thesis using build_cloud_iff [of lib rng pos ?t] by (auto simp: parse_cloud_config_def read)
qed

section \<open>Concrete documents\<close>

text \<open>
  A small format for the examples, with a printer and a parser that are each other's inverse on tables: a
  letter for the kind of a value, and a plus before each entry of a sequence, which ends with a dot.
  Like a TOML document, a text is read only if it holds a table.
\<close>

definition sequence :: "('a \<Rightarrow> string) \<Rightarrow> 'a list \<Rightarrow> string" where
  "sequence f xs = concat (map (\<lambda>x. CHR ''+'' # f x) xs) @ ''.''"

lemma sequence_cong [fundef_cong]: "xs = ys \<Longrightarrow> (\<And>x. x \<in> set ys \<Longrightarrow> f x = g x) \<Longrightarrow> sequence f xs = sequence g ys"
  by (auto simp: sequence_def intro!: arg_cong [of _ _ concat])

fun print_value :: "TomlVal \<Rightarrow> string" where
  "print_value (VStr s) = CHR ''s'' # sequence (\<lambda>c. [c]) s"
| "print_value (VInt n) =
     (if 0 \<le> n then CHR ''p'' # sequence (\<lambda>c. [c]) (show_nat (nat n)) else CHR ''m'' # sequence (\<lambda>c. [c]) (show_nat (nat (- n))))"
| "print_value (VBool b) = (if b then ''y'' else ''n'')"
| "print_value (VArr vs) = CHR ''a'' # sequence print_value vs"
| "print_value (VTab t) = CHR ''t'' # sequence (\<lambda>kv. sequence (\<lambda>c. [c]) (fst kv) @ print_value (snd kv)) t"
| "print_value (VOther s) = ''o''"

fun read_sequence :: "(string \<Rightarrow> ('a \<times> string) option) \<Rightarrow> nat \<Rightarrow> string \<Rightarrow> ('a list \<times> string) option" where
  "read_sequence f (Suc n) (c # s) =
     (if c = CHR ''.'' then Some ([], s)
      else case f s of None \<Rightarrow> None | Some (x, s') \<Rightarrow> map_option (apfst (Cons x)) (read_sequence f n s'))"
| "read_sequence f _ _ = None"

definition read_char :: "string \<Rightarrow> (char \<times> string) option" where
  "read_char s = (case s of [] \<Rightarrow> None | c # r \<Rightarrow> Some (c, r))"

definition read_word :: "string \<Rightarrow> (string \<times> string) option" where
  "read_word s = read_sequence read_char (length s) s"

definition read_number :: "string \<Rightarrow> (nat \<times> string) option" where
  "read_number s = (case read_word s of None \<Rightarrow> None | Some (w, r) \<Rightarrow> map_option (\<lambda>n. (n, r)) (parse_unsigned (2 ^ 63) w))"

definition read_entry :: "(string \<Rightarrow> (TomlVal \<times> string) option) \<Rightarrow> string \<Rightarrow> ((string \<times> TomlVal) \<times> string) option" where
  "read_entry f s = (case read_word s of None \<Rightarrow> None | Some (k, r) \<Rightarrow> map_option (apfst (Pair k)) (f r))"

primrec read_value :: "nat \<Rightarrow> string \<Rightarrow> (TomlVal \<times> string) option" where
  "read_value 0 = (\<lambda>s. None)"
| "read_value (Suc n) = (\<lambda>s. case s of [] \<Rightarrow> None | c # r \<Rightarrow>
     if c = CHR ''s'' then map_option (apfst VStr) (read_word r)
     else if c = CHR ''p'' then map_option (apfst (\<lambda>k. VInt (int k))) (read_number r)
     else if c = CHR ''m'' then map_option (apfst (\<lambda>k. VInt (- int k))) (read_number r)
     else if c = CHR ''y'' then Some (VBool True, r)
     else if c = CHR ''n'' then Some (VBool False, r)
     else if c = CHR ''a'' then map_option (apfst VArr) (read_sequence (read_value n) (length r) r)
     else if c = CHR ''t'' then map_option (apfst VTab) (read_sequence (read_entry (read_value n)) (length r) r)
     else None)"

definition read_document :: "string \<Rightarrow> TomlVal res" where
  "read_document s = (case read_value 17 s of Some (VTab t, []) \<Rightarrow> Inr (VTab t) | _ \<Rightarrow> Inl (External ''no document''))"

lemma read_printed_sequence:
  "(\<And>x r. x \<in> set xs \<Longrightarrow> f (g x @ r) = Some (x, r)) \<Longrightarrow> length xs < n \<Longrightarrow> read_sequence f n (sequence g xs @ r) = Some (xs, r)"
proof (induction xs arbitrary: n)
  case Nil
  then show ?case by (cases n) (simp_all add: sequence_def)
next
  case (Cons x xs)
  then obtain m where n: "n = Suc m" "length xs < m" by (cases n) simp_all
  have "read_sequence f m (sequence g xs @ r) = Some (xs, r)" by (rule Cons.IH) (simp_all add: Cons.prems(1) n(2))
  moreover have "f (g x @ sequence g xs @ r) = Some (x, sequence g xs @ r)" using Cons.prems(1) by simp
  ultimately show ?case by (simp add: n(1) sequence_def)
qed

lemma sequence_length: "length xs < length (sequence g xs @ r)"
  unfolding sequence_def by (induction xs) simp_all

lemma read_printed_word: "read_word (sequence (\<lambda>c. [c]) w @ r) = Some (w, r)"
  unfolding read_word_def by (rule read_printed_sequence) (simp_all add: read_char_def sequence_length del: length_append)

lemma read_printed_number: "n \<le> 2 ^ 63 \<Longrightarrow> read_number (sequence (\<lambda>c. [c]) (show_nat n) @ r) = Some (n, r)"
  by (simp add: read_number_def read_printed_word parse_show)

lemma read_printed_value: "fits d v \<Longrightarrow> read_value (Suc d) (print_value v @ r) = Some (v, r)"
proof (induction d v arbitrary: r rule: fits.induct)
  case (1 d n)
  then have "nat n \<le> 2 ^ 63" "nat (- n) \<le> 2 ^ 63" by (simp_all add: nat_le_iff)
  then show ?case by (simp add: read_printed_number)
next
  case (2 d vs)
  then obtain e where d: "d = Suc e" by (cases d) simp_all
  have "read_sequence (read_value d) (length (sequence print_value vs @ r)) (sequence print_value vs @ r) = Some (vs, r)"
    by (rule read_printed_sequence) (use 2 d in \<open>simp_all add: sequence_length del: length_append read_value.simps\<close>)
  then show ?case by simp
next
  case (3 d t)
  then obtain e where d: "d = Suc e" by (cases d) simp_all
  let ?g = "\<lambda>kv. sequence (\<lambda>c. [c]) (fst kv) @ print_value (snd kv)"
  have "read_sequence (read_entry (read_value d)) (length (sequence ?g t @ r)) (sequence ?g t @ r) = Some (t, r)"
    by (rule read_printed_sequence)
      (use 3 d in \<open>simp_all add: sequence_length read_entry_def read_printed_word del: length_append read_value.simps\<close>)
  then show ?case by simp
qed (simp_all add: read_printed_word)

lemma read_printed_document: "fits 16 (VTab t) \<Longrightarrow> read_document (print_value (VTab t)) = Inr (VTab t)"
proof -
  assume "fits 16 (VTab t)"
  from read_printed_value [OF this, of "[]"] have "read_value 17 (print_value (VTab t)) = Some (VTab t, [])" by simp
  then show ?thesis unfolding read_document_def by (simp only: option.case prod.case list.case TomlVal.case)
qed

text \<open>What the editing leaves can be printed again.\<close>

lemma fits_put: "fits d (VTab t) \<Longrightarrow> fits (d - 1) v \<Longrightarrow> fits d (VTab (put k v t))"
proof -
  assume t: "fits d (VTab t)" "fits (d - 1) v"
  have "map fst (put k v t) = map fst t" unfolding put_def by (induction t) auto
  moreover have "\<forall>kv \<in> set (put k v t). text_ok (fst kv) \<and> fits (d - 1) (snd kv)"
    using t by (auto simp: put_def)
  ultimately show ?thesis using t(1) by simp
qed

lemma fits_lookup: "fits d (VTab t) \<Longrightarrow> tables_of tr (map_of t k) = Some vs \<Longrightarrow> fits (d - 1) (VArr vs)"
  by (auto simp: tables_of_def dest!: map_of_SomeD split: option.splits TomlVal.splits if_splits)

lemma fits_edited:
  assumes "fits d v" "drop_super_toml tr v = Inr v'"
  shows "fits d v' \<and> (\<exists>t. v' = VTab t)"
proof -
  have server: "fits e (drop_super_table tr w)" if "fits e w" for e w
  proof (cases w)
    case (VTab t)
    with that have "fits e (VTab t)" by simp
    then show ?thesis
      using fits_lookup [of e t tr "''inbounds''"]
      by (auto simp: drop_super_table_def VTab simp del: fits.simps(3) intro!: fits_put split: option.split)
  qed (use that in \<open>simp_all add: drop_super_table_def\<close>)
  from assms obtain t ss where t: "v = VTab t" "tables_of tr (map_of t ''servers'') = Some ss"
    "v' = VTab (put ''servers'' (VArr (map (drop_super_table tr) ss)) t)"
    by (cases v) (auto simp: drop_super_toml_def table_value_def ok_or_def split: option.splits)
  have "fits (d - 1) (VArr ss)" using fits_lookup assms(1) t(1,2) by blast
  then have "fits (d - 1) (VArr (map (drop_super_table tr) ss))" by (auto intro: server)
  with fits_put assms(1) t(1,3) show ?thesis by blast
qed

definition is_table :: "TomlVal \<Rightarrow> bool" where
  "is_table v = (case v of VTab t \<Rightarrow> True | _ \<Rightarrow> False)"

definition demo_rules :: TomlRules where
  "demo_rules = \<lparr>tr_parse = read_document, tr_print = print_value, tr_edited = \<lambda>_. print_value,
     tr_tables = \<lambda>ts. ts \<noteq> [] \<and> list_all is_table ts, tr_host = Inr, tr_country = str_value, tr_country_value = VStr,
     tr_kind = \<lambda>_. Inl bad_type\<rparr>"

lemma same_table_refl: "same_table t t"
proof -
  have "same_value v v" for v
  proof (induction v)
    case (VArr vs)
    then show ?case by (simp add: list_all2_same)
  next
    case (VTab t)
    have "rel_option same_value (map_of t k) (map_of t k)" for k
      using VTab by (cases "map_of t k") (auto dest!: map_of_SomeD)
    then show ?case by (simp add: same_table_def)
  qed (simp_all add: same_value.intros)
  then show ?thesis by (simp add: same_table_def option.rel_refl)
qed

lemma demo_rules_sel: "tr_parse demo_rules = read_document" "tr_print demo_rules = print_value"
  "tr_edited demo_rules = (\<lambda>_. print_value)" "tr_tables demo_rules ts \<longleftrightarrow> ts \<noteq> [] \<and> list_all is_table ts"
  by (simp_all add: demo_rules_def)

lemma demo_rules_ok: "keeps_tables demo_rules" "rules_ok demo_rules s"
proof -
  have printed: "read_document (print_value (VTab t)) = Inr (VTab t)" "same_value (VTab t) (VTab t)" if "fits 16 (VTab t)" for t
    using read_printed_document [OF that] same_table_refl by auto
  show "keeps_tables demo_rules"
    unfolding keeps_tables_def demo_rules_sel
  proof (intro conjI allI impI)
    show "readers_ok demo_rules" by (simp add: readers_ok_def demo_rules_def order_freeI)
    show "list_all is_table (map VTab ts)" for ts by (simp add: list_all_iff is_table_def)
    show "\<exists>doc. read_document (print_value (VTab t)) = Inr doc \<and> same_value (VTab t) doc" if "fits 16 (VTab t)" for t
      using printed [OF that] by blast
    fix t doc doc'
    assume t: "fits 16 (VTab t) \<and> read_document (print_value (VTab t)) = Inr doc \<and> drop_super_toml demo_rules doc = Inr doc'
      \<and> entries_left doc'"
    then have "doc = VTab t" using printed(1) [of t] by (auto simp del: fits.simps)
    then obtain t' where "fits 16 (VTab t')" "doc' = VTab t'" using fits_edited t by blast
    with printed show "\<exists>w. read_document (print_value doc') = Inr w \<and> same_value doc' w" by blast
  qed simp
qed (simp add: rules_ok_def demo_rules_def list_all_iff)

lemma demo_built:
  assumes "build_cloud demo_crates demo_rng 0 demo_config = Inr c"
  shows "printable demo_rules c" "servers c \<noteq> []"
proof -
  note res = build_cloud_result [OF assms]
  have demo: "list_all (\<lambda>s. fits 14 (ser_server demo_rules (s\<lparr>srv_inbounds := demo_set @ [super_inbound]\<rparr>))) (servers demo_config)"
    "case ser_settings demo_settings of Inl _ \<Rightarrow> False | Inr v \<Rightarrow> fits 15 v"
    by code_simp+
  have "fits 14 (ser_server demo_rules t)"
    if "ready_server demo_crates demo_settings s t" "s \<in> set (servers demo_config)" for s t
  proof -
    have "ser_server demo_rules t = ser_server demo_rules (s\<lparr>srv_inbounds := demo_set @ [super_inbound]\<rparr>)"
      using that by (auto simp: ready_server_def same_declaration_def subdomains_of_def effective_inbounds_def ser_server_def
        demo_config_def demo_server_def demo_settings_def)
    with demo(1) that(2) show ?thesis by (simp add: list_all_iff)
  qed
  then have "\<forall>v \<in> set (map (ser_server demo_rules) (servers c)). fits 14 v"
    using res(1) by (fastforce simp: demo_config_def list_all2_conv_all_nth set_conv_nth)
  moreover have "settings c = demo_settings" using res(2) by (simp add: demo_config_def demo_settings_def SVC_MON_INTERVAL_def MIN_MON_INTERVAL_def SVC_TIMEOUT_def max_def)
  ultimately show "printable demo_rules c"
    using demo(2) unfolding printable_def
    by (cases "ser_settings demo_settings") (auto simp: writable_def ser_cloud_def list_all_iff demo_rules_ok text_ok_def)
  show "servers c \<noteq> []" using list_all2_lengthD [OF res(1)] by (auto simp: demo_config_def)
qed

theorem restored_backup_witness:
  "\<exists>c bk c'. build_cloud demo_crates demo_rng 0 demo_config = Inr c \<and> servers c \<noteq> [] \<and> backup_text demo_rules c = Inr bk
     \<and> parse_cloud_config demo_crates demo_rng 0 (toml_from_str demo_rules) (Inr bk) = Inr c' \<and> settings c' = settings c
     \<and> map declared_part (servers c') = map declared_part (servers c)"
proof -
  obtain c where c: "build_cloud demo_crates demo_rng 0 demo_config = Inr c" using build_cloud_iff demo_config_valid by blast
  note demo = demo_built [OF c]
  from restored_backup [OF build_cloud_result(3) [OF c] demo(2,1) demo_rules_ok(1), of demo_crates demo_rng 0] c demo(2)
  show ?thesis by blast
qed

definition demo_minimal :: "(string \<times> IpAddr \<times> Host) list" where
  "demo_minimal = [(''one'', V4 8 8 8 1, ''one.org''), (''two'', V4 8 8 8 2, ''two.org'')]"

definition demo_document :: TomlRules where
  "demo_document = demo_rules\<lparr>tr_parse := \<lambda>_. Inr (VTab [(''servers'', VArr (map minimal_server demo_minimal)),
     (''settings'', VTab [(''inbound-set'', VArr (map ser_inbound demo_set))])])\<rparr>"

theorem minimal_declarations_witness:
  "\<exists>c. parse_cloud_config demo_crates demo_rng 0 (toml_from_str demo_document) (Inr ''text'') = Inr c
     \<and> map srv_ssh_port (map declared_part (servers c)) = [SSH_PORT, SSH_PORT]"
proof -
  have doc: "tr_parse demo_document ''text'' = Inr (VTab [(''servers'', VArr (map minimal_server demo_minimal)),
     (''settings'', VTab [(''inbound-set'', VArr (map ser_inbound demo_set))])])"
    by (simp add: demo_document_def)
  have settings: "read_settings demo_document (VTab [(''inbound-set'', VArr (map ser_inbound demo_set))]) = Inr demo_settings"
    by (simp add: read_settings_def demo_settings_def default_true_def default_threshold_def default_mon_interval_def)
  have "valid_inbound_set (inbound_set demo_settings)" using demo_config_valid by (simp add: valid_config_def demo_config_def)
  moreover have "list_all (\<lambda>d. tr_host demo_document (snd (snd d)) = Inr (snd (snd d))) demo_minimal"
    by (simp add: demo_document_def demo_rules_def list_all_iff)
  moreover have "list_all (\<lambda>d. is_proper (fst d) \<and> is_global (fst (snd d))) demo_minimal
      \<and> distinct (map fst demo_minimal) \<and> distinct (map (fst \<circ> snd) demo_minimal) \<and> distinct (map (snd \<circ> snd) demo_minimal)"
    using demo_config_valid
    by (simp add: demo_minimal_def valid_config_def valid_server_def demo_config_def demo_server_def)
  ultimately obtain c where c: "parse_cloud_config demo_crates demo_rng 0 (toml_from_str demo_document) (Inr ''text'') = Inr c"
    "map declared_part (servers c) = map (\<lambda>d. (default_server d)\<lparr>srv_inbounds := inbound_set demo_settings @ [super_inbound]\<rparr>) demo_minimal"
    using minimal_declarations [OF doc settings, of demo_crates demo_rng 0] by blast
  have "map srv_ssh_port (map declared_part (servers c)) = [SSH_PORT, SSH_PORT]"
    unfolding c(2) by (simp add: demo_minimal_def default_server_def)
  with c(1) show ?thesis by (intro exI conjI)
qed

end
