(* ===== verification/Server_Text.thy ===== *)
theory Server_Text
  imports Cloud_Toml Nft_Rules
begin

text \<open>
  The description of a server in the log: \<open>Display\<close> of \<open>KetServer\<close> and \<open>Debug\<close> of \<open>Inbound\<close>, with the
  escapes of quoted text, in \<^verbatim>\<open>src/types.rs\<close>. How the crates print countries, and how characters
  beyond ASCII are quoted, are parameters.
\<close>

record TextEnv =
  te_country :: "CountryCode \<Rightarrow> string"
  te_country_debug :: "CountryCode \<Rightarrow> string"
  te_wide :: "nat \<Rightarrow> string"

section \<open>Quoted text\<close>

text \<open>\<open>Debug\<close> of \<open>str\<close>, one character\<close>

definition escape_char :: "(nat \<Rightarrow> string) \<Rightarrow> nat \<Rightarrow> string" where
  "escape_char wide c =
     (if c = 0 then [char_of (92 :: nat), CHR ''0'']
      else if c = 9 then [char_of (92 :: nat), CHR ''t'']
      else if c = 13 then [char_of (92 :: nat), CHR ''r'']
      else if c = 10 then [char_of (92 :: nat), CHR ''n'']
      else if c = 34 \<or> c = 92 then [char_of (92 :: nat), char_of c]
      else if c < 32 \<or> c = 127 then char_of (92 :: nat) # ''u{'' @ show_base 16 c @ ''}''
      else if c < 128 then [char_of c] else wide c)"

definition debug_str :: "(nat \<Rightarrow> string) \<Rightarrow> string \<Rightarrow> string" where
  "debug_str wide s = char_of (34 :: nat) # concat (map (escape_char wide) (str_chars s)) @ [char_of (34 :: nat)]"

section \<open>Inbounds and servers\<close>

text \<open>The pretty form \<open>{:#?}\<close>: each field on a line, indented by its depth.\<close>

definition inbound_fields :: "TextEnv \<Rightarrow> Inbound \<Rightarrow> string list" where
  "inbound_fields te i =
     [''name: '' @ debug_str (te_wide te) (inb_name i), ''port: '' @ show_u16 (inb_port i), ''kind: '' @ kind_to_string (inb_kind i),
      ''total: '' @ show_u16 (inb_total i), ''traffic: '' @ show_nat (unat (inb_traffic i)), ''expiry: '' @ show_u16 (inb_expiry i),
      ''comment: '' @ debug_str (te_wide te) (inb_comment i)]"

definition debug_inbound :: "TextEnv \<Rightarrow> Inbound \<Rightarrow> string list" where
  "debug_inbound te i = ''    Inbound {'' # map (\<lambda>f. ''        '' @ f @ '','') (inbound_fields te i) @ [''    },'']"

definition debug_inbounds :: "TextEnv \<Rightarrow> Inbound list \<Rightarrow> string" where
  "debug_inbounds te ins =
     (if ins = [] then ''[]'' else join nl (''['' # concat (map (debug_inbound te) ins) @ ['']'']))"

definition debug_countries :: "TextEnv \<Rightarrow> CountryCode list \<Rightarrow> string" where
  "debug_countries te cs = ''['' @ join '', '' (map (te_country_debug te) cs) @ '']''"

definition server_fields :: "TextEnv \<Rightarrow> KetServer \<Rightarrow> string list" where
  "server_fields te s =
     ['' ----------------- KetServer -----------------'',
      ''                name: '' @ srv_name s,
      ''                  IP: '' @ show_ip (srv_ip s),
      ''              domain: '' @ srv_domain s,
      ''              region: '' @ te_country te (srv_region s),
      ''               state: '' @ state_to_string (srv_state s),
      ''               quota: '' @ show_u16 (srv_quota s),
      ''             enabled: '' @ show_bool (srv_enabled s),
      ''            ssh_port: '' @ show_u16 (srv_ssh_port s),
      ''       dns_subdomain: '' @ srv_dns_subdomain s,
      ''        ui_subdomain: '' @ srv_ui_subdomain s,
      ''       sub_subdomain: '' @ srv_sub_subdomain s,
      ''  cloudflare_proxied: '' @ show_bool (srv_cloudflare_proxied s),
      ''      outbound_block: '' @ debug_countries te (srv_outbound_block s),
      ''            inbounds:'']
     @ map (\<lambda>l. ''                  '' @ l) (str_lines (debug_inbounds te (srv_inbounds s)))
     @ ['' ---------------------------------------------'']"

definition show_server :: "TextEnv \<Rightarrow> KetServer \<Rightarrow> string" where
  "show_server te s = concat (map (\<lambda>l. l @ nl) (server_fields te s))"

section \<open>Lines\<close>

text \<open>Whatever its comment says, an inbound is described in nine lines; quoted text holds no line end.\<close>

definition one_line :: "string \<Rightarrow> bool" where
  "one_line s \<longleftrightarrow> list_all (\<lambda>c. of_char c \<noteq> (10 :: nat) \<and> of_char c \<noteq> (13 :: nat)) s"

lemma one_line_append [simp]: "one_line (a @ b) \<longleftrightarrow> one_line a \<and> one_line b"
  by (simp add: one_line_def)

lemma one_line_Cons [simp]: "one_line (c # b) \<longleftrightarrow> of_char c \<noteq> (10 :: nat) \<and> of_char c \<noteq> (13 :: nat) \<and> one_line b"
  by (auto simp: one_line_def)

lemma one_line_Nil [simp]: "one_line []"
  by (simp add: one_line_def)

lemma one_line_concat: "(\<And>x. x \<in> set xs \<Longrightarrow> one_line x) \<Longrightarrow> one_line (concat xs)"
  by (induction xs) auto

lemma one_line_ends: "one_line s \<Longrightarrow> char_of (10 :: nat) \<notin> set s \<and> char_of (13 :: nat) \<notin> set s"
  by (auto simp: one_line_def list_all_iff)

lemma show_base_line: "2 \<le> b \<Longrightarrow> b \<le> 16 \<Longrightarrow> one_line (show_base b n)"
  using digits_bound [of b _ n] by (fastforce simp: one_line_def show_base_def digit_char_def list_all_iff)

lemma escape_char_line: "one_line (wide c) \<Longrightarrow> one_line (escape_char wide c)"
  by (simp add: escape_char_def show_base_line)

lemma debug_str_line: "(\<And>c. one_line (wide c)) \<Longrightarrow> one_line (debug_str wide s)"
  by (auto simp: debug_str_def escape_char_line intro!: one_line_concat)

lemma debug_inbound_lines: "(\<And>c. one_line (te_wide te c)) \<Longrightarrow> list_all one_line (debug_inbound te i)"
  by (cases "inb_kind i") (simp_all add: debug_inbound_def inbound_fields_def debug_str_line show_u16_def show_base_line)

lemma str_lines_join:
  assumes "list_all one_line ls" "ls \<noteq> []" "last ls \<noteq> []"
  shows "str_lines (join nl ls) = ls"
proof -
  have "split_at (char_of (10 :: nat)) (join nl ls) = ls"
    unfolding nl_def using assms(1,2) by (intro split_at_join) (auto simp: list_all_iff dest: one_line_ends)
  moreover have "strip_cr l = l" if "one_line l" for l
    using one_line_ends [OF that] last_in_set [of l] unfolding strip_cr_def by metis
  then have "map strip_cr (butlast ls) = butlast ls"
    using assms(1) by (intro map_idI) (auto simp: list_all_iff dest: in_set_butlastD)
  ultimately show ?thesis using assms(2,3) by (simp add: str_lines_def Let_def)
qed

lemma inbounds_described:
  assumes "\<And>c. one_line (te_wide te c)"
  shows "str_lines (debug_inbounds te ins) = (if ins = [] then [''[]''] else ''['' # concat (map (debug_inbound te) ins) @ ['']''])"
proof (cases "ins = []")
  case True
  then show ?thesis using str_lines_join [of "[''[]'']"] by (simp add: debug_inbounds_def)
next
  case False
  have "list_all one_line (concat (map (debug_inbound te) ins))"
    using debug_inbound_lines [OF assms] by (auto simp: list_all_iff)
  with False show ?thesis
    using str_lines_join [of "''['' # concat (map (debug_inbound te) ins) @ ['']'']"] by (simp add: debug_inbounds_def)
qed

text \<open>The description shows nothing but declarations: no secret, no connection, no state of a remote service.\<close>

lemma show_server_declared: "show_server te (declared_part s) = show_server te s"
  by (simp add: show_server_def server_fields_def declared_part_def)

end
