(* ===== verification/Spec2Isabelle.thy ===== *)
theory Spec2Isabelle
  imports Rebase_Plan Aggregator Monitor_Loop Retirement Recovery Periodic Svc_Report Xui_Metrics Cli Server_Text
begin

text \<open>
  A verification development of \<^verbatim>\<open>xcplane\<close>, a control plane for a cloud of proxy servers. One daemon on
  the controller reads a declaration of the cloud, reconciles it with the cloud it runs, provisions and
  changes the servers through Ansible, monitors their services and repairs them; a command line talks
  to it over a socket. File names below are those under \<^verbatim>\<open>src/src\<close>.

  \<^bold>\<open>How the parts interact.\<close> A start of the daemon (\<^verbatim>\<open>daemon/startup.rs\<close>) takes the lock and checks the
  workspace. Then it runs cycles (\<^verbatim>\<open>daemon/core.rs\<close>): a cycle takes the running cloud, from the database
  (\<^verbatim>\<open>db.rs\<close>) or from the cycle before, and the declared one (\<^verbatim>\<open>cloud.rs\<close>), reconciles them
  (\<^verbatim>\<open>cloud/reconcile.rs\<close>, with the Cloudflare state of \<^verbatim>\<open>cloudflare.rs\<close> and, in a Rebase, Ansible runs of
  \<^verbatim>\<open>ansible.rs\<close> with the rule files of \<^verbatim>\<open>nft.rs\<close>), stores the result, starts a monitor for each service
  (\<^verbatim>\<open>cloud/service.rs\<close>) and handles commands (\<^verbatim>\<open>daemon.rs\<close>, \<^verbatim>\<open>cli.rs\<close>) until one of them ends the cycle.

  \<^bold>\<open>Which theory models what.\<close>
  \<^item> \<open>Prelude\<close>: results with early return (\<open>and_then\<close>, \<open>try_fold\<close>), stateful calls that may fail
    (\<open>call\<close>, \<open>via\<close>, \<open>pure\<close>), words and text helpers, and the interfaces \<open>text_codec\<close>, \<open>step_system\<close> and
    \<open>relation_system\<close>. \<open>Text_Num\<close>, \<open>Ip_Text\<close> and \<open>Net_Addr\<close>: numbers and addresses as the standard
    library prints and parses them, and the test \<open>is_global\<close> of \<^verbatim>\<open>cloud.rs\<close>.
  \<^item> \<open>Naming\<close>, \<open>Data_Model\<close>, \<open>Server_Ops\<close>: \<^verbatim>\<open>types.rs\<close>, \<^verbatim>\<open>constants.rs\<close>, \<^verbatim>\<open>cloud/server.rs\<close>; one record per
    struct, one datatype per enumeration. \<open>Samples\<close> holds values for concrete instances.
  \<^item> \<open>Cloud_Config\<close>: \<open>parse_cloud_config\<close> of \<^verbatim>\<open>cloud.rs\<close>, against the specification \<open>valid_config\<close>.
  \<^item> \<open>Reconcile\<close>, \<open>Reconcile_Merge\<close>, \<open>Rebase_Plan\<close>: \<^verbatim>\<open>cloud/reconcile.rs\<close>. What every mode promises is
    the interface \<open>merge_contract\<close>; the remote actions of a Rebase are compared with a list of the
    changes each action is due for, its deployment with one independent of the order in which runs finish.
  \<^item> \<open>Database\<close>, \<open>Database_Laws\<close>, \<open>Database_Props\<close>: \<^verbatim>\<open>db.rs\<close>; a table is a map, \<open>stored\<close> is the content
    an update leads to. \<open>Cloud_Toml\<close>: the TOML form of a cloud, from the serde attributes of \<^verbatim>\<open>types.rs\<close>
    with the defaults of \<^verbatim>\<open>constants.rs\<close>, and the text that \<open>create_backup\<close> writes. Of the TOML crates it is
    relied on that a table of texts, 64-bit integers, booleans, lists and tables is read back from its
    text with its keys in any order. \<open>Server_Text\<close>: the description of a server in the log.
  \<^item> \<open>Cloudflare_State\<close>: \<^verbatim>\<open>cloudflare.rs\<close>, over a remote service with a state of its own.
    \<open>Nft_Rules\<close>, \<open>Nft_Props\<close>: \<^verbatim>\<open>nft.rs\<close>; the sets a batch needs are compared with a list of them by action.
  \<^item> \<open>Ansible_Actions\<close>, \<open>Provisioning\<close>, \<open>Provisioning_Props\<close>: \<^verbatim>\<open>ansible.rs\<close>.
  \<^item> \<open>Service_Check\<close>, \<open>Svc_Report\<close>, \<open>Monitor\<close>, \<open>Fix_Ladder\<close>, \<open>Aggregator\<close>, \<open>Monitor_Loop\<close>, \<open>Periodic\<close>:
    \<^verbatim>\<open>cloud/service.rs\<close>, from one check over the handling of its outcome and the ladder of repairs (the
    interface \<open>fix_ladder\<close>, which counts the runs that end in an error apart) to the aggregator with its
    writes that may fail, the monitoring task and the periodic tasks.
  \<^item> \<open>Xui_Api\<close>, \<open>Xui_Metrics\<close>, \<open>Xui_Backups\<close>: \<^verbatim>\<open>xui/api.rs\<close>, \<^verbatim>\<open>xui/types.rs\<close>, \<^verbatim>\<open>xui/db.rs\<close>; the login by
    cookie is a relation on the state of all concurrent calls, with cookie or token, one step for each
    stretch between awaits. A client is an object of its own that is stored before its login ends.
  \<^item> \<open>Daemon\<close>, \<open>Daemon_Core\<close>, \<open>Daemon_Props\<close>: the commands and signals of \<^verbatim>\<open>daemon.rs\<close>, \<open>expand_cloud\<close>,
    the start of a cycle and its command processor. \<open>Single_Instance\<close>: the lock, as a relation on the
    files that concurrent starts share, one step for each system call: the socket file is bound before it
    listens, a starter may be killed at any point, and other processes may have the number in a PID file.
    \<open>Startup\<close>, \<open>Startup_Props\<close>: \<^verbatim>\<open>daemon/startup.rs\<close> over a model of
    the file system. \<open>Log_Setup\<close>: \<^verbatim>\<open>log.rs\<close>. \<open>Daemonize\<close>: the whole process. \<open>Cli\<close>: \<^verbatim>\<open>main.rs\<close> and both
    ends of the socket.
  \<^item> \<open>Lifecycle\<close>, \<open>Retirement\<close>, \<open>Recovery\<close>: from the setup of a server to its monitors, from its destruction
    to their end, and from the end of one process to the monitors of the next, across provisioning, the
    command processor, the database, reconciliation and the start of a cycle.

  \<^bold>\<open>What is shown.\<close> The parser accepts exactly the valid declarations and returns a well-formed cloud.
  Reconciliation returns the declared servers, keeps the credentials of provisioned ones in every
  mode and, in a Reload, everything else of them. An update of the database can be read back, keeps
  references and statistics; a TOML backup gives the declared cloud back. A cycle comes up with the
  cloud it stored and with exactly one monitor for each service; it is left only with a checked and
  backed-up declaration or a shutdown; at most one setup is under way. A server that was set up is
  monitored in the next cycle and one that was destroyed is not; a provisioned server survives the end
  of the process with its credentials. A failure episode starts at most two repairs, and none without
  permission. Concurrent starts, logins and checks exclude each other as they are meant to. The daemon
  ends exactly when its start or a cycle fails or leaves. Where the code does less than it means to,
  the theorem says what it does.

  \<^bold>\<open>Conventions.\<close> An error is \<open>Inl\<close>, and a panic or an early return is a branch of its own. Integers keep
  their width. Recursion is structural or has a measure; no definition uses fuel. The one loop that may
  run forever, that of the daemon, is a partial function with the value \<open>None\<close> for a run that does not
  end and a theorem that says when it has another. The order in which a hash map, a directory or a
  query is walked, the order in which concurrent runs finish, the clock and the random bytes are
  arguments, so statements hold for each of them. Tasks that share state are steps of one machine.

  \<^bold>\<open>Parameters.\<close> Crates and programs that are not under \<^verbatim>\<open>src\<close> are fields of records: \<open>Crates\<close> (hash,
  base64, URL), \<open>DbCrates\<close>, \<open>TomlCrate\<close>, \<open>TomlRules\<close>, \<open>TextEnv\<close>, \<open>LogEnv\<close>, \<open>CFApi\<close>
  (Cloudflare), \<open>NftEnv\<close>, \<open>RunEnv\<close> and \<open>ProvEnv\<close> (Ansible), \<open>PanelEnv\<close>, \<open>FsEnv\<close> and \<open>StartEnv\<close>
  (operating system, versions of programs), \<open>CheckEnv\<close> and \<open>CoreEnv\<close>.
  What is assumed of them is a hypothesis of the theorem that needs it.

  \<^bold>\<open>Not modelled.\<close> The lines of the log (only where they go and the descriptions of servers and errors in
  them), module declarations (\<^verbatim>\<open>lib.rs\<close>), the parsing of arguments, the pager, the construction of HTTP
  clients and TLS: they are calls of crates or programs that are not under \<^verbatim>\<open>src\<close>, or output without
  effect on the cloud. Timers appear as the ticks they give; that a task is eventually scheduled is not
  stated.
\<close>

end
